(* ===== verification/CNN_Prelude.thy ===== *)
theory CNN_Prelude
  imports Complex_Main
begin

text \<open>
  Shared vocabulary of the CNN development. Python exceptions are values of
  \<open>py_error\<close>; a computation that may raise returns \<open>'a result\<close>
  (\<open>Inl\<close> the exception). A Python \<^verbatim>\<open>for\<close> loop whose body may raise is
  \<open>for_each\<close>: the body runs on the elements in order and the first exception
  aborts the loop, as it does in the interpreter. The lemmas turn a loop whose body
  cannot fail into a \<open>fold\<close>, split nested loops, and relate accumulating loops
  over reals to sums.
\<close>

named_theorems loop_simps "loop unfolding lemmas shared by the layer proofs"

datatype py_error = IndexError | ValueError | AttributeError | TypeError | ZeroDivisionError

type_synonym 'a result = "py_error + 'a"

definition ebind :: "'a result \<Rightarrow> ('a \<Rightarrow> 'b result) \<Rightarrow> 'b result" where
  "ebind m f = (case m of Inl e \<Rightarrow> Inl e | Inr x \<Rightarrow> f x)"

fun for_each :: "'a list \<Rightarrow> ('a \<Rightarrow> 's \<Rightarrow> 's result) \<Rightarrow> 's \<Rightarrow> 's result" where
  "for_each [] f s = Inr s"
| "for_each (x # xs) f s = ebind (f x s) (for_each xs f)"

text \<open>A vectorised operation that may raise on an element: the first error wins.\<close>

fun emap :: "('a \<Rightarrow> 'b result) \<Rightarrow> 'a list \<Rightarrow> 'b list result" where
  "emap f [] = Inr []"
| "emap f (x # xs) = ebind (f x) (\<lambda>y. ebind (emap f xs) (\<lambda>ys. Inr (y # ys)))"

text \<open>\<open>relu\<close> is \<^verbatim>\<open>np.maximum(0, x)\<close> on one element.\<close>

definition relu :: "real \<Rightarrow> real" where
  "relu x = max 0 x"

subsection \<open>The error monad\<close>

lemma ebind_Inl [simp]: "ebind (Inl e) f = Inl e"
  by (simp add: ebind_def)

lemma ebind_Inr [simp]: "ebind (Inr x) f = f x"
  by (simp add: ebind_def)

lemma ebind_eq_Inr: "ebind m f = Inr y \<longleftrightarrow> (\<exists>x. m = Inr x \<and> f x = Inr y)"
  by (cases m) (auto simp: ebind_def)

lemma ebind_eq_Inl: "ebind m f = Inl e \<longleftrightarrow> m = Inl e \<or> (\<exists>x. m = Inr x \<and> f x = Inl e)"
  by (cases m) (auto simp: ebind_def)

lemma ebind_assoc: "ebind (ebind m f) g = ebind m (\<lambda>x. ebind (f x) g)"
  by (cases m) simp_all

subsection \<open>Loops\<close>

lemma for_each_append [loop_simps]:
  "for_each (xs @ ys) f s = ebind (for_each xs f s) (for_each ys f)"
  by (induction xs arbitrary: s) (simp_all add: ebind_def split: sum.split)

lemma for_each_snoc:
  "for_each (xs @ [x]) f s = ebind (for_each xs f s) (f x)"
  by (simp add: for_each_append ebind_def split: sum.split)

lemma for_each_concat [loop_simps]:
  "for_each (concat xss) f s = for_each xss (\<lambda>xs. for_each xs f) s"
  by (induction xss arbitrary: s) (simp_all add: for_each_append ebind_def split: sum.split)

lemma for_each_map [loop_simps]:
  "for_each (map g xs) f s = for_each xs (\<lambda>x. f (g x)) s"
  by (induction xs arbitrary: s) (simp_all add: ebind_def split: sum.split)

text \<open>The same laws for a loop not yet applied to its state (an inner loop).\<close>

lemma for_each_concat_fun [loop_simps]:
  "for_each (concat xss) f = for_each xss (\<lambda>xs. for_each xs f)"
  by (rule ext) (rule for_each_concat)

lemma for_each_map_fun [loop_simps]:
  "for_each (map g xs) f = for_each xs (\<lambda>x. f (g x))"
  by (rule ext) (rule for_each_map)

lemma for_each_cong [fundef_cong]:
  "xs = ys \<Longrightarrow> (\<And>x s. x \<in> set ys \<Longrightarrow> f x s = g x s) \<Longrightarrow> for_each xs f s = for_each ys g s"
  by (induction ys arbitrary: s xs) (simp_all add: ebind_def split: sum.split)

text \<open>
  A loop whose body cannot raise, as long as an invariant \<open>P\<close> of the loop state
  holds and is kept, is the \<open>fold\<close> of the body's pure part.
\<close>

lemma for_each_fold_inv:
  assumes "\<And>x s. x \<in> set xs \<Longrightarrow> P s \<Longrightarrow> f x s = Inr (g x s) \<and> P (g x s)"
    and "P s"
  shows "for_each xs f s = Inr (fold g xs s) \<and> P (fold g xs s)"
  using assms by (induction xs arbitrary: s) simp_all

lemma for_each_inv:
  assumes "\<And>x s. x \<in> set xs \<Longrightarrow> P s \<Longrightarrow> \<exists>t. f x s = Inr t \<and> P t" and "P s"
  shows "\<exists>t. for_each xs f s = Inr t \<and> P t"
  using assms by (induction xs arbitrary: s) fastforce+

lemma for_each_fold:
  assumes "\<And>x s. x \<in> set xs \<Longrightarrow> f x s = Inr (g x s)"
  shows "for_each xs f s = Inr (fold g xs s)"
  using for_each_fold_inv [where P = "\<lambda>_. True" and xs = xs and f = f and g = g and s = s] assms
  by simp

text \<open>A loop whose body raises at some element on every state raises too.\<close>

lemma for_each_Inl:
  assumes "x \<in> set xs" and "\<And>s. f x s = Inl e"
    and "\<And>y s. y \<in> set xs \<Longrightarrow> (\<exists>t. f y s = Inr t) \<or> f y s = Inl e"
  shows "for_each xs f s = Inl e"
  using assms
proof (induction xs arbitrary: s)
  case Nil
  then show ?case by simp
next
  case (Cons y ys)
  show ?case
  proof (cases "f y s")
    case (Inl e')
    with Cons.prems(3) [of y s] show ?thesis by auto
  next
    case (Inr t)
    with Cons.prems(1,2) have "y = x \<or> x \<in> set ys" by auto
    then show ?thesis
    proof
      assume "y = x"
      with Inr Cons.prems(2) show ?thesis by simp
    next
      assume "x \<in> set ys"
      with Cons.IH [of t] Cons.prems(2,3) Inr show ?thesis by simp
    qed
  qed
qed

lemma emap_Inr:
  "(\<And>x. x \<in> set xs \<Longrightarrow> f x = Inr (g x)) \<Longrightarrow> emap f xs = Inr (map g xs)"
  by (induction xs) simp_all

lemma emap_cong:
  "(\<And>x. x \<in> set xs \<Longrightarrow> f x = g x) \<Longrightarrow> emap f xs = emap g xs"
  by (induction xs) simp_all

lemma emap_map: "emap f (map g xs) = emap (\<lambda>x. f (g x)) xs"
  by (induction xs) simp_all

lemma emap_Inl:
  assumes "x \<in> set xs" "f x = Inl e" "\<And>y. y \<in> set xs \<Longrightarrow> f y = Inl e \<or> (\<exists>z. f y = Inr z)"
  shows "emap f xs = Inl e"
  using assms by (induction xs) (fastforce simp: ebind_def split: sum.split)+

text \<open>A loop \<^verbatim>\<open>for x in xs: s += g(x)\<close> whose reads all succeed.\<close>

lemma for_each_acc:
  "(\<And>x s. x \<in> set xs \<Longrightarrow> f x s = Inr (s + g x)) \<Longrightarrow> for_each xs f s = Inr (s + sum_list (map g xs))"
  by (induction xs arbitrary: s) (simp_all add: algebra_simps)

text \<open>The body of a Python accumulation \<^verbatim>\<open>s += f x\<close> folded over a list.\<close>

lemma fold_add_sum_list:
  "fold (\<lambda>x s. s + f x) xs (s0::real) = s0 + sum_list (map f xs)"
  by (induction xs arbitrary: s0) (simp_all add: algebra_simps)

lemma fold_split2:
  "fold (\<lambda>x (a, b). (f x a, g x b)) xs (a, b) = (fold f xs a, fold g xs b)"
  by (induction xs arbitrary: a b) simp_all

lemma fold_split3:
  "fold (\<lambda>x (a, b, c). (f x a, g x b, h x c)) xs (a, b, c) = (fold f xs a, fold g xs b, fold h xs c)"
  by (induction xs arbitrary: a b c) simp_all

lemma sum_if_const_pull: "(\<Sum>x<n. if P then f x else 0) = (if P then (\<Sum>x<n. f x) else (0::real))"
  by simp

lemma sum2_delta:
  fixes m n :: nat
  shows "(\<Sum>j<m. \<Sum>k<n. if j = a \<and> k = c then f j k else 0) = (if a < m \<and> c < n then f a c else (0::real))"
proof -
  have "\<And>j k. (if j = a \<and> k = c then f j k else 0) = (if j = a then (if k = c then f j k else 0) else (0::real))"
    by simp
  then show ?thesis by (simp add: sum_if_const_pull)
qed

lemma sum4_delta:
  fixes n c kh kw :: nat
  shows "(\<Sum>oc<n. \<Sum>ic<c. \<Sum>y<kh. \<Sum>x<kw. if [oc, ic, y, x] = [oc', ic', y', x'] then f oc ic y x else 0)
       = (if oc' < n \<and> ic' < c \<and> y' < kh \<and> x' < kw then f oc' ic' y' x' else (0::real))"
proof -
  have "\<And>oc ic y x. (if [oc, ic, y, x] = [oc', ic', y', x'] then f oc ic y x else 0)
      = (if oc = oc' then (if ic = ic' then (if y = y' then (if x = x' then f oc ic y x else 0) else 0) else 0) else (0::real))"
    by auto
  then show ?thesis by (simp add: sum_if_const_pull)
qed

lemma sum_lessThan_zero: "(\<And>x. x < n \<Longrightarrow> f x = 0) \<Longrightarrow> (\<Sum>x<n. f x) = (0::real)"
  by (rule sum.neutral) simp

lemma sum_list_concat: "sum_list (concat xss) = sum_list (map sum_list xss)"
  by (induction xss) simp_all

lemma sum_list_map_upt_sum:
  "sum_list (map f [0..<n]) = (\<Sum>i<n. f i)"
  by (simp add: sum_list_distinct_conv_sum_set atLeast_upt)

lemma fold_concat: "fold f (concat xss) = fold (fold f) xss"
  by (induction xss) simp_all

lemma upt_append: "i \<le> j \<Longrightarrow> j \<le> k \<Longrightarrow> [i..<j] @ [j..<k] = [i..<k]"
  using upt_add_eq_append [of i j "k - j"] by simp

text \<open>Reading a list of equally long rows laid end to end.\<close>

lemma nth_concat_rows:
  assumes "\<And>j. j < b \<Longrightarrow> length (f j) = n" "i < b" "p < n"
  shows "concat (map f [0..<b]) ! (i * n + p) = f i ! p"
  using assms
proof (induction b)
  case 0 then show ?case by simp
next
  case (Suc b)
  have "length (concat (map f [0..<b])) = (\<Sum>j\<leftarrow>[0..<b]. length (f j))"
    by (simp add: length_concat comp_def)
  also have "\<dots> = (\<Sum>j\<leftarrow>[0..<b]. n)"
    using Suc.prems(1) by (intro arg_cong [where f = sum_list] map_cong) auto
  finally have len: "length (concat (map f [0..<b])) = b * n" by (simp add: sum_list_triv)
  show ?case
  proof (cases "i < b")
    case True
    have "i * n + p < (i + 1) * n" using Suc.prems(3) by simp
    also have "\<dots> \<le> b * n" using True by (intro mult_le_mono1) simp
    finally show ?thesis using Suc True len by (simp add: nth_append)
  next
    case False
    then have "i = b" using Suc.prems(2) by simp
    then show ?thesis using len Suc.prems(1,3) by (simp add: nth_append)
  qed
qed
lemma relu_nonneg [simp]: "0 \<le> relu x"
  by (simp add: relu_def)

lemma relu_pos [simp]: "0 < x \<Longrightarrow> relu x = x"
  by (simp add: relu_def)

lemma relu_nonpos [simp]: "x \<le> 0 \<Longrightarrow> relu x = 0"
  by (simp add: relu_def)

end
