(* ===== verification/NDArray.thy ===== *)
theory NDArray
  imports CNN_Prelude
begin

text \<open>
  The numpy arrays of \<^verbatim>\<open>src/main.py\<close>. A numpy array is a shape and a contiguous
  buffer in row-major (C) order; so is \<open>'a ndarray\<close>: \<open>shape\<close> and \<open>data\<close>, with
  \<open>wf_arr\<close> saying that the buffer has \<open>prod_list shape\<close> elements. Reading
  \<^verbatim>\<open>a[i, j, ...]\<close> is \<open>get\<close>, which raises \<open>IndexError\<close> out of range or with
  the wrong number of indices; writing \<^verbatim>\<open>a[idx] = v\<close> is \<open>upd\<close>, and
  \<^verbatim>\<open>a[idx] += v\<close> is \<open>add_at\<close> (a read, then a write). \<^verbatim>\<open>np.zeros\<close>,
  \<^verbatim>\<open>np.zeros_like\<close> and unpacking \<^verbatim>\<open>b, h, w, c = a.shape\<close> are \<open>zeros\<close>,
  \<open>zeros_int\<close>, \<open>zeros_like\<close> and \<open>shape4\<close>. Floats are modelled as reals.

  \<open>all_indices ds\<close> lists the in-range index tuples of shape \<open>ds\<close> in row-major order;
  the main lemmas are that \<open>offset\<close> numbers them \<open>0, 1, \<dots>\<close>, that two well-formed
  arrays with the same shape and the same entries are equal (\<open>arr_ext\<close>), and that a
  loop of \<^verbatim>\<open>+=\<close> updates adds up, at each position, exactly the values sent there
  (\<open>at_fold_bump\<close>).
\<close>

record 'a ndarray =
  shape :: "nat list"
  data :: "'a list"

definition wf_arr :: "'a ndarray \<Rightarrow> bool" where
  "wf_arr a \<longleftrightarrow> length (data a) = prod_list (shape a)"

fun in_bounds :: "nat list \<Rightarrow> nat list \<Rightarrow> bool" where
  "in_bounds [] [] = True"
| "in_bounds (d # ds) (i # is) = (i < d \<and> in_bounds ds is)"
| "in_bounds _ _ = False"

fun offset :: "nat list \<Rightarrow> nat list \<Rightarrow> nat" where
  "offset (d # ds) (i # is) = i * prod_list ds + offset ds is"
| "offset _ _ = 0"

fun all_indices :: "nat list \<Rightarrow> nat list list" where
  "all_indices [] = [[]]"
| "all_indices (d # ds) = concat (map (\<lambda>i. map (Cons i) (all_indices ds)) [0..<d])"

definition entry :: "'a ndarray \<Rightarrow> nat list \<Rightarrow> 'a" where
  "entry a idx = data a ! offset (shape a) idx"

definition get :: "'a ndarray \<Rightarrow> nat list \<Rightarrow> 'a result" where
  "get a idx = (if in_bounds (shape a) idx then Inr (entry a idx) else Inl IndexError)"

definition setv :: "'a ndarray \<Rightarrow> nat list \<Rightarrow> 'a \<Rightarrow> 'a ndarray" where
  "setv a idx v = a\<lparr>data := (data a)[offset (shape a) idx := v]\<rparr>"

definition upd :: "'a ndarray \<Rightarrow> nat list \<Rightarrow> 'a \<Rightarrow> 'a ndarray result" where
  "upd a idx v = (if in_bounds (shape a) idx then Inr (setv a idx v) else Inl IndexError)"

text \<open>A Python index into an axis of length \<open>n\<close>: negative indices count from the end.\<close>

definition py_idx :: "nat \<Rightarrow> int \<Rightarrow> nat result" where
  "py_idx n k =
     (if 0 \<le> k \<and> k < int n then Inr (nat k)
      else if - int n \<le> k \<and> k < 0 then Inr (nat (int n + k))
      else Inl IndexError)"

definition add_at :: "real ndarray \<Rightarrow> nat list \<Rightarrow> real \<Rightarrow> real ndarray result" where
  "add_at a idx v = ebind (get a idx) (\<lambda>x. upd a idx (x + v))"

definition tabulate :: "nat list \<Rightarrow> (nat list \<Rightarrow> 'a) \<Rightarrow> 'a ndarray" where
  "tabulate ds f = \<lparr>shape = ds, data = map f (all_indices ds)\<rparr>"

definition zeros :: "nat list \<Rightarrow> real ndarray" where
  "zeros ds = \<lparr>shape = ds, data = replicate (prod_list ds) 0\<rparr>"

text \<open>\<^verbatim>\<open>np.zeros\<close> on Python ints: a negative dimension raises \<open>ValueError\<close>.\<close>

definition zeros_int :: "int list \<Rightarrow> real ndarray result" where
  "zeros_int ds = (if list_all (\<lambda>d. 0 \<le> d) ds then Inr (zeros (map nat ds)) else Inl ValueError)"

definition zeros_like :: "real ndarray \<Rightarrow> real ndarray" where
  "zeros_like a = zeros (shape a)"

definition shape4 :: "'a ndarray \<Rightarrow> (nat \<times> nat \<times> nat \<times> nat) result" where
  "shape4 a = (case shape a of [b, h, w, c] \<Rightarrow> Inr (b, h, w, c) | _ \<Rightarrow> Inl ValueError)"

text \<open>\<^verbatim>\<open>a.shape[k]\<close>: a tuple index out of range raises \<open>IndexError\<close>.\<close>

definition dim :: "'a ndarray \<Rightarrow> nat \<Rightarrow> nat result" where
  "dim a k = (if k < length (shape a) then Inr (shape a ! k) else Inl IndexError)"

text \<open>Elementwise maps: \<^verbatim>\<open>np.maximum(0, a)\<close>, \<^verbatim>\<open>a > 0\<close>, \<^verbatim>\<open>a - c * b\<close>.\<close>

definition amap :: "('a \<Rightarrow> 'b) \<Rightarrow> 'a ndarray \<Rightarrow> 'b ndarray" where
  "amap f a = \<lparr>shape = shape a, data = map f (data a)\<rparr>"

definition amap2 :: "('a \<Rightarrow> 'b \<Rightarrow> 'c) \<Rightarrow> 'a ndarray \<Rightarrow> 'b ndarray \<Rightarrow> 'c ndarray result" where
  "amap2 f a b =
     (if shape a = shape b then Inr \<lparr>shape = shape a, data = map2 f (data a) (data b)\<rparr>
      else Inl ValueError)"

text \<open>The pure effect of \<^verbatim>\<open>a[idx] += v\<close> at an index known to be in range.\<close>

definition bump :: "real ndarray \<Rightarrow> nat list \<Rightarrow> real \<Rightarrow> real ndarray" where
  "bump a idx v = setv a idx (entry a idx + v)"

subsection \<open>Row-major numbering of the indices\<close>

lemma length_all_indices [simp]: "length (all_indices ds) = prod_list ds"
  by (induction ds) (simp_all add: length_concat comp_def sum_list_triv)

lemma set_all_indices [simp]: "set (all_indices ds) = {idx. in_bounds ds idx}"
proof (induction ds)
  case Nil
  show ?case by (auto elim: in_bounds.elims)
next
  case (Cons d ds)
  show ?case
  proof (intro set_eqI iffI)
    fix idx assume "idx \<in> set (all_indices (d # ds))"
    with Cons show "idx \<in> {idx. in_bounds (d # ds) idx}" by auto
  next
    fix idx assume "idx \<in> {idx. in_bounds (d # ds) idx}"
    then obtain i js where "idx = i # js" "i < d" "in_bounds ds js"
      by (cases idx) auto
    with Cons show "idx \<in> set (all_indices (d # ds))" by auto
  qed
qed

lemma in_bounds_length: "in_bounds ds idx \<Longrightarrow> length idx = length ds"
  by (induction ds idx rule: in_bounds.induct) simp_all

lemma concat_upt_blocks:
  "concat (map (\<lambda>i. map (\<lambda>k. i * p + k) [0..<p]) [0..<d]) = [0..<d * p]"
proof (induction d)
  case 0
  then show ?case by simp
next
  case (Suc d)
  have "[0..<Suc d * p] = [0..<d * p] @ [d * p..<d * p + p]"
    using upt_add_eq_append [of 0 "d * p" p] by (simp add: add.commute)
  also have "[d * p..<d * p + p] = map (\<lambda>k. d * p + k) [0..<p]"
    using map_add_upt [of "d * p" p] by (simp add: add.commute)
  finally show ?case using Suc by simp
qed

lemma map_offset_all_indices: "map (offset ds) (all_indices ds) = [0..<prod_list ds]"
proof (induction ds)
  case Nil
  then show ?case by simp
next
  case (Cons d ds)
  have "map (offset (d # ds)) (all_indices (d # ds))
      = concat (map (\<lambda>i. map (\<lambda>k. i * prod_list ds + k) (map (offset ds) (all_indices ds))) [0..<d])"
    by (simp add: map_concat comp_def)
  also have "\<dots> = [0..<prod_list (d # ds)]"
    by (simp add: Cons concat_upt_blocks mult.commute)
  finally show ?case .
qed

lemma offset_nth_all_indices:
  "k < prod_list ds \<Longrightarrow> offset ds (all_indices ds ! k) = k"
  using nth_map [of k "all_indices ds" "offset ds"] by (simp add: map_offset_all_indices)

lemma offset_lt: "in_bounds ds idx \<Longrightarrow> offset ds idx < prod_list ds"
proof -
  assume "in_bounds ds idx"
  then have "offset ds idx \<in> set (map (offset ds) (all_indices ds))" by simp
  then show ?thesis by (simp add: map_offset_all_indices)
qed

lemma nth_all_indices_offset:
  assumes "in_bounds ds idx"
  shows "all_indices ds ! offset ds idx = idx"
proof -
  from assms obtain k where k: "k < prod_list ds" "all_indices ds ! k = idx"
    by (metis in_set_conv_nth length_all_indices mem_Collect_eq set_all_indices)
  then show ?thesis using offset_nth_all_indices by metis
qed

lemma offset_inj:
  "in_bounds ds i \<Longrightarrow> in_bounds ds j \<Longrightarrow> offset ds i = offset ds j \<Longrightarrow> i = j"
  by (metis nth_all_indices_offset)

subsection \<open>Reading, writing and building arrays\<close>

lemma wf_arr_literal [simp]: "wf_arr \<lparr>shape = ds, data = xs\<rparr> \<longleftrightarrow> length xs = prod_list ds"
  by (simp add: wf_arr_def)

lemma shape_tabulate [simp]: "shape (tabulate ds f) = ds"
  and wf_tabulate [simp]: "wf_arr (tabulate ds f)"
  by (simp_all add: tabulate_def wf_arr_def)

lemma entry_tabulate [simp]: "in_bounds ds idx \<Longrightarrow> entry (tabulate ds f) idx = f idx"
  by (simp add: entry_def tabulate_def offset_lt nth_all_indices_offset)

lemma get_tabulate: "in_bounds ds idx \<Longrightarrow> get (tabulate ds f) idx = Inr (f idx)"
  by (simp add: get_def)

lemma get_in_bounds [simp]: "in_bounds (shape a) idx \<Longrightarrow> get a idx = Inr (entry a idx)"
  by (simp add: get_def)

lemma get_out_of_bounds [simp]: "\<not> in_bounds (shape a) idx \<Longrightarrow> get a idx = Inl IndexError"
  by (simp add: get_def)

lemma zeros_tabulate: "zeros ds = tabulate ds (\<lambda>_. 0)"
  by (simp add: zeros_def tabulate_def map_replicate_const)

lemma shape_zeros [simp]: "shape (zeros ds) = ds"
  and wf_zeros [simp]: "wf_arr (zeros ds)"
  and entry_zeros [simp]: "in_bounds ds idx \<Longrightarrow> entry (zeros ds) idx = 0"
  by (simp_all add: zeros_tabulate)

text \<open>Every well-formed array is the table of its entries; so two arrays are equal when
  their shapes and their entries are.\<close>

lemma tabulate_entry:
  assumes "wf_arr a"
  shows "tabulate (shape a) (entry a) = a"
proof -
  have "map (entry a) (all_indices (shape a)) = data a"
  proof (rule nth_equalityI)
    show "length (map (entry a) (all_indices (shape a))) = length (data a)"
      using assms by (simp add: wf_arr_def)
  next
    fix k assume "k < length (map (entry a) (all_indices (shape a)))"
    then have "k < prod_list (shape a)" by simp
    then show "map (entry a) (all_indices (shape a)) ! k = data a ! k"
      by (simp add: entry_def offset_nth_all_indices)
  qed
  then show ?thesis by (simp add: tabulate_def)
qed

lemma arr_ext:
  assumes "wf_arr a" "wf_arr b" "shape a = shape b"
    and "\<And>idx. in_bounds (shape a) idx \<Longrightarrow> entry a idx = entry b idx"
  shows "a = b"
proof -
  have "tabulate (shape a) (entry a) = tabulate (shape b) (entry b)"
    using assms(3,4) by (simp add: tabulate_def)
  then show ?thesis using assms(1,2) by (simp add: tabulate_entry)
qed

lemma tabulate_cong:
  "(\<And>idx. in_bounds ds idx \<Longrightarrow> f idx = g idx) \<Longrightarrow> tabulate ds f = tabulate ds g"
  by (simp add: tabulate_def)

lemma upd_in_bounds [simp]: "in_bounds (shape a) idx \<Longrightarrow> upd a idx v = Inr (setv a idx v)"
  by (simp add: upd_def)

lemma upd_out_of_bounds [simp]: "\<not> in_bounds (shape a) idx \<Longrightarrow> upd a idx v = Inl IndexError"
  by (simp add: upd_def)

lemma shape_setv [simp]: "shape (setv a idx v) = shape a"
  and wf_setv [simp]: "wf_arr (setv a idx v) = wf_arr a"
  by (simp_all add: setv_def wf_arr_def)

lemma entry_setv:
  assumes "wf_arr a" "in_bounds (shape a) idx" "in_bounds (shape a) j"
  shows "entry (setv a idx v) j = (if j = idx then v else entry a j)"
  using assms offset_lt [of "shape a" idx] offset_inj [of "shape a" j idx]
  by (auto simp: setv_def entry_def wf_arr_def nth_list_update)

text \<open>A loop of writes \<^verbatim>\<open>a[x] = v x\<close>: each written position holds its value.\<close>

lemma entry_fold_setv:
  assumes "wf_arr a" "\<And>x. x \<in> set xs \<Longrightarrow> in_bounds (shape a) x" "in_bounds (shape a) j"
  shows "entry (fold (\<lambda>x acc. setv acc x (v x)) xs a) j = (if j \<in> set xs then v j else entry a j)"
  using assms by (induction xs arbitrary: a) (auto simp: entry_setv)

lemma shape_fold_setv_at [simp]: "shape (fold (\<lambda>x acc. setv acc (ix x) (v x)) xs a) = shape a"
  by (induction xs arbitrary: a) (simp_all add: setv_def)

lemma shape_fold_setv [simp]: "shape (fold (\<lambda>x acc. setv acc x (v x)) xs a) = shape a"
  and wf_fold_setv [simp]: "wf_arr (fold (\<lambda>x acc. setv acc x (v x)) xs a) = wf_arr a"
  by (induction xs arbitrary: a) simp_all

lemma add_at_bump [simp]: "in_bounds (shape a) idx \<Longrightarrow> add_at a idx v = Inr (bump a idx v)"
  by (simp add: add_at_def bump_def)

lemma add_at_out_of_bounds [simp]: "\<not> in_bounds (shape a) idx \<Longrightarrow> add_at a idx v = Inl IndexError"
  by (simp add: add_at_def)

lemma shape_bump [simp]: "shape (bump a idx v) = shape a"
  and wf_bump [simp]: "wf_arr (bump a idx v) = wf_arr a"
  by (simp_all add: bump_def)

lemma entry_bump:
  "wf_arr a \<Longrightarrow> in_bounds (shape a) idx \<Longrightarrow> in_bounds (shape a) j \<Longrightarrow>
   entry (bump a idx v) j = entry a j + (if j = idx then v else 0)"
  using entry_setv [of a idx j "entry a idx + v"] by (simp add: bump_def)

text \<open>
  The scatter law: a loop of \<^verbatim>\<open>acc[ix x] += vx x\<close> over a list leaves at each
  position its old entry plus the sum of the values sent to that position.
\<close>

lemma entry_fold_bump:
  assumes "wf_arr a" "\<And>x. x \<in> set xs \<Longrightarrow> in_bounds (shape a) (ix x)"
    and "in_bounds (shape a) j"
  shows "entry (fold (\<lambda>x acc. bump acc (ix x) (vx x)) xs a) j
       = entry a j + sum_list (map (\<lambda>x. if ix x = j then vx x else 0) xs)"
  using assms
proof (induction xs arbitrary: a)
  case Nil
  then show ?case by simp
next
  case (Cons x xs)
  have "wf_arr (bump a (ix x) (vx x))" "shape (bump a (ix x) (vx x)) = shape a"
    using Cons.prems(1) by simp_all
  with Cons.IH [of "bump a (ix x) (vx x)"] Cons.prems show ?case
    by (simp add: entry_bump)
qed

lemma shape_fold_bump [simp]: "shape (fold (\<lambda>x acc. bump acc (ix x) (vx x)) xs a) = shape a"
  and wf_fold_bump [simp]: "wf_arr (fold (\<lambda>x acc. bump acc (ix x) (vx x)) xs a) = wf_arr a"
  by (induction xs arbitrary: a) simp_all

text \<open>Loops of in-range writes and of in-range \<^verbatim>\<open>+=\<close> cannot raise.\<close>

lemma for_each_upd [loop_simps]:
  "(\<And>x. x \<in> set xs \<Longrightarrow> in_bounds (shape a) x) \<Longrightarrow>
   for_each xs (\<lambda>x acc. upd acc x (v x)) a = Inr (fold (\<lambda>x acc. setv acc x (v x)) xs a)"
  by (induction xs arbitrary: a) simp_all

lemma for_each_add_at [loop_simps]:
  "(\<And>x. x \<in> set xs \<Longrightarrow> in_bounds (shape a) (ix x)) \<Longrightarrow>
   for_each xs (\<lambda>x acc. add_at acc (ix x) (vx x)) a = Inr (fold (\<lambda>x acc. bump acc (ix x) (vx x)) xs a)"
  by (induction xs arbitrary: a) simp_all

text \<open>Four nested \<^verbatim>\<open>range\<close> loops are one loop over the indices in row-major order.\<close>

lemma for_each_nest4:
  "for_each [0..<a] (\<lambda>i. for_each [0..<b] (\<lambda>h. for_each [0..<c] (\<lambda>w. for_each [0..<d] (\<lambda>k. f i h w k)))) s
   = for_each (all_indices [a, b, c, d]) (\<lambda>idx. f (idx ! 0) (idx ! 1) (idx ! 2) (idx ! 3)) s"
  by (simp add: loop_simps comp_def)

text \<open>Writing every position of a fresh \<^verbatim>\<open>np.zeros\<close> array builds the table.\<close>

lemma fold_setv_zeros:
  "fold (\<lambda>idx acc. setv acc idx (v idx)) (all_indices ds) (zeros ds) = tabulate ds v"
  by (rule arr_ext) (use entry_fold_setv [of "zeros ds" "all_indices ds"] in simp_all)

lemma for_each_fill:
  "for_each (all_indices ds) (\<lambda>idx acc. upd acc idx (v idx)) (zeros ds) = Inr (tabulate ds v)"
proof -
  have "for_each (all_indices ds) (\<lambda>idx acc. upd acc idx (v idx)) (zeros ds)
      = Inr (fold (\<lambda>idx acc. setv acc idx (v idx)) (all_indices ds) (zeros ds))"
    by (rule for_each_upd) simp
  then show ?thesis by (simp only: fold_setv_zeros)
qed

lemma in_all_indices4:
  "idx \<in> set (all_indices [a, b, c, d]) \<longleftrightarrow> (\<exists>i h w k. idx = [i, h, w, k] \<and> i < a \<and> h < b \<and> w < c \<and> k < d)"
  unfolding set_all_indices mem_Collect_eq by (auto elim!: in_bounds.elims)

lemma for_each_nest3:
  "for_each [0..<a] (\<lambda>i. for_each [0..<b] (\<lambda>h. for_each [0..<c] (\<lambda>w. f i h w))) s
   = for_each (all_indices [a, b, c]) (\<lambda>idx. f (idx ! 0) (idx ! 1) (idx ! 2)) s"
  by (simp add: loop_simps comp_def)

lemma sum_list_all_indices3:
  "sum_list (map f (all_indices [a, b, c])) = (\<Sum>i<a. \<Sum>j<b. \<Sum>k<c. (f [i, j, k] :: real))"
  by (simp add: sum_list_concat map_concat comp_def sum_list_map_upt_sum)

lemma sum_list_all_indices4:
  "sum_list (map f (all_indices [a, b, c, d])) = (\<Sum>i<a. \<Sum>j<b. \<Sum>k<c. \<Sum>l<d. (f [i, j, k, l] :: real))"
  by (simp add: sum_list_concat map_concat comp_def sum_list_map_upt_sum)

lemma for_each_nest2:
  "for_each [0..<a] (\<lambda>i. for_each [0..<b] (\<lambda>j. f i j)) s
   = for_each (all_indices [a, b]) (\<lambda>idx. f (idx ! 0) (idx ! 1)) s"
  by (simp add: loop_simps comp_def)

lemma sum_list_all_indices2:
  "sum_list (map f (all_indices [a, b])) = (\<Sum>i<a. \<Sum>j<b. (f [i, j] :: real))"
  by (simp add: sum_list_concat map_concat comp_def sum_list_map_upt_sum)

lemma in_all_indices2:
  "idx \<in> set (all_indices [a, b]) \<longleftrightarrow> (\<exists>i j. idx = [i, j] \<and> i < a \<and> j < b)"
  unfolding set_all_indices mem_Collect_eq by (auto elim!: in_bounds.elims)

lemma in_all_indices1:
  "idx \<in> set (all_indices [a]) \<longleftrightarrow> (\<exists>i. idx = [i] \<and> i < a)"
  unfolding set_all_indices mem_Collect_eq by (auto elim!: in_bounds.elims)

lemma in_all_indices3:
  "idx \<in> set (all_indices [a, b, c]) \<longleftrightarrow> (\<exists>i h w. idx = [i, h, w] \<and> i < a \<and> h < b \<and> w < c)"
  unfolding set_all_indices mem_Collect_eq by (auto elim!: in_bounds.elims)

lemma entry_fold_fold_bump:
  assumes "wf_arr a" "\<And>x k. x \<in> set xs \<Longrightarrow> k \<in> set ks \<Longrightarrow> in_bounds (shape a) (ix x k)"
    and "in_bounds (shape a) j"
  shows "entry (fold (\<lambda>x. fold (\<lambda>k acc. bump acc (ix x k) (vx x k)) ks) xs a) j
       = entry a j + sum_list (map (\<lambda>x. sum_list (map (\<lambda>k. if ix x k = j then vx x k else 0) ks)) xs)"
  using assms
proof (induction xs arbitrary: a)
  case Nil
  then show ?case by simp
next
  case (Cons x xs)
  let ?a = "fold (\<lambda>k acc. bump acc (ix x k) (vx x k)) ks a"
  have e: "entry ?a j = entry a j + sum_list (map (\<lambda>k. if ix x k = j then vx x k else 0) ks)"
    by (rule entry_fold_bump) (use Cons.prems in auto)
  have "wf_arr ?a" "shape ?a = shape a" using Cons.prems(1) by simp_all
  with Cons.IH [of ?a] Cons.prems e show ?case by simp
qed

lemma shape_fold_fold_bump [simp]:
  "shape (fold (\<lambda>x. fold (\<lambda>k acc. bump acc (ix x k) (vx x k)) ks) xs a) = shape a"
  and wf_fold_fold_bump [simp]:
  "wf_arr (fold (\<lambda>x. fold (\<lambda>k acc. bump acc (ix x k) (vx x k)) ks) xs a) = wf_arr a"
  by (induction xs arbitrary: a) simp_all

subsection \<open>Elementwise operations\<close>

lemma shape_amap [simp]: "shape (amap f a) = shape a"
  and wf_amap [simp]: "wf_arr (amap f a) = wf_arr a"
  by (simp_all add: amap_def wf_arr_def)

lemma entry_amap [simp]: "wf_arr a \<Longrightarrow> in_bounds (shape a) idx \<Longrightarrow> entry (amap f a) idx = f (entry a idx)"
  by (simp add: amap_def entry_def wf_arr_def offset_lt)

lemma amap_tabulate: "amap f (tabulate ds g) = tabulate ds (\<lambda>idx. f (g idx))"
  by (simp add: amap_def tabulate_def)

lemma amap2_same_shape:
  assumes "wf_arr a" "wf_arr b" "shape a = shape b"
  shows "amap2 f a b = Inr (tabulate (shape a) (\<lambda>idx. f (entry a idx) (entry b idx)))"
proof -
  let ?c = "\<lparr>shape = shape a, data = map2 f (data a) (data b)\<rparr>"
  have "?c = tabulate (shape a) (\<lambda>idx. f (entry a idx) (entry b idx))"
  proof (rule arr_ext)
    show "wf_arr ?c" using assms by (simp add: wf_arr_def)
  next
    fix idx assume "in_bounds (shape ?c) idx"
    then show "entry ?c idx = entry (tabulate (shape a) (\<lambda>idx. f (entry a idx) (entry b idx))) idx"
      using assms offset_lt [of "shape a" idx] by simp (simp add: entry_def wf_arr_def)
  qed simp_all
  with assms(3) show ?thesis by (simp add: amap2_def)
qed

lemma amap2_shape_mismatch [simp]: "shape a \<noteq> shape b \<Longrightarrow> amap2 f a b = Inl ValueError"
  by (simp add: amap2_def)

lemma py_idx_nonneg [simp]: "0 \<le> k \<Longrightarrow> k < int n \<Longrightarrow> py_idx n k = Inr (nat k)"
  by (simp add: py_idx_def)

lemma py_idx_lt: "py_idx n k = Inr j \<Longrightarrow> j < n"
  by (auto simp: py_idx_def split: if_splits)

lemma shape4_eq: "shape4 a = Inr (b, h, w, c) \<longleftrightarrow> shape a = [b, h, w, c]"
  by (auto simp: shape4_def split: list.splits)

lemma in_bounds4 [simp]:
  "in_bounds [b, h, w, c] [i, y, x, k] \<longleftrightarrow> i < b \<and> y < h \<and> x < w \<and> k < c"
  by simp

subsection \<open>Total mass of an array\<close>

text \<open>The sum of all entries, as \<^verbatim>\<open>np.sum\<close>; a \<^verbatim>\<open>+=\<close> adds its value to it.\<close>

lemma sum_list_update_real:
  "k < length xs \<Longrightarrow> sum_list (xs[k := x]) = sum_list xs - xs ! k + (x :: real)"
  by (induction xs arbitrary: k) (auto split: nat.split)

lemma sum_data_bump:
  "wf_arr a \<Longrightarrow> in_bounds (shape a) idx \<Longrightarrow> sum_list (data (bump a idx v)) = sum_list (data a) + v"
  by (simp add: bump_def setv_def entry_def wf_arr_def offset_lt sum_list_update_real)

lemma sum_data_fold_bump:
  "wf_arr a \<Longrightarrow> (\<And>x. x \<in> set xs \<Longrightarrow> in_bounds (shape a) (ix x)) \<Longrightarrow>
   sum_list (data (fold (\<lambda>x acc. bump acc (ix x) (vx x)) xs a)) = sum_list (data a) + sum_list (map vx xs)"
  by (induction xs arbitrary: a) (simp_all add: sum_data_bump)

lemma sum_data_entries:
  "wf_arr a \<Longrightarrow> sum_list (map (entry a) (all_indices (shape a))) = sum_list (data a)"
  using tabulate_entry [of a] by (metis ndarray.select_convs(2) tabulate_def)

lemma sum_data_zeros [simp]: "sum_list (data (zeros ds)) = 0"
  by (simp add: zeros_def sum_list_replicate)

end
