(* ===== verification/Conv2d.thy ===== *)
theory Conv2d
  imports NDArray
begin

text \<open>
  The class \<^verbatim>\<open>Conv2d\<close> of \<^verbatim>\<open>src/main.py\<close> (lines 44--131). The object is the
  record \<open>conv2d\<close>; its transient fields \<^verbatim>\<open>self.input\<close> and
  \<^verbatim>\<open>self.relu_mask\<close> are options, \<open>None\<close> before the first forward call.
  \<open>conv_forward\<close> and \<open>conv_backward\<close> return the updated object with their result
  and translate the methods loop for loop: the four outer \<^verbatim>\<open>range\<close> loops, the three
  inner ones, each read and each \<^verbatim>\<open>+=\<close> of the source, with numpy's
  \<open>IndexError\<close>/\<open>ValueError\<close> where a read is out of range or a shape is wrong.
  The random initial weights are an argument of \<open>conv2d_new\<close>.

  The closed forms \<open>conv_preact\<close> (convolution plus bias), \<open>conv_grad_out\<close> (the
  upstream gradient masked by the ReLU mask), \<open>conv_grad_bias\<close>,
  \<open>conv_grad_weights\<close> and \<open>conv_grad_input\<close> (the transposed convolution) state
  what the loops compute.
\<close>

record conv2d =
  conv_input :: "real ndarray option"
  relu_mask :: "bool ndarray option"
  conv_in_channels :: nat
  conv_out_channels :: nat
  kernel_size :: "nat \<times> nat"
  conv_weights :: "real ndarray"
  conv_biases :: "real ndarray"

definition conv2d_new :: "nat \<Rightarrow> nat \<Rightarrow> nat \<times> nat \<Rightarrow> real ndarray \<Rightarrow> conv2d" where
  "conv2d_new in_ch out_ch ks weights =
     \<lparr>conv_input = None, relu_mask = None, conv_in_channels = in_ch, conv_out_channels = out_ch,
      kernel_size = ks, conv_weights = weights, conv_biases = zeros [out_ch]\<rparr>"

text \<open>The sum over input channels and kernel offsets for one output position
  (lines 77--88).\<close>

definition conv_window_sum ::
  "conv2d \<Rightarrow> real ndarray \<Rightarrow> nat \<Rightarrow> nat \<Rightarrow> nat \<Rightarrow> nat \<Rightarrow> nat \<Rightarrow> real result" where
  "conv_window_sum layer input input_channels i h w oc =
     (let (kernel_height, kernel_width) = kernel_size layer in
      for_each [0..<input_channels] (\<lambda>ic. for_each [0..<kernel_height] (\<lambda>kh.
        for_each [0..<kernel_width] (\<lambda>kw sum_value.
          ebind (get input [i, h + kh, w + kw, ic]) (\<lambda>input_value.
          ebind (get (conv_weights layer) [oc, ic, kh, kw]) (\<lambda>kernel_value.
          Inr (sum_value + input_value * kernel_value)))))) 0)"

definition conv_forward :: "conv2d \<Rightarrow> real ndarray \<Rightarrow> (conv2d \<times> real ndarray) result" where
  "conv_forward layer0 input =
     (let layer = layer0\<lparr>conv_input := Some input\<rparr> in
      ebind (shape4 input) (\<lambda>(batch_size, input_height, input_width, input_channels).
      let (kernel_height, kernel_width) = kernel_size layer;
          output_height = int input_height - int kernel_height + 1;
          output_width = int input_width - int kernel_width + 1 in
      ebind (zeros_int [int batch_size, output_height, output_width, int (conv_out_channels layer)])
        (\<lambda>output0.
      ebind (for_each [0..<batch_size] (\<lambda>i. for_each [0..<nat output_height] (\<lambda>h.
               for_each [0..<nat output_width] (\<lambda>w. for_each [0..<conv_out_channels layer] (\<lambda>oc output.
                 ebind (conv_window_sum layer input input_channels i h w oc) (\<lambda>sum_value.
                 ebind (get (conv_biases layer) [oc]) (\<lambda>bias.
                 upd output [i, h, w, oc] (sum_value + bias))))))) output0)
        (\<lambda>output.
      Inr (layer\<lparr>relu_mask := Some (amap (\<lambda>x. 0 < x) output)\<rparr>, amap relu output)))))"

text \<open>One output position of the backward loop (lines 115--126): the bias gradient, then
  the weight and input gradients over the input channels and kernel offsets.\<close>

definition conv_backward_at ::
  "conv2d \<Rightarrow> real ndarray \<Rightarrow> real ndarray \<Rightarrow> nat \<Rightarrow> nat \<Rightarrow> nat \<Rightarrow> nat \<Rightarrow> nat \<Rightarrow>
   real ndarray \<times> real ndarray \<times> real ndarray \<Rightarrow> (real ndarray \<times> real ndarray \<times> real ndarray) result" where
  "conv_backward_at layer input dL_dout input_channels i h w oc =
     (\<lambda>(dL_dbiases, dL_dweights, dL_din).
      let (kernel_height, kernel_width) = kernel_size layer in
      ebind (get dL_dout [i, h, w, oc]) (\<lambda>g.
      ebind (add_at dL_dbiases [oc] g) (\<lambda>dL_dbiases.
      ebind (for_each [0..<input_channels] (\<lambda>ic. for_each [0..<kernel_height] (\<lambda>kh.
               for_each [0..<kernel_width] (\<lambda>kw (dL_dweights, dL_din).
                 ebind (get input [i, h + kh, w + kw, ic]) (\<lambda>input_value.
                 ebind (add_at dL_dweights [oc, ic, kh, kw] (input_value * g)) (\<lambda>dL_dweights.
                 ebind (get (conv_weights layer) [oc, ic, kh, kw]) (\<lambda>weight.
                 ebind (add_at dL_din [i, h + kh, w + kw, ic] (weight * g)) (\<lambda>dL_din.
                 Inr (dL_dweights, dL_din)))))))) (dL_dweights, dL_din))
        (\<lambda>(dL_dweights, dL_din). Inr (dL_dbiases, dL_dweights, dL_din)))))"

definition conv_backward :: "conv2d \<Rightarrow> real ndarray \<Rightarrow> real \<Rightarrow> (conv2d \<times> real ndarray) result" where
  "conv_backward layer dL_dout0 learning_rate =
     (case conv_input layer of None \<Rightarrow> Inl AttributeError | Some input \<Rightarrow>
      ebind (shape4 input) (\<lambda>(batch_size, input_height, input_width, input_channels).
      case relu_mask layer of None \<Rightarrow> Inl TypeError | Some rmask \<Rightarrow>
      ebind (amap2 (\<lambda>g m. if m then g else 0) dL_dout0 rmask) (\<lambda>dL_dout.
      ebind (for_each [0..<batch_size] (\<lambda>i. for_each [0..<shape dL_dout ! 1] (\<lambda>h.
               for_each [0..<shape dL_dout ! 2] (\<lambda>w. for_each [0..<conv_out_channels layer] (\<lambda>oc.
                 conv_backward_at layer input dL_dout input_channels i h w oc))))
               (zeros_like (conv_biases layer), zeros_like (conv_weights layer), zeros_like input))
        (\<lambda>(dL_dbiases, dL_dweights, dL_din).
      ebind (amap2 (\<lambda>wt d. wt - learning_rate * d) (conv_weights layer) dL_dweights) (\<lambda>weights.
      ebind (amap2 (\<lambda>b d. b - learning_rate * d) (conv_biases layer) dL_dbiases) (\<lambda>biases.
      Inr (layer\<lparr>conv_weights := weights, conv_biases := biases\<rparr>, dL_din)))))))"

text \<open>A test kernel of the spec: one channel, 3x3, centre 1 and 0 elsewhere.\<close>

definition identity_kernel :: "real ndarray" where
  "identity_kernel = tabulate [1, 1, 3, 3] (\<lambda>idx. if idx ! 2 = 1 \<and> idx ! 3 = 1 then 1 else 0)"

text \<open>A layer after a forward call on a 2x2 image with a 1x1 kernel of weight 2, and an
  upstream gradient of ones: test fixtures for the witnesses.\<close>

definition demo_grad :: "real ndarray" where
  "demo_grad = \<lparr>shape = [1, 2, 2, 1], data = [1, 1, 1, 1]\<rparr>"
definition demo_conv_after_forward :: conv2d where
  "demo_conv_after_forward = (conv2d_new 1 1 (1, 1) \<lparr>shape = [1, 1, 1, 1], data = [2]\<rparr>)
     \<lparr>conv_input := Some \<lparr>shape = [1, 2, 2, 1], data = [1, -2, 3, 4]\<rparr>,
      relu_mask := Some \<lparr>shape = [1, 2, 2, 1], data = [True, False, True, True]\<rparr>\<rparr>"

subsection \<open>Closed forms\<close>

definition conv_preact :: "conv2d \<Rightarrow> real ndarray \<Rightarrow> real ndarray" where
  "conv_preact layer input =
     (case (shape input, kernel_size layer) of ([b, hi, wi, c], (kh, kw)) \<Rightarrow>
        tabulate [b, hi + 1 - kh, wi + 1 - kw, conv_out_channels layer] (\<lambda>idx.
          (\<Sum>ic<c. \<Sum>y<kh. \<Sum>x<kw.
             entry input [idx ! 0, idx ! 1 + y, idx ! 2 + x, ic] * entry (conv_weights layer) [idx ! 3, ic, y, x])
          + entry (conv_biases layer) [idx ! 3])
      | _ \<Rightarrow> zeros [])"

text \<open>The shapes under which \<^verbatim>\<open>forward\<close> cannot raise: a 4-D input, a kernel no taller
  or wider than the input plus one, weights of shape \<open>(out, in', kh, kw)\<close> with at least
  as many input channels as the input has, and one bias per output channel.\<close>

definition conv_shapes_ok :: "conv2d \<Rightarrow> real ndarray \<Rightarrow> bool" where
  "conv_shapes_ok layer input \<longleftrightarrow>
     wf_arr input \<and> wf_arr (conv_weights layer) \<and> wf_arr (conv_biases layer) \<and>
     (case (shape input, kernel_size layer) of ([b, hi, wi, c], (kh, kw)) \<Rightarrow>
        kh \<le> hi + 1 \<and> kw \<le> wi + 1 \<and>
        (\<exists>c'. c \<le> c' \<and> shape (conv_weights layer) = [conv_out_channels layer, c', kh, kw]) \<and>
        shape (conv_biases layer) = [conv_out_channels layer]
      | _ \<Rightarrow> False)"

text \<open>The backward closed forms: the upstream gradient masked by the stored ReLU mask
  (line 108), the bias gradient (line 116), the weight gradient (line 123) and the
  transposed convolution onto the input (line 126), all raw sums over the batch.\<close>

definition conv_grad_out :: "bool ndarray \<Rightarrow> real ndarray \<Rightarrow> real ndarray" where
  "conv_grad_out rmask g = tabulate (shape g) (\<lambda>idx. if entry rmask idx then entry g idx else 0)"

definition conv_grad_bias :: "conv2d \<Rightarrow> real ndarray \<Rightarrow> real ndarray" where
  "conv_grad_bias layer gr = tabulate [conv_out_channels layer] (\<lambda>j.
     \<Sum>i<shape gr ! 0. \<Sum>h<shape gr ! 1. \<Sum>w<shape gr ! 2. entry gr [i, h, w, j ! 0])"

definition conv_grad_weights :: "conv2d \<Rightarrow> real ndarray \<Rightarrow> real ndarray \<Rightarrow> real ndarray" where
  "conv_grad_weights layer input gr = tabulate (shape (conv_weights layer)) (\<lambda>j.
     if j ! 1 < shape input ! 3 then
       \<Sum>i<shape gr ! 0. \<Sum>h<shape gr ! 1. \<Sum>w<shape gr ! 2.
         entry input [i, h + j ! 2, w + j ! 3, j ! 1] * entry gr [i, h, w, j ! 0]
     else 0)"

definition conv_grad_input :: "conv2d \<Rightarrow> real ndarray \<Rightarrow> real ndarray \<Rightarrow> real ndarray" where
  "conv_grad_input layer input gr =
     (case kernel_size layer of (kh, kw) \<Rightarrow> tabulate (shape input) (\<lambda>j.
        \<Sum>h<shape gr ! 1. \<Sum>w<shape gr ! 2. \<Sum>oc<conv_out_channels layer. \<Sum>y<kh. \<Sum>x<kw.
          if h + y = j ! 1 \<and> w + x = j ! 2
          then entry (conv_weights layer) [oc, j ! 3, y, x] * entry gr [j ! 0, h, w, oc] else 0))"

text \<open>The state in which \<^verbatim>\<open>backward\<close> cannot raise: a forward call with fitting shapes
  stored its input and mask, and the upstream gradient has the shape of the output.\<close>

definition conv_backward_ok :: "conv2d \<Rightarrow> real ndarray \<Rightarrow> bool" where
  "conv_backward_ok layer g \<longleftrightarrow>
     (case (conv_input layer, relu_mask layer) of
        (Some input, Some rmask) \<Rightarrow> conv_shapes_ok layer input \<and> wf_arr rmask \<and> wf_arr g \<and>
           shape rmask = shape (conv_preact layer input) \<and> shape g = shape rmask
      | _ \<Rightarrow> False)"

subsection \<open>Forward pass\<close>

lemma conv_window_sum_eq:
  assumes "shape input = [b, hi, wi, c]" "kernel_size layer = (kh, kw)"
    and "shape (conv_weights layer) = [n, c', kh, kw]" "c \<le> c'"
    and "i < b" "h + kh \<le> hi" "w + kw \<le> wi" "oc < n"
  shows "conv_window_sum layer input c i h w oc
       = Inr (\<Sum>ic<c. \<Sum>y<kh. \<Sum>x<kw. entry input [i, h + y, w + x, ic] * entry (conv_weights layer) [oc, ic, y, x])"
proof -
  have inner: "for_each [0..<kw] (\<lambda>x s. ebind (get input [i, h + y, w + x, ic]) (\<lambda>iv.
                 ebind (get (conv_weights layer) [oc, ic, y, x]) (\<lambda>kv. Inr (s + iv * kv)))) s
             = Inr (s + sum_list (map (\<lambda>x. entry input [i, h + y, w + x, ic] * entry (conv_weights layer) [oc, ic, y, x]) [0..<kw]))"
    if "ic < c" "y < kh" for ic y s
    by (rule for_each_acc) (use assms that in simp)
  have mid: "for_each [0..<kh] (\<lambda>y. for_each [0..<kw] (\<lambda>x s. ebind (get input [i, h + y, w + x, ic]) (\<lambda>iv.
                 ebind (get (conv_weights layer) [oc, ic, y, x]) (\<lambda>kv. Inr (s + iv * kv))))) s
             = Inr (s + sum_list (map (\<lambda>y. sum_list (map (\<lambda>x. entry input [i, h + y, w + x, ic] * entry (conv_weights layer) [oc, ic, y, x]) [0..<kw])) [0..<kh]))"
    if "ic < c" for ic s
    by (rule for_each_acc) (use inner that in simp)
  have outer: "for_each [0..<c] (\<lambda>ic. for_each [0..<kh] (\<lambda>y. for_each [0..<kw] (\<lambda>x s. ebind (get input [i, h + y, w + x, ic]) (\<lambda>iv.
                 ebind (get (conv_weights layer) [oc, ic, y, x]) (\<lambda>kv. Inr (s + iv * kv)))))) 0
             = Inr (0 + sum_list (map (\<lambda>ic. sum_list (map (\<lambda>y. sum_list (map (\<lambda>x. entry input [i, h + y, w + x, ic] * entry (conv_weights layer) [oc, ic, y, x]) [0..<kw])) [0..<kh])) [0..<c]))"
    by (rule for_each_acc) (use mid in simp)
  show ?thesis
    using outer assms(2) by (simp add: conv_window_sum_def sum_list_map_upt_sum)
qed
lemma conv_shapes_okE:
  assumes "conv_shapes_ok layer input"
  obtains b hi wi c kh kw c' where "shape input = [b, hi, wi, c]" "kernel_size layer = (kh, kw)"
    "shape (conv_weights layer) = [conv_out_channels layer, c', kh, kw]" "c \<le> c'"
    "shape (conv_biases layer) = [conv_out_channels layer]" "kh \<le> hi + 1" "kw \<le> wi + 1"
    "wf_arr input" "wf_arr (conv_weights layer)" "wf_arr (conv_biases layer)"
  using assms unfolding conv_shapes_ok_def
  by (auto split: list.splits prod.splits)

lemma conv_forward_eq:
  assumes "conv_shapes_ok layer input"
  shows "conv_forward layer input
       = Inr (layer\<lparr>conv_input := Some input, relu_mask := Some (amap (\<lambda>x. 0 < x) (conv_preact layer input))\<rparr>,
              amap relu (conv_preact layer input))"
proof -
  obtain b hi wi c kh kw c' where sh: "shape input = [b, hi, wi, c]" "kernel_size layer = (kh, kw)"
    "shape (conv_weights layer) = [conv_out_channels layer, c', kh, kw]" "c \<le> c'"
    "shape (conv_biases layer) = [conv_out_channels layer]" "kh \<le> hi + 1" "kw \<le> wi + 1"
    using assms by (rule conv_shapes_okE)
  let ?n = "conv_out_channels layer"
  let ?ds = "[b, hi + 1 - kh, wi + 1 - kw, ?n]"
  let ?v = "\<lambda>idx. (\<Sum>ic<c. \<Sum>y<kh. \<Sum>x<kw.
             entry input [idx ! 0, idx ! 1 + y, idx ! 2 + x, ic] * entry (conv_weights layer) [idx ! 3, ic, y, x])
          + entry (conv_biases layer) [idx ! 3]"
  let ?L = "layer\<lparr>conv_input := Some input\<rparr>"
  have nat_h: "nat (int hi - int kh + 1) = hi + 1 - kh" and nat_w: "nat (int wi - int kw + 1) = wi + 1 - kw"
    using sh by simp_all
  have z: "zeros_int [int b, int hi - int kh + 1, int wi - int kw + 1, int ?n] = Inr (zeros ?ds)"
    using sh by (simp add: zeros_int_def nat_h nat_w)
  have body: "ebind (conv_window_sum ?L input c (idx ! 0) (idx ! 1) (idx ! 2) (idx ! 3)) (\<lambda>sum_value.
                ebind (get (conv_biases ?L) [idx ! 3]) (\<lambda>bias. upd acc [idx ! 0, idx ! 1, idx ! 2, idx ! 3] (sum_value + bias)))
            = upd acc idx (?v idx)"
    if "idx \<in> set (all_indices ?ds)" for idx acc
  proof -
    from that obtain i h w oc where idx: "idx = [i, h, w, oc]" "i < b" "h < hi + 1 - kh" "w < wi + 1 - kw" "oc < ?n"
      unfolding in_all_indices4 by blast
    have "conv_window_sum ?L input c i h w oc
       = Inr (\<Sum>ic<c. \<Sum>y<kh. \<Sum>x<kw. entry input [i, h + y, w + x, ic] * entry (conv_weights layer) [oc, ic, y, x])"
      using conv_window_sum_eq [of input b hi wi c ?L kh kw ?n c' i h w oc] sh idx by simp
    then show ?thesis using idx sh by simp
  qed
  have loop: "for_each [0..<b] (\<lambda>i. for_each [0..<nat (int hi - int kh + 1)] (\<lambda>h.
               for_each [0..<nat (int wi - int kw + 1)] (\<lambda>w. for_each [0..<?n] (\<lambda>oc output.
                 ebind (conv_window_sum ?L input c i h w oc) (\<lambda>sum_value.
                 ebind (get (conv_biases ?L) [oc]) (\<lambda>bias.
                 upd output [i, h, w, oc] (sum_value + bias))))))) (zeros ?ds)
            = Inr (tabulate ?ds ?v)"
    unfolding nat_h nat_w for_each_nest4
    by (subst for_each_cong [OF refl body]) (simp_all only: for_each_fill)
  have pre: "conv_preact layer input = tabulate ?ds ?v"
    using sh by (simp add: conv_preact_def)
  show ?thesis
    using sh z loop by (simp add: conv_forward_def shape4_def pre)
qed


lemma sum3_center: "(\<Sum>y::nat<3. \<Sum>x::nat<3. f y x * (if y = 1 \<and> x = 1 then 1 else 0)) = (f 1 1 :: real)"
  by (simp add: numeral_3_eq_3 lessThan_Suc)

text \<open>C1: when the shapes fit, \<^verbatim>\<open>Conv2d.forward\<close> stores its input, stores the mask of
  the positive pre-activations and returns ReLU of the valid convolution plus bias:
  \<open>out[i,h,w,oc] = relu(\<Sum>ic,y,x. in[i,h+y,w+x,ic] * W[oc,ic,y,x] + b[oc])\<close>.\<close>

theorem conv_forward_correct:
  assumes "conv_shapes_ok layer input"
  shows "conv_forward layer input
       = Inr (layer\<lparr>conv_input := Some input, relu_mask := Some (amap (\<lambda>x. 0 < x) (conv_preact layer input))\<rparr>,
              amap relu (conv_preact layer input))"
  using assms by (rule conv_forward_eq)

theorem conv_forward_correct_witness:
  "conv_shapes_ok (conv2d_new 1 1 (3, 3) identity_kernel) \<lparr>shape = [1, 3, 3, 1], data = [1, 2, 3, 4, -5, 6, 7, 8, 9]\<rparr>
   \<and> conv_forward (conv2d_new 1 1 (3, 3) identity_kernel) \<lparr>shape = [1, 3, 3, 1], data = [1, 2, 3, 4, -5, 6, 7, 8, 9]\<rparr>
     = Inr ((conv2d_new 1 1 (3, 3) identity_kernel)\<lparr>conv_input := Some \<lparr>shape = [1, 3, 3, 1], data = [1, 2, 3, 4, -5, 6, 7, 8, 9]\<rparr>,
              relu_mask := Some (amap (\<lambda>x. 0 < x) (conv_preact (conv2d_new 1 1 (3, 3) identity_kernel)
                 \<lparr>shape = [1, 3, 3, 1], data = [1, 2, 3, 4, -5, 6, 7, 8, 9]\<rparr>))\<rparr>,
            amap relu (conv_preact (conv2d_new 1 1 (3, 3) identity_kernel) \<lparr>shape = [1, 3, 3, 1], data = [1, 2, 3, 4, -5, 6, 7, 8, 9]\<rparr>))"
proof -
  have h: "conv_shapes_ok (conv2d_new 1 1 (3, 3) identity_kernel) \<lparr>shape = [1, 3, 3, 1], data = [1, 2, 3, 4, -5, 6, 7, 8, 9 :: real]\<rparr>"
    by (simp add: conv_shapes_ok_def conv2d_new_def identity_kernel_def)
  show ?thesis using h conv_forward_correct [OF h] by blast
qed

text \<open>C5: the spec's identity-kernel test: a single-channel 3x3 kernel with centre 1
  and zero bias reproduces the input cropped by one pixel on each side, after ReLU.\<close>

theorem conv_forward_identity_kernel:
  assumes "wf_arr input" "shape input = [b, hi, wi, 1]" "2 \<le> hi" "2 \<le> wi"
  shows "\<exists>L. conv_forward (conv2d_new 1 1 (3, 3) identity_kernel) input
           = Inr (L, tabulate [b, hi - 2, wi - 2, 1] (\<lambda>idx. relu (entry input [idx ! 0, idx ! 1 + 1, idx ! 2 + 1, 0])))"
proof -
  let ?L = "conv2d_new 1 1 (3, 3) identity_kernel"
  have ok: "conv_shapes_ok ?L input"
    using assms by (simp add: conv_shapes_ok_def conv2d_new_def identity_kernel_def)
  have k: "entry identity_kernel [0, 0, y, x] = (if y = 1 \<and> x = 1 then 1 else 0)" if "y < 3" "x < 3" for y x
    using that by (simp add: identity_kernel_def)
  have "amap relu (conv_preact ?L input)
      = tabulate [b, hi - 2, wi - 2, 1] (\<lambda>idx. relu (entry input [idx ! 0, idx ! 1 + 1, idx ! 2 + 1, 0]))"
  proof -
    have "conv_preact ?L input = tabulate [b, hi - 2, wi - 2, 1] (\<lambda>idx. (\<Sum>ic<1. \<Sum>y<3. \<Sum>x<3.
             entry input [idx ! 0, idx ! 1 + y, idx ! 2 + x, ic] * entry identity_kernel [idx ! 3, ic, y, x])
             + entry (zeros [1]) [idx ! 3])"
      using assms by (simp add: conv_preact_def conv2d_new_def)
    also have "\<dots> = tabulate [b, hi - 2, wi - 2, 1] (\<lambda>idx. entry input [idx ! 0, idx ! 1 + 1, idx ! 2 + 1, 0])"
    proof (rule tabulate_cong)
      fix idx assume "in_bounds [b, hi - 2, wi - 2, 1] idx"
      then have "idx ! 3 = 0" by (auto elim!: in_bounds.elims)
      then show "(\<Sum>ic<1. \<Sum>y<3. \<Sum>x<3. entry input [idx ! 0, idx ! 1 + y, idx ! 2 + x, ic] * entry identity_kernel [idx ! 3, ic, y, x])
            + entry (zeros [1]) [idx ! 3]
          = entry input [idx ! 0, idx ! 1 + 1, idx ! 2 + 1, 0]"
        using sum3_center [of "\<lambda>y x. entry input [idx ! 0, idx ! 1 + y, idx ! 2 + x, 0]"] k
        by simp
    qed
    finally show ?thesis by (simp add: amap_tabulate)
  qed
  then show ?thesis using conv_forward_eq [OF ok] by auto
qed

theorem conv_forward_identity_kernel_witness:
  "wf_arr \<lparr>shape = [1, 3, 3, 1], data = [1, 2, 3, 4, -5, 6, 7, 8, 9 :: real]\<rparr>
   \<and> shape \<lparr>shape = [1, 3, 3, 1], data = [1, 2, 3, 4, -5, 6, 7, 8, 9 :: real]\<rparr> = [1, 3, 3, 1]
   \<and> (\<exists>L. conv_forward (conv2d_new 1 1 (3, 3) identity_kernel) \<lparr>shape = [1, 3, 3, 1], data = [1, 2, 3, 4, -5, 6, 7, 8, 9]\<rparr>
       = Inr (L, tabulate [1, 3 - 2, 3 - 2, 1] (\<lambda>idx. relu (entry \<lparr>shape = [1, 3, 3, 1], data = [1, 2, 3, 4, -5, 6, 7, 8, 9 :: real]\<rparr>
                 [idx ! 0, idx ! 1 + 1, idx ! 2 + 1, 0]))))"
proof -
  let ?x = "\<lparr>shape = [1, 3, 3, 1], data = [1, 2, 3, 4, -5, 6, 7, 8, 9 :: real]\<rparr>"
  have h1: "wf_arr ?x" by simp
  have h2: "shape ?x = [1, 3, 3, 1]" by simp
  show ?thesis using h1 h2 conv_forward_identity_kernel [OF h1 h2] by simp
qed

text \<open>C6: a kernel taller than the input plus one makes the output height negative and
  \<^verbatim>\<open>np.zeros\<close> raises \<open>ValueError\<close> before any loop runs.\<close>

theorem conv_forward_kernel_too_large:
  assumes "shape input = [b, hi, wi, c]" "kernel_size layer = (kh, kw)" "hi + 1 < kh"
  shows "conv_forward layer input = Inl ValueError"
  using assms by (simp add: conv_forward_def shape4_def zeros_int_def)

theorem conv_forward_kernel_too_large_witness:
  "shape \<lparr>shape = [1, 1, 3, 1], data = [1, 2, 3 :: real]\<rparr> = [1, 1, 3, 1]
   \<and> kernel_size (conv2d_new 1 1 (3, 3) identity_kernel) = (3, 3) \<and> (1::nat) + 1 < 3
   \<and> conv_forward (conv2d_new 1 1 (3, 3) identity_kernel) \<lparr>shape = [1, 1, 3, 1], data = [1, 2, 3]\<rparr> = Inl ValueError"
  using conv_forward_kernel_too_large [of "\<lparr>shape = [1, 1, 3, 1], data = [1, 2, 3 :: real]\<rparr>" 1 1 3 1
      "conv2d_new 1 1 (3, 3) identity_kernel" 3 3]
  by (simp add: conv2d_new_def)

text \<open>C7: a kernel exactly one taller than the input is not rejected: \<^verbatim>\<open>forward\<close>
  returns an output of height 0, although the spec requires non-positive spatial sizes
  to fail.\<close>

theorem conv_forward_zero_height:
  assumes "conv_shapes_ok layer input" "shape input = [b, hi, wi, c]" "kernel_size layer = (hi + 1, kw)"
  shows "\<exists>L out. conv_forward layer input = Inr (L, out) \<and> shape out = [b, 0, wi + 1 - kw, conv_out_channels layer]"
  using assms conv_forward_eq [OF assms(1)] by (simp add: conv_preact_def)

theorem conv_forward_zero_height_witness:
  "conv_shapes_ok (conv2d_new 1 1 (3, 3) identity_kernel) \<lparr>shape = [1, 2, 3, 1], data = [1, 2, 3, 4, 5, 6 :: real]\<rparr>
   \<and> shape \<lparr>shape = [1, 2, 3, 1], data = [1, 2, 3, 4, 5, 6 :: real]\<rparr> = [1, 2, 3, 1]
   \<and> kernel_size (conv2d_new 1 1 (3, 3) identity_kernel) = (2 + 1, 3)
   \<and> (\<exists>L out. conv_forward (conv2d_new 1 1 (3, 3) identity_kernel) \<lparr>shape = [1, 2, 3, 1], data = [1, 2, 3, 4, 5, 6]\<rparr> = Inr (L, out)
        \<and> shape out = [1, 0, 3 + 1 - 3, conv_out_channels (conv2d_new 1 1 (3, 3) identity_kernel)])"
proof -
  let ?L = "conv2d_new 1 1 (3, 3) identity_kernel"
  let ?x = "\<lparr>shape = [1, 2, 3, 1], data = [1, 2, 3, 4, 5, 6 :: real]\<rparr>"
  have h1: "conv_shapes_ok ?L ?x"
    by (simp add: conv_shapes_ok_def conv2d_new_def identity_kernel_def)
  have h2: "shape ?x = [1, 2, 3, 1]" by simp
  have h3: "kernel_size ?L = (2 + 1, 3)" by (simp add: conv2d_new_def)
  show ?thesis using h1 h2 h3 conv_forward_zero_height [OF h1 h2 h3] by blast
qed

text \<open>An input with fewer channels than the layer was built for is not rejected:
  the extra input channels of the weights are ignored. Here a layer built for 2 input
  channels with weights \<open>[1, 1]\<close> convolves a 1-channel pixel of value 5 to 5.\<close>

theorem conv_forward_fewer_channels_accepted:
  "\<exists>L. conv_forward (conv2d_new 2 1 (1, 1) \<lparr>shape = [1, 2, 1, 1], data = [1, 1]\<rparr>) \<lparr>shape = [1, 1, 1, 1], data = [5]\<rparr>
     = Inr (L, \<lparr>shape = [1, 1, 1, 1], data = [5]\<rparr>)"
proof -
  let ?L = "conv2d_new 2 1 (1, 1) \<lparr>shape = [1, 2, 1, 1], data = [1, 1 :: real]\<rparr>"
  let ?x = "\<lparr>shape = [1, 1, 1, 1], data = [5 :: real]\<rparr>"
  have ok: "conv_shapes_ok ?L ?x"
    by (simp add: conv_shapes_ok_def conv2d_new_def)
  have "amap relu (conv_preact ?L ?x) = \<lparr>shape = [1, 1, 1, 1], data = [5]\<rparr>"
    by (simp add: conv_preact_def conv2d_new_def amap_def tabulate_def entry_def zeros_def)
  then show ?thesis using conv_forward_eq [OF ok] by auto
qed

subsection \<open>Backward pass\<close>

lemma conv_backward_at_eq:
  assumes "shape input = [b, hi, wi, c]" "kernel_size layer = (kh, kw)"
    and "shape (conv_weights layer) = [n, c', kh, kw]" "c \<le> c'"
    and "shape g = [b, oh, ow, n]" "oh + kh \<le> hi + 1" "ow + kw \<le> wi + 1"
    and "i < b" "h < oh" "w < ow" "oc < n"
    and "shape db = [n]" "shape dw = shape (conv_weights layer)" "shape din = shape input"
  shows "conv_backward_at layer input g c i h w oc (db, dw, din)
       = Inr (bump db [oc] (entry g [i, h, w, oc]),
              fold (\<lambda>k acc. bump acc [oc, k ! 0, k ! 1, k ! 2] (entry input [i, h + k ! 1, w + k ! 2, k ! 0] * entry g [i, h, w, oc]))
                (all_indices [c, kh, kw]) dw,
              fold (\<lambda>k acc. bump acc [i, h + k ! 1, w + k ! 2, k ! 0] (entry (conv_weights layer) [oc, k ! 0, k ! 1, k ! 2] * entry g [i, h, w, oc]))
                (all_indices [c, kh, kw]) din)"
proof -
  let ?gv = "entry g [i, h, w, oc]"
  let ?W = "conv_weights layer"
  let ?F = "\<lambda>k acc. bump acc [oc, k ! 0, k ! 1, k ! 2] (entry input [i, h + k ! 1, w + k ! 2, k ! 0] * ?gv)"
  let ?H = "\<lambda>k acc. bump acc [i, h + k ! 1, w + k ! 2, k ! 0] (entry ?W [oc, k ! 0, k ! 1, k ! 2] * ?gv)"
  let ?P = "\<lambda>(dw', din'). shape dw' = shape ?W \<and> shape din' = shape input"
  have inner: "for_each (all_indices [c, kh, kw]) (\<lambda>k (dL_dweights, dL_din).
                 ebind (get input [i, h + k ! 1, w + k ! 2, k ! 0]) (\<lambda>input_value.
                 ebind (add_at dL_dweights [oc, k ! 0, k ! 1, k ! 2] (input_value * ?gv)) (\<lambda>dL_dweights.
                 ebind (get ?W [oc, k ! 0, k ! 1, k ! 2]) (\<lambda>weight.
                 ebind (add_at dL_din [i, h + k ! 1, w + k ! 2, k ! 0] (weight * ?gv)) (\<lambda>dL_din.
                 Inr (dL_dweights, dL_din)))))) (dw, din)
      = Inr (fold (\<lambda>k (a, d). (?F k a, ?H k d)) (all_indices [c, kh, kw]) (dw, din))
        \<and> ?P (fold (\<lambda>k (a, d). (?F k a, ?H k d)) (all_indices [c, kh, kw]) (dw, din))"
  proof (rule for_each_fold_inv)
    fix k and s :: "real ndarray \<times> real ndarray"
    assume k: "k \<in> set (all_indices [c, kh, kw])" and P: "?P s"
    obtain ic y x where kk: "k = [ic, y, x]" "ic < c" "y < kh" "x < kw"
      using k unfolding in_all_indices3 by blast
    obtain a d where s: "s = (a, d)" by fastforce
    show "(case s of (dL_dweights, dL_din) \<Rightarrow>
                 ebind (get input [i, h + k ! 1, w + k ! 2, k ! 0]) (\<lambda>input_value.
                 ebind (add_at dL_dweights [oc, k ! 0, k ! 1, k ! 2] (input_value * ?gv)) (\<lambda>dL_dweights.
                 ebind (get ?W [oc, k ! 0, k ! 1, k ! 2]) (\<lambda>weight.
                 ebind (add_at dL_din [i, h + k ! 1, w + k ! 2, k ! 0] (weight * ?gv)) (\<lambda>dL_din.
                 Inr (dL_dweights, dL_din))))))
          = Inr ((\<lambda>k (a, d). (?F k a, ?H k d)) k s) \<and> ?P ((\<lambda>k (a, d). (?F k a, ?H k d)) k s)"
      using assms kk s P by simp
  qed (use assms in simp)
  have g_in: "in_bounds (shape g) [i, h, w, oc]" using assms by simp
  show ?thesis
    using assms inner g_in
    by (simp add: conv_backward_at_def for_each_nest3 fold_split2)
qed
lemma conv_backward_loop:
  assumes "shape input = [b, hi, wi, c]" "kernel_size layer = (kh, kw)"
    and "shape (conv_weights layer) = [n, c', kh, kw]" "c \<le> c'" "conv_out_channels layer = n"
    and "shape g = [b, oh, ow, n]" "oh + kh \<le> hi + 1" "ow + kw \<le> wi + 1"
    and "shape (conv_biases layer) = [n]"
  shows "for_each [0..<b] (\<lambda>i. for_each [0..<oh] (\<lambda>h. for_each [0..<ow] (\<lambda>w.
           for_each [0..<conv_out_channels layer] (\<lambda>oc. conv_backward_at layer input g c i h w oc))))
           (zeros_like (conv_biases layer), zeros_like (conv_weights layer), zeros_like input)
       = Inr (fold (\<lambda>idx acc. bump acc [idx ! 3] (entry g idx)) (all_indices [b, oh, ow, n]) (zeros [n]),
              fold (\<lambda>idx. fold (\<lambda>k acc. bump acc [idx ! 3, k ! 0, k ! 1, k ! 2]
                       (entry input [idx ! 0, idx ! 1 + k ! 1, idx ! 2 + k ! 2, k ! 0] * entry g idx))
                     (all_indices [c, kh, kw])) (all_indices [b, oh, ow, n]) (zeros (shape (conv_weights layer))),
              fold (\<lambda>idx. fold (\<lambda>k acc. bump acc [idx ! 0, idx ! 1 + k ! 1, idx ! 2 + k ! 2, k ! 0]
                       (entry (conv_weights layer) [idx ! 3, k ! 0, k ! 1, k ! 2] * entry g idx))
                     (all_indices [c, kh, kw])) (all_indices [b, oh, ow, n]) (zeros (shape input)))"
proof -
  let ?W = "conv_weights layer"
  let ?fb = "\<lambda>idx acc. bump acc [idx ! 3] (entry g idx)"
  let ?fw = "\<lambda>idx. fold (\<lambda>k acc. bump acc [idx ! 3, k ! 0, k ! 1, k ! 2]
                       (entry input [idx ! 0, idx ! 1 + k ! 1, idx ! 2 + k ! 2, k ! 0] * entry g idx)) (all_indices [c, kh, kw])"
  let ?fi = "\<lambda>idx. fold (\<lambda>k acc. bump acc [idx ! 0, idx ! 1 + k ! 1, idx ! 2 + k ! 2, k ! 0]
                       (entry ?W [idx ! 3, k ! 0, k ! 1, k ! 2] * entry g idx)) (all_indices [c, kh, kw])"
  let ?P = "\<lambda>(db, dw, din). shape db = [n] \<and> shape dw = shape ?W \<and> shape din = shape input"
  have "for_each (all_indices [b, oh, ow, n])
          (\<lambda>idx. conv_backward_at layer input g c (idx ! 0) (idx ! 1) (idx ! 2) (idx ! 3))
          (zeros [n], zeros (shape ?W), zeros (shape input))
      = Inr (fold (\<lambda>idx (db, dw, din). (?fb idx db, ?fw idx dw, ?fi idx din)) (all_indices [b, oh, ow, n])
               (zeros [n], zeros (shape ?W), zeros (shape input)))
      \<and> ?P (fold (\<lambda>idx (db, dw, din). (?fb idx db, ?fw idx dw, ?fi idx din)) (all_indices [b, oh, ow, n])
               (zeros [n], zeros (shape ?W), zeros (shape input)))"
  proof (rule for_each_fold_inv)
    fix idx and s :: "real ndarray \<times> real ndarray \<times> real ndarray"
    assume idx: "idx \<in> set (all_indices [b, oh, ow, n])" and P: "?P s"
    obtain i h w oc where ii: "idx = [i, h, w, oc]" "i < b" "h < oh" "w < ow" "oc < n"
      using idx unfolding in_all_indices4 by blast
    obtain db dw din where s: "s = (db, dw, din)" by (cases s) auto
    have "conv_backward_at layer input g c i h w oc (db, dw, din)
       = Inr (bump db [oc] (entry g [i, h, w, oc]),
              fold (\<lambda>k acc. bump acc [oc, k ! 0, k ! 1, k ! 2] (entry input [i, h + k ! 1, w + k ! 2, k ! 0] * entry g [i, h, w, oc]))
                (all_indices [c, kh, kw]) dw,
              fold (\<lambda>k acc. bump acc [i, h + k ! 1, w + k ! 2, k ! 0] (entry ?W [oc, k ! 0, k ! 1, k ! 2] * entry g [i, h, w, oc]))
                (all_indices [c, kh, kw]) din)"
      by (rule conv_backward_at_eq) (use assms ii P s in simp_all)
    then show "conv_backward_at layer input g c (idx ! 0) (idx ! 1) (idx ! 2) (idx ! 3) s
          = Inr ((\<lambda>idx (db, dw, din). (?fb idx db, ?fw idx dw, ?fi idx din)) idx s)
        \<and> ?P ((\<lambda>idx (db, dw, din). (?fb idx db, ?fw idx dw, ?fi idx din)) idx s)"
      using ii s P by simp
  qed simp
  then show ?thesis
    using assms by (simp add: for_each_nest4 zeros_like_def fold_split3)
qed

lemma conv_bias_fold_entry:
  assumes "oc' < n"
  shows "entry (fold (\<lambda>idx acc. bump acc [idx ! 3] (entry g idx)) (all_indices [b, oh, ow, n]) (zeros [n])) [oc']
       = (\<Sum>i<b. \<Sum>h<oh. \<Sum>w<ow. entry g [i, h, w, oc'])"
proof -
  have "entry (fold (\<lambda>idx acc. bump acc [idx ! 3] (entry g idx)) (all_indices [b, oh, ow, n]) (zeros [n])) [oc']
      = entry (zeros [n]) [oc'] + sum_list (map (\<lambda>idx. if [idx ! 3] = [oc'] then entry g idx else 0) (all_indices [b, oh, ow, n]))"
    by (rule entry_fold_bump) (use assms in \<open>auto simp: in_all_indices4\<close>)
  then show ?thesis using assms by (simp only: sum_list_all_indices4) simp
qed

lemma conv_weights_fold_entry:
  fixes b oh ow n c kh kw :: nat
  assumes "oc' < n" "ic' < c'" "y' < kh" "x' < kw" "c \<le> c'"
  shows "entry (fold (\<lambda>idx. fold (\<lambda>k acc. bump acc [idx ! 3, k ! 0, k ! 1, k ! 2]
                       (entry input [idx ! 0, idx ! 1 + k ! 1, idx ! 2 + k ! 2, k ! 0] * entry g idx))
                     (all_indices [c, kh, kw])) (all_indices [b, oh, ow, n]) (zeros [n, c', kh, kw])) [oc', ic', y', x']
       = (if ic' < c then \<Sum>i<b. \<Sum>h<oh. \<Sum>w<ow. entry input [i, h + y', w + x', ic'] * entry g [i, h, w, oc'] else 0)"
proof -
  have "entry (fold (\<lambda>idx. fold (\<lambda>k acc. bump acc [idx ! 3, k ! 0, k ! 1, k ! 2]
                       (entry input [idx ! 0, idx ! 1 + k ! 1, idx ! 2 + k ! 2, k ! 0] * entry g idx))
                     (all_indices [c, kh, kw])) (all_indices [b, oh, ow, n]) (zeros [n, c', kh, kw])) [oc', ic', y', x']
      = entry (zeros [n, c', kh, kw]) [oc', ic', y', x']
        + sum_list (map (\<lambda>idx. sum_list (map (\<lambda>k. if [idx ! 3, k ! 0, k ! 1, k ! 2] = [oc', ic', y', x']
            then entry input [idx ! 0, idx ! 1 + k ! 1, idx ! 2 + k ! 2, k ! 0] * entry g idx else 0)
            (all_indices [c, kh, kw]))) (all_indices [b, oh, ow, n]))"
    by (rule entry_fold_fold_bump) (use assms in \<open>auto simp: in_all_indices4 in_all_indices3\<close>)
  also have "\<dots> = (\<Sum>i<b. \<Sum>h<oh. \<Sum>w<ow. \<Sum>oc<n. \<Sum>ic<c. \<Sum>y<kh. \<Sum>x<kw.
      if [oc, ic, y, x] = [oc', ic', y', x'] then entry input [i, h + y, w + x, ic] * entry g [i, h, w, oc] else 0)"
    using assms by (simp only: sum_list_all_indices4 sum_list_all_indices3) (simp cong: if_cong)
  also have "\<dots> = (\<Sum>i<b. \<Sum>h<oh. \<Sum>w<ow.
      if ic' < c then entry input [i, h + y', w + x', ic'] * entry g [i, h, w, oc'] else 0)"
    using assms by (simp only: sum4_delta) simp
  finally show ?thesis by (simp add: sum_if_const_pull)
qed

lemma conv_input_fold_entry:
  fixes b oh ow n c kh kw :: nat
  assumes "i' < b" "ic' < c" "y' < hi" "x' < wi" "oh + kh \<le> hi + 1" "ow + kw \<le> wi + 1"
  shows "entry (fold (\<lambda>idx. fold (\<lambda>k acc. bump acc [idx ! 0, idx ! 1 + k ! 1, idx ! 2 + k ! 2, k ! 0]
                       (entry W [idx ! 3, k ! 0, k ! 1, k ! 2] * entry g idx))
                     (all_indices [c, kh, kw])) (all_indices [b, oh, ow, n]) (zeros [b, hi, wi, c])) [i', y', x', ic']
       = (\<Sum>h<oh. \<Sum>w<ow. \<Sum>oc<n. \<Sum>y<kh. \<Sum>x<kw.
            if h + y = y' \<and> w + x = x' then entry W [oc, ic', y, x] * entry g [i', h, w, oc] else 0)"
proof -
  have "entry (fold (\<lambda>idx. fold (\<lambda>k acc. bump acc [idx ! 0, idx ! 1 + k ! 1, idx ! 2 + k ! 2, k ! 0]
                       (entry W [idx ! 3, k ! 0, k ! 1, k ! 2] * entry g idx))
                     (all_indices [c, kh, kw])) (all_indices [b, oh, ow, n]) (zeros [b, hi, wi, c])) [i', y', x', ic']
      = entry (zeros [b, hi, wi, c]) [i', y', x', ic']
        + sum_list (map (\<lambda>idx. sum_list (map (\<lambda>k. if [idx ! 0, idx ! 1 + k ! 1, idx ! 2 + k ! 2, k ! 0] = [i', y', x', ic']
            then entry W [idx ! 3, k ! 0, k ! 1, k ! 2] * entry g idx else 0)
            (all_indices [c, kh, kw]))) (all_indices [b, oh, ow, n]))"
    by (rule entry_fold_fold_bump) (use assms in \<open>auto simp: in_all_indices4 in_all_indices3\<close>)
  also have "\<dots> = (\<Sum>i<b. \<Sum>h<oh. \<Sum>w<ow. \<Sum>oc<n. \<Sum>ic<c. \<Sum>y<kh. \<Sum>x<kw.
      if [i, h + y, w + x, ic] = [i', y', x', ic'] then entry W [oc, ic, y, x] * entry g [i, h, w, oc] else 0)"
    using assms by (simp only: sum_list_all_indices4 sum_list_all_indices3) (simp cong: if_cong)
  also have "\<dots> = (\<Sum>h<oh. \<Sum>w<ow. \<Sum>oc<n. \<Sum>y<kh. \<Sum>x<kw.
            if h + y = y' \<and> w + x = x' then entry W [oc, ic', y, x] * entry g [i', h, w, oc] else 0)"
  proof -
    have "\<And>i h w oc ic y x. (if [i, h + y, w + x, ic] = [i', y', x', ic'] then entry W [oc, ic, y, x] * entry g [i, h, w, oc] else 0)
        = (if i = i' then (if ic = ic' then (if h + y = y' \<and> w + x = x'
             then entry W [oc, ic, y, x] * entry g [i, h, w, oc] else 0) else 0) else (0::real))"
      by auto
    then show ?thesis using assms by (simp add: sum_if_const_pull)
  qed
  finally show ?thesis .
qed

lemma conv_backward_eq:
  assumes "conv_backward_ok layer g" "conv_input layer = Some input" "relu_mask layer = Some rmask"
  shows "conv_backward layer g lr
       = Inr (layer\<lparr>conv_weights := tabulate (shape (conv_weights layer)) (\<lambda>j.
                  entry (conv_weights layer) j - lr * entry (conv_grad_weights layer input (conv_grad_out rmask g)) j),
                conv_biases := tabulate [conv_out_channels layer] (\<lambda>j.
                  entry (conv_biases layer) j - lr * entry (conv_grad_bias layer (conv_grad_out rmask g)) j)\<rparr>,
              conv_grad_input layer input (conv_grad_out rmask g))"
proof -
  let ?W = "conv_weights layer" and ?B = "conv_biases layer" and ?n = "conv_out_channels layer"
  let ?G = "conv_grad_out rmask g"
  have ok: "conv_shapes_ok layer input" "wf_arr rmask" "wf_arr g"
    "shape rmask = shape (conv_preact layer input)" "shape g = shape rmask"
    using assms by (simp_all add: conv_backward_ok_def)
  obtain b hi wi c kh kw c' where sh: "shape input = [b, hi, wi, c]" "kernel_size layer = (kh, kw)"
    "shape ?W = [?n, c', kh, kw]" "c \<le> c'" "shape ?B = [?n]" "kh \<le> hi + 1" "kw \<le> wi + 1"
    "wf_arr input" "wf_arr ?W" "wf_arr ?B"
    using ok(1) by (rule conv_shapes_okE)
  let ?oh = "hi + 1 - kh" and ?ow = "wi + 1 - kw"
  have shg: "shape g = [b, ?oh, ?ow, ?n]" "shape rmask = [b, ?oh, ?ow, ?n]"
    using ok(4,5) sh by (simp_all add: conv_preact_def)
  have G: "amap2 (\<lambda>g m. if m then g else 0) g rmask = Inr ?G"
    using ok shg by (simp add: amap2_same_shape conv_grad_out_def)
  have shG: "shape ?G = [b, ?oh, ?ow, ?n]" by (simp add: conv_grad_out_def shg)
  let ?DB = "fold (\<lambda>idx acc. bump acc [idx ! 3] (entry ?G idx)) (all_indices [b, ?oh, ?ow, ?n]) (zeros [?n])"
  let ?DW = "fold (\<lambda>idx. fold (\<lambda>k acc. bump acc [idx ! 3, k ! 0, k ! 1, k ! 2]
                       (entry input [idx ! 0, idx ! 1 + k ! 1, idx ! 2 + k ! 2, k ! 0] * entry ?G idx))
                     (all_indices [c, kh, kw])) (all_indices [b, ?oh, ?ow, ?n]) (zeros (shape ?W))"
  let ?DI = "fold (\<lambda>idx. fold (\<lambda>k acc. bump acc [idx ! 0, idx ! 1 + k ! 1, idx ! 2 + k ! 2, k ! 0]
                       (entry ?W [idx ! 3, k ! 0, k ! 1, k ! 2] * entry ?G idx))
                     (all_indices [c, kh, kw])) (all_indices [b, ?oh, ?ow, ?n]) (zeros (shape input))"
  have loop: "for_each [0..<b] (\<lambda>i. for_each [0..<?oh] (\<lambda>h. for_each [0..<?ow] (\<lambda>w.
           for_each [0..<?n] (\<lambda>oc. conv_backward_at layer input ?G c i h w oc))))
           (zeros_like ?B, zeros_like ?W, zeros_like input) = Inr (?DB, ?DW, ?DI)"
    by (rule conv_backward_loop [of input b hi wi c layer kh kw ?n c' ?G ?oh ?ow]) (use sh shG in simp_all)
  have dw: "entry ?DW j = entry (conv_grad_weights layer input ?G) j" if jb: "in_bounds (shape ?W) j" for j
  proof -
    obtain oc' ic' y' x' where j: "j = [oc', ic', y', x']" "oc' < ?n" "ic' < c'" "y' < kh" "x' < kw"
      using jb sh by (auto elim!: in_bounds.elims)
    show ?thesis
      using conv_weights_fold_entry [of oc' ?n ic' c' y' kh x' kw c input ?G b ?oh ?ow] j sh shG
      by (simp add: conv_grad_weights_def)
  qed
  have db: "entry ?DB j = entry (conv_grad_bias layer ?G) j" if jb: "in_bounds [?n] j" for j
  proof -
    obtain oc' where j: "j = [oc']" "oc' < ?n" using jb by (auto elim!: in_bounds.elims)
    show ?thesis
      using conv_bias_fold_entry [of oc' ?n ?G b ?oh ?ow] j shG by (simp add: conv_grad_bias_def)
  qed
  have di: "?DI = conv_grad_input layer input ?G"
  proof (rule arr_ext)
    fix j assume "in_bounds (shape ?DI) j"
    then obtain i' y' x' ic' where j: "j = [i', y', x', ic']" "i' < b" "y' < hi" "x' < wi" "ic' < c"
      using sh by (auto elim!: in_bounds.elims)
    let ?R = "\<Sum>h<?oh. \<Sum>w<?ow. \<Sum>oc<?n. \<Sum>y<kh. \<Sum>x<kw.
            if h + y = y' \<and> w + x = x' then entry ?W [oc, ic', y, x] * entry ?G [i', h, w, oc] else 0"
    have e1: "entry ?DI [i', y', x', ic'] = ?R"
      unfolding sh(1) by (rule conv_input_fold_entry) (use j sh in simp_all)
    have e2: "entry (conv_grad_input layer input ?G) [i', y', x', ic'] = ?R"
      using j sh shG by (simp add: conv_grad_input_def cong: if_cong)
    show "entry ?DI j = entry (conv_grad_input layer input ?G) j"
      by (simp only: j(1) e1 e2)
  qed (use sh in \<open>simp_all add: conv_grad_input_def\<close>)
  have uw: "amap2 (\<lambda>wt d. wt - lr * d) ?W ?DW
      = Inr (tabulate (shape ?W) (\<lambda>j. entry ?W j - lr * entry (conv_grad_weights layer input ?G) j))"
  proof -
    have "amap2 (\<lambda>wt d. wt - lr * d) ?W ?DW = Inr (tabulate (shape ?W) (\<lambda>j. entry ?W j - lr * entry ?DW j))"
      using sh by (simp del: all_indices.simps add: amap2_same_shape)
    also have "tabulate (shape ?W) (\<lambda>j. entry ?W j - lr * entry ?DW j)
        = tabulate (shape ?W) (\<lambda>j. entry ?W j - lr * entry (conv_grad_weights layer input ?G) j)"
      by (rule tabulate_cong) (simp only: dw)
    finally show ?thesis .
  qed
  have ub: "amap2 (\<lambda>b d. b - lr * d) ?B ?DB
      = Inr (tabulate [?n] (\<lambda>j. entry ?B j - lr * entry (conv_grad_bias layer ?G) j))"
  proof -
    have "amap2 (\<lambda>b d. b - lr * d) ?B ?DB = Inr (tabulate [?n] (\<lambda>j. entry ?B j - lr * entry ?DB j))"
      using sh by (simp del: all_indices.simps add: amap2_same_shape)
    also have "tabulate [?n] (\<lambda>j. entry ?B j - lr * entry ?DB j)
        = tabulate [?n] (\<lambda>j. entry ?B j - lr * entry (conv_grad_bias layer ?G) j)"
      by (rule tabulate_cong) (simp only: db)
    finally show ?thesis .
  qed
  show ?thesis
    using assms(2,3) sh shG G loop uw ub di by (simp del: all_indices.simps add: conv_backward_def shape4_def)
qed


text \<open>C2: after a forward call with fitting shapes and an upstream gradient of the output's
  shape, \<^verbatim>\<open>Conv2d.backward\<close> masks the gradient by the ReLU mask, returns the transposed
  convolution of the masked gradient with the old weights, and updates
  \<open>W := W - lr * dW\<close>, \<open>b := b - lr * db\<close> with the raw (not batch-averaged) sums
  \<open>dW[oc,ic,y,x] = \<Sum>i,h,w. in[i,h+y,w+x,ic] * G[i,h,w,oc]\<close> and
  \<open>db[oc] = \<Sum>i,h,w. G[i,h,w,oc]\<close>.\<close>

theorem conv_backward_correct:
  assumes "conv_backward_ok layer g" "conv_input layer = Some input" "relu_mask layer = Some rmask"
  shows "conv_backward layer g lr
       = Inr (layer\<lparr>conv_weights := tabulate (shape (conv_weights layer)) (\<lambda>j.
                  entry (conv_weights layer) j - lr * entry (conv_grad_weights layer input (conv_grad_out rmask g)) j),
                conv_biases := tabulate [conv_out_channels layer] (\<lambda>j.
                  entry (conv_biases layer) j - lr * entry (conv_grad_bias layer (conv_grad_out rmask g)) j)\<rparr>,
              conv_grad_input layer input (conv_grad_out rmask g))"
  using assms by (rule conv_backward_eq)

lemma conv_grad_out_zeros: "shape rmask = ds \<Longrightarrow> wf_arr rmask \<Longrightarrow> conv_grad_out rmask (zeros ds) = zeros ds"
  by (rule arr_ext) (simp_all add: conv_grad_out_def)

lemma conv_backward_zero_grad_eq:
  assumes "conv_backward_ok layer (zeros ds)" "conv_input layer = Some input"
  shows "conv_backward layer (zeros ds) lr = Inr (layer, zeros (shape input))"
proof -
  obtain rmask where rm: "relu_mask layer = Some rmask"
    using assms by (auto simp: conv_backward_ok_def split: option.splits)
  have ok: "conv_shapes_ok layer input" "wf_arr rmask" "shape rmask = shape (conv_preact layer input)" "ds = shape rmask"
    using assms rm by (simp_all add: conv_backward_ok_def)
  obtain b hi wi c kh kw c' where sh: "shape input = [b, hi, wi, c]" "kernel_size layer = (kh, kw)"
    "shape (conv_weights layer) = [conv_out_channels layer, c', kh, kw]" "c \<le> c'"
    "shape (conv_biases layer) = [conv_out_channels layer]" "kh \<le> hi + 1" "kw \<le> wi + 1"
    "wf_arr input" "wf_arr (conv_weights layer)" "wf_arr (conv_biases layer)"
    using ok(1) by (rule conv_shapes_okE)
  have ds: "ds = [b, hi + 1 - kh, wi + 1 - kw, conv_out_channels layer]"
    using ok(3,4) sh by (simp add: conv_preact_def)
  have G: "conv_grad_out rmask (zeros ds) = zeros ds"
    using ok by (simp add: conv_grad_out_zeros)
  have W0: "conv_grad_weights layer input (zeros ds) = zeros (shape (conv_weights layer))"
    using sh ds by (intro arr_ext) (auto simp: conv_grad_weights_def elim!: in_bounds.elims intro!: sum_lessThan_zero)
  have B0: "conv_grad_bias layer (zeros ds) = zeros [conv_out_channels layer]"
    using sh ds by (intro arr_ext) (auto simp: conv_grad_bias_def elim!: in_bounds.elims intro!: sum_lessThan_zero)
  have I: "conv_grad_input layer input (zeros ds) = zeros (shape input)"
    using sh ds by (intro arr_ext) (auto simp: conv_grad_input_def elim!: in_bounds.elims intro!: sum_lessThan_zero)
  have W: "tabulate (shape (conv_weights layer)) (\<lambda>j. entry (conv_weights layer) j
             - lr * entry (zeros (shape (conv_weights layer))) j) = conv_weights layer"
    by (rule arr_ext) (use sh in simp_all)
  have B: "tabulate [conv_out_channels layer] (\<lambda>j. entry (conv_biases layer) j
             - lr * entry (zeros [conv_out_channels layer]) j) = conv_biases layer"
    by (rule arr_ext) (use sh in simp_all)
  show ?thesis
    using conv_backward_eq [OF assms(1,2) rm, of lr] G W0 B0 W B I by simp
qed

lemma conv_forward_backward_ok:
  assumes "conv_shapes_ok layer input" "conv_forward layer input = Inr (L, out)"
    and "wf_arr g" "shape g = shape out"
  shows "conv_backward_ok L g"
  using assms conv_forward_eq [OF assms(1)]
  by (auto simp: conv_backward_ok_def conv_shapes_ok_def conv_preact_def split: list.splits prod.splits)

theorem conv_backward_correct_witness:
  "conv_backward_ok demo_conv_after_forward demo_grad
   \<and> conv_input demo_conv_after_forward = Some \<lparr>shape = [1, 2, 2, 1], data = [1, -2, 3, 4]\<rparr>
   \<and> relu_mask demo_conv_after_forward = Some \<lparr>shape = [1, 2, 2, 1], data = [True, False, True, True]\<rparr>
   \<and> conv_backward demo_conv_after_forward demo_grad 1
     = Inr (demo_conv_after_forward\<lparr>conv_weights := tabulate (shape (conv_weights demo_conv_after_forward)) (\<lambda>j.
                  entry (conv_weights demo_conv_after_forward) j - 1 * entry (conv_grad_weights demo_conv_after_forward
                    \<lparr>shape = [1, 2, 2, 1], data = [1, -2, 3, 4]\<rparr>
                    (conv_grad_out \<lparr>shape = [1, 2, 2, 1], data = [True, False, True, True]\<rparr> demo_grad)) j),
                conv_biases := tabulate [conv_out_channels demo_conv_after_forward] (\<lambda>j.
                  entry (conv_biases demo_conv_after_forward) j - 1 * entry (conv_grad_bias demo_conv_after_forward
                    (conv_grad_out \<lparr>shape = [1, 2, 2, 1], data = [True, False, True, True]\<rparr> demo_grad)) j)\<rparr>,
              conv_grad_input demo_conv_after_forward \<lparr>shape = [1, 2, 2, 1], data = [1, -2, 3, 4]\<rparr>
                (conv_grad_out \<lparr>shape = [1, 2, 2, 1], data = [True, False, True, True]\<rparr> demo_grad))"
proof -
  have h1: "conv_backward_ok demo_conv_after_forward demo_grad"
    by (simp add: conv_backward_ok_def demo_conv_after_forward_def demo_grad_def conv_shapes_ok_def
        conv2d_new_def conv_preact_def)
  have h2: "conv_input demo_conv_after_forward = Some \<lparr>shape = [1, 2, 2, 1], data = [1, -2, 3, 4 :: real]\<rparr>"
    by (simp add: demo_conv_after_forward_def)
  have h3: "relu_mask demo_conv_after_forward = Some \<lparr>shape = [1, 2, 2, 1], data = [True, False, True, True]\<rparr>"
    by (simp add: demo_conv_after_forward_def)
  show ?thesis using h1 h2 h3 conv_backward_correct [OF h1 h2 h3, of 1] by blast
qed

text \<open>C4: the spec's zero-gradient test: with an all-zero upstream gradient
  \<^verbatim>\<open>Conv2d.backward\<close> leaves the weights and biases unchanged and returns an all-zero
  input gradient.\<close>

theorem conv_backward_zero_grad:
  assumes "conv_backward_ok layer (zeros ds)" "conv_input layer = Some input"
  shows "conv_backward layer (zeros ds) lr = Inr (layer, zeros (shape input))"
  using assms by (rule conv_backward_zero_grad_eq)

theorem conv_backward_zero_grad_witness:
  "conv_backward_ok demo_conv_after_forward (zeros [1, 2, 2, 1])
   \<and> conv_input demo_conv_after_forward = Some \<lparr>shape = [1, 2, 2, 1], data = [1, -2, 3, 4]\<rparr>
   \<and> conv_backward demo_conv_after_forward (zeros [1, 2, 2, 1]) 1
     = Inr (demo_conv_after_forward, zeros (shape \<lparr>shape = [1, 2, 2, 1], data = [1, -2, 3, 4 :: real]\<rparr>))"
proof -
  have h1: "conv_backward_ok demo_conv_after_forward (zeros [1, 2, 2, 1])"
    by (simp add: conv_backward_ok_def demo_conv_after_forward_def conv_shapes_ok_def conv2d_new_def conv_preact_def)
  have h2: "conv_input demo_conv_after_forward = Some \<lparr>shape = [1, 2, 2, 1], data = [1, -2, 3, 4 :: real]\<rparr>"
    by (simp add: demo_conv_after_forward_def)
  show ?thesis using h1 h2 conv_backward_zero_grad [OF h1 h2, of 1] by blast
qed

text \<open>Calling \<^verbatim>\<open>backward\<close> on a layer that has not run \<^verbatim>\<open>forward\<close> reads
  \<^verbatim>\<open>None.shape\<close> and raises \<open>AttributeError\<close>.\<close>

theorem conv_backward_before_forward:
  assumes "conv_input layer = None"
  shows "conv_backward layer g lr = Inl AttributeError"
  using assms by (simp add: conv_backward_def)

theorem conv_backward_before_forward_witness:
  "conv_input (conv2d_new 1 1 (3, 3) identity_kernel) = None
   \<and> conv_backward (conv2d_new 1 1 (3, 3) identity_kernel) demo_grad 1 = Inl AttributeError"
  using conv_backward_before_forward [of "conv2d_new 1 1 (3, 3) identity_kernel" demo_grad 1]
  by (simp add: conv2d_new_def)

text \<open>C3: the forward/backward protocol: after a forward call with fitting shapes, a
  backward call with an upstream gradient of the output's shape cannot raise.\<close>

theorem conv_forward_then_backward_succeeds:
  assumes "conv_shapes_ok layer input" "conv_forward layer input = Inr (L, out)"
    and "wf_arr g" "shape g = shape out"
  shows "\<exists>L' din. conv_backward L g lr = Inr (L', din)"
proof -
  have ok: "conv_backward_ok L g" using assms by (rule conv_forward_backward_ok)
  then obtain input' rmask where "conv_input L = Some input'" "relu_mask L = Some rmask"
    by (auto simp: conv_backward_ok_def split: option.splits)
  with ok show ?thesis using conv_backward_eq by blast
qed

theorem conv_forward_then_backward_succeeds_witness:
  "conv_shapes_ok (conv2d_new 1 1 (3, 3) identity_kernel) \<lparr>shape = [1, 3, 3, 1], data = [1, 2, 3, 4, -5, 6, 7, 8, 9]\<rparr>
   \<and> (\<exists>L out. conv_forward (conv2d_new 1 1 (3, 3) identity_kernel) \<lparr>shape = [1, 3, 3, 1], data = [1, 2, 3, 4, -5, 6, 7, 8, 9]\<rparr>
          = Inr (L, out) \<and> wf_arr \<lparr>shape = [1, 1, 1, 1], data = [1 :: real]\<rparr>
          \<and> shape \<lparr>shape = [1, 1, 1, 1], data = [1 :: real]\<rparr> = shape out
          \<and> (\<exists>L' din. conv_backward L \<lparr>shape = [1, 1, 1, 1], data = [1]\<rparr> 1 = Inr (L', din)))"
proof -
  let ?L = "conv2d_new 1 1 (3, 3) identity_kernel"
  let ?x = "\<lparr>shape = [1, 3, 3, 1], data = [1, 2, 3, 4, -5, 6, 7, 8, 9 :: real]\<rparr>"
  let ?g = "\<lparr>shape = [1, 1, 1, 1], data = [1 :: real]\<rparr>"
  have h1: "conv_shapes_ok ?L ?x"
    by (simp add: conv_shapes_ok_def conv2d_new_def identity_kernel_def)
  obtain L out where h2: "conv_forward ?L ?x = Inr (L, out)"
    using conv_forward_eq [OF h1] by blast
  have "shape out = [1, 1, 1, 1]"
    using h2 conv_forward_eq [OF h1] by (simp add: conv_preact_def conv2d_new_def)
  then have h4: "shape ?g = shape out" by simp
  have h3: "wf_arr ?g" by simp
  show ?thesis using h1 h2 h3 h4 conv_forward_then_backward_succeeds [OF h1 h2 h3 h4, of 1] by blast
qed

end
