(* ===== verification/MaxPool.thy ===== *)
theory MaxPool
  imports NDArray
begin

text \<open>
  The class \<^verbatim>\<open>MaxPooling2D\<close> of \<^verbatim>\<open>src/main.py\<close> (lines 197--252). Its only state
  is the transient \<^verbatim>\<open>self.input\<close>. The numpy slice
  \<^verbatim>\<open>input[i, 2h:2h+2, 2w:2w+2, c]\<close> is \<open>pool_region\<close>: the integer indices must be in
  range, the slices are clipped at the edge of the array, so a window may have fewer
  than four elements or none. \<^verbatim>\<open>np.max\<close> and \<^verbatim>\<open>np.argmax\<close> (the first position
  of the maximum in row-major order) raise \<open>ValueError\<close> on an empty window, and
  \<^verbatim>\<open>np.unravel_index\<close> turns the flat position into row and column.
\<close>

record maxpool =
  pool_input :: "real ndarray option"

definition maxpool_new :: maxpool where
  "maxpool_new = \<lparr>pool_input = None\<rparr>"

fun list_max :: "real list \<Rightarrow> real" where
  "list_max [] = 0"
| "list_max (x # xs) = fold max xs x"

fun first_index :: "real \<Rightarrow> real list \<Rightarrow> nat" where
  "first_index m [] = 0"
| "first_index m (x # xs) = (if x = m then 0 else Suc (first_index m xs))"

definition np_max :: "real list \<Rightarrow> real result" where
  "np_max xs = (if xs = [] then Inl ValueError else Inr (list_max xs))"

definition np_argmax :: "real list \<Rightarrow> nat result" where
  "np_argmax xs = (if xs = [] then Inl ValueError else Inr (first_index (list_max xs) xs))"

definition unravel_index :: "nat \<Rightarrow> nat \<times> nat \<Rightarrow> nat \<times> nat" where
  "unravel_index k dims = (k div snd dims, k mod snd dims)"

definition pool_region :: "real ndarray \<Rightarrow> nat \<Rightarrow> nat \<Rightarrow> nat \<Rightarrow> nat \<Rightarrow> ((nat \<times> nat) \<times> real list) result" where
  "pool_region a i r c l =
     (case shape a of
        [b, hh, ww, ch] \<Rightarrow>
          if i < b \<and> l < ch then
            (let rows = [r..<min (r + 2) hh]; cols = [c..<min (c + 2) ww] in
             Inr ((length rows, length cols), concat (map (\<lambda>y. map (\<lambda>x. entry a [i, y, x, l]) cols) rows)))
          else Inl IndexError
      | _ \<Rightarrow> Inl IndexError)"

definition pool_forward :: "maxpool \<Rightarrow> real ndarray \<Rightarrow> (maxpool \<times> real ndarray) result" where
  "pool_forward layer0 input =
     (let layer = layer0\<lparr>pool_input := Some input\<rparr> in
      ebind (shape4 input) (\<lambda>(batch_size, height, width, channels).
      let output_height = height div 2; output_width = width div 2 in
      ebind (for_each [0..<batch_size] (\<lambda>i. for_each [0..<output_height] (\<lambda>j.
               for_each [0..<output_width] (\<lambda>k. for_each [0..<channels] (\<lambda>l output.
                 ebind (pool_region input i (j * 2) (k * 2) l) (\<lambda>(dims, region).
                 ebind (np_max region) (\<lambda>m.
                 upd output [i, j, k, l] m))))))
               (zeros [batch_size, output_height, output_width, channels]))
        (\<lambda>output. Inr (layer, output))))"

definition pool_backward :: "maxpool \<Rightarrow> real ndarray \<Rightarrow> real \<Rightarrow> (maxpool \<times> real ndarray) result" where
  "pool_backward layer dL_dout learning_rate =
     (case pool_input layer of None \<Rightarrow> Inl AttributeError | Some input \<Rightarrow>
      ebind (shape4 input) (\<lambda>(batch_size, input_height, input_width, input_channels).
      ebind (dim dL_dout 1) (\<lambda>out_h. ebind (dim dL_dout 2) (\<lambda>out_w. ebind (dim dL_dout 3) (\<lambda>out_c.
      ebind (for_each [0..<batch_size] (\<lambda>i. for_each [0..<out_h] (\<lambda>h.
               for_each [0..<out_w] (\<lambda>w. for_each [0..<out_c] (\<lambda>oc dL_din.
                 ebind (pool_region input i (h * 2) (w * 2) oc) (\<lambda>(dims, region).
                 ebind (np_argmax region) (\<lambda>k.
                 let max_index = unravel_index k dims in
                 ebind (get dL_dout [i, h, w, oc]) (\<lambda>g.
                 add_at dL_din [i, h * 2 + fst max_index, w * 2 + snd max_index, oc] g)))))))
               (zeros_like input))
        (\<lambda>dL_din. Inr (layer, dL_din)))))))"

subsection \<open>Closed forms\<close>

text \<open>The four entries of the window of output position \<open>(j, k)\<close>, row-major, and the
  offset \<open>(dy, dx)\<close> of the first maximum among them.\<close>

definition window :: "real ndarray \<Rightarrow> nat \<Rightarrow> nat \<Rightarrow> nat \<Rightarrow> nat \<Rightarrow> real list" where
  "window a i j k l =
     [entry a [i, 2 * j, 2 * k, l], entry a [i, 2 * j, 2 * k + 1, l],
      entry a [i, 2 * j + 1, 2 * k, l], entry a [i, 2 * j + 1, 2 * k + 1, l]]"

definition window_argmax :: "real ndarray \<Rightarrow> nat \<Rightarrow> nat \<Rightarrow> nat \<Rightarrow> nat \<Rightarrow> nat \<times> nat" where
  "window_argmax a i j k l = unravel_index (first_index (list_max (window a i j k l)) (window a i j k l)) (2, 2)"

definition pool_spec :: "real ndarray \<Rightarrow> real ndarray" where
  "pool_spec a =
     (case shape a of [b, hh, ww, ch] \<Rightarrow>
        tabulate [b, hh div 2, ww div 2, ch] (\<lambda>idx. list_max (window a (idx ! 0) (idx ! 1) (idx ! 2) (idx ! 3)))
      | _ \<Rightarrow> zeros [])"

text \<open>The input position that receives the upstream gradient of output position \<open>idx\<close>.\<close>

definition pool_route :: "real ndarray \<Rightarrow> nat list \<Rightarrow> nat list" where
  "pool_route a idx =
     (let p = window_argmax a (idx ! 0) (idx ! 1) (idx ! 2) (idx ! 3) in
      [idx ! 0, idx ! 1 * 2 + fst p, idx ! 2 * 2 + snd p, idx ! 3])"

text \<open>The gradient routed back: each input position receives the upstream gradient of
  its window when it is the window's first maximum, and 0 otherwise (in particular in
  a trailing odd row or column).\<close>

definition pool_grad_spec :: "real ndarray \<Rightarrow> real ndarray \<Rightarrow> real ndarray" where
  "pool_grad_spec a g =
     (case shape a of [b, hh, ww, ch] \<Rightarrow>
        tabulate [b, hh, ww, ch] (\<lambda>idx.
          let i = idx ! 0; y = idx ! 1; x = idx ! 2; l = idx ! 3 in
          if y div 2 < hh div 2 \<and> x div 2 < ww div 2 \<and>
             window_argmax a i (y div 2) (x div 2) l = (y mod 2, x mod 2)
          then entry g [i, y div 2, x div 2, l] else 0)
      | _ \<Rightarrow> zeros [])"

subsection \<open>Maximum and first position of the maximum\<close>

lemma window_ne [simp]: "window a i j k l \<noteq> []"
  by (simp add: window_def)

lemma list_max_Max: "xs \<noteq> [] \<Longrightarrow> list_max xs = Max (set xs)"
  by (cases xs) (simp, simp only: list_max.simps Max.set_eq_fold [symmetric])

lemma list_max_in: "xs \<noteq> [] \<Longrightarrow> list_max xs \<in> set xs"
  by (simp add: list_max_Max)

lemma first_index_lt: "m \<in> set xs \<Longrightarrow> first_index m xs < length xs"
  by (induction xs) auto

lemma nth_first_index: "m \<in> set xs \<Longrightarrow> xs ! first_index m xs = m"
  by (induction xs) auto

lemma before_first_index: "n < first_index m xs \<Longrightarrow> xs ! n \<noteq> m"
  by (induction xs arbitrary: n) (auto simp: nth_Cons split: nat.split if_splits)

lemma window_nth: "n < 4 \<Longrightarrow> window a i j k l ! n = entry a [i, 2 * j + n div 2, 2 * k + n mod 2, l]"
proof -
  assume "n < 4"
  then have "n = 0 \<or> n = 1 \<or> n = 2 \<or> n = 3" by arith
  then show ?thesis by (elim disjE) (simp_all add: window_def)
qed

text \<open>\<open>window_argmax\<close> is the first position of the maximum in row-major order.\<close>

lemma window_argmax_first_max:
  assumes "window_argmax a i j k l = (dy, dx)"
  shows "dy < 2" "dx < 2" "entry a [i, 2 * j + dy, 2 * k + dx, l] = Max (set (window a i j k l))"
    and "\<And>dy' dx'. dy' < 2 \<Longrightarrow> dx' < 2 \<Longrightarrow> 2 * dy' + dx' < 2 * dy + dx \<Longrightarrow>
          entry a [i, 2 * j + dy', 2 * k + dx', l] < Max (set (window a i j k l))"
proof -
  let ?w = "window a i j k l"
  let ?n = "first_index (list_max ?w) ?w"
  have mem: "list_max ?w \<in> set ?w" using list_max_in [OF window_ne] .
  have n: "?n < 4" using first_index_lt [OF mem] by (simp add: window_def)
  have p: "dy = ?n div 2" "dx = ?n mod 2"
    using assms by (simp_all add: window_argmax_def unravel_index_def)
  show "dy < 2" "dx < 2" using n p by simp_all
  have "?n = 2 * dy + dx" using p by simp
  then show "entry a [i, 2 * j + dy, 2 * k + dx, l] = Max (set ?w)"
    using nth_first_index [OF mem] window_nth [OF n] p by (simp add: list_max_Max)
  fix dy' dx' :: nat assume d: "dy' < 2" "dx' < 2" "2 * dy' + dx' < 2 * dy + dx"
  let ?m = "2 * dy' + dx'"
  have lt: "?m < ?n" using d p by simp
  have eq: "?w ! ?m = entry a [i, 2 * j + dy', 2 * k + dx', l]"
    using window_nth [of ?m] d by simp
  have "?w ! ?m \<noteq> Max (set ?w)"
    using before_first_index [OF lt] by (simp add: list_max_Max)
  moreover have "?m < length ?w" using lt n by (simp add: window_def)
  then have "?w ! ?m \<le> Max (set ?w)" by (simp add: Max_ge)
  ultimately show "entry a [i, 2 * j + dy', 2 * k + dx', l] < Max (set ?w)"
    using eq by simp
qed

lemma window_argmax_lt: "fst (window_argmax a i j k l) < 2 \<and> snd (window_argmax a i j k l) < 2"
  using window_argmax_first_max(1,2) [of a i j k l] by (cases "window_argmax a i j k l") simp

text \<open>The first maximum is the only position that is a maximum with no maximum before it.\<close>

lemma first_max_unique:
  assumes "dy < 2" "dx < 2"
  shows "window_argmax a i j k l = (dy, dx) \<longleftrightarrow>
         entry a [i, 2 * j + dy, 2 * k + dx, l] = Max (set (window a i j k l)) \<and>
         (\<forall>dy' dx'. dy' < 2 \<longrightarrow> dx' < 2 \<longrightarrow> 2 * dy' + dx' < 2 * dy + dx \<longrightarrow>
            entry a [i, 2 * j + dy', 2 * k + dx', l] < Max (set (window a i j k l)))"
    (is "?l \<longleftrightarrow> ?r")
proof
  assume ?l then show ?r using window_argmax_first_max [of a i j k l dy dx] by blast
next
  assume r: ?r
  obtain ay ax where p: "window_argmax a i j k l = (ay, ax)" by fastforce
  note first = window_argmax_first_max [OF p]
  have "\<not> 2 * dy + dx < 2 * ay + ax" using first(4) [of dy dx] assms r by auto
  moreover have "\<not> 2 * ay + ax < 2 * dy + dx" using first(1-3) r by fastforce
  ultimately have "2 * dy + dx = 2 * ay + ax" by arith
  then have "dy = ay \<and> dx = ax" using assms first(1,2) by arith
  then show ?l using p by simp
qed

subsection \<open>Forward pass\<close>

lemma upt_pair: "n + 2 \<le> m \<Longrightarrow> [n..<min (n + 2) m] = [n, Suc n]" for n m :: nat
  by (simp add: min_absorb1 upt_rec)

text \<open>Inside the output range the slice is a full 2x2 window.\<close>

lemma pool_region_full:
  assumes "shape a = [b, hh, ww, ch]" "i < b" "l < ch" "j < hh div 2" "k < ww div 2"
  shows "pool_region a i (j * 2) (k * 2) l = Inr ((2, 2), window a i j k l)"
proof -
  have "j * 2 + 2 \<le> hh" "k * 2 + 2 \<le> ww" using assms(4,5) by linarith+
  then show ?thesis using assms(1-3)
    by (simp add: pool_region_def window_def upt_pair mult.commute)
qed

lemma pool_forward_eq:
  assumes sh: "shape input = [b, hh, ww, ch]"
  shows "pool_forward layer input = Inr (layer\<lparr>pool_input := Some input\<rparr>, pool_spec input)"
proof -
  let ?ds = "[b, hh div 2, ww div 2, ch]"
  let ?v = "\<lambda>idx. list_max (window input (idx ! 0) (idx ! 1) (idx ! 2) (idx ! 3))"
  have body: "ebind (pool_region input (idx ! 0) (idx ! 1 * 2) (idx ! 2 * 2) (idx ! 3)) (\<lambda>(dims, region).
         ebind (np_max region) (\<lambda>m. upd acc [idx ! 0, idx ! 1, idx ! 2, idx ! 3] m))
        = upd acc idx (?v idx)"
    if "idx \<in> set (all_indices ?ds)" for idx acc
  proof -
    from that obtain i j k l where idx: "idx = [i, j, k, l]" "i < b" "j < hh div 2" "k < ww div 2" "l < ch"
      unfolding in_all_indices4 by blast
    then show ?thesis using pool_region_full [OF sh, of i l j k]
      by (simp add: np_max_def)
  qed
  have loop: "for_each (all_indices ?ds) (\<lambda>idx output.
         ebind (pool_region input (idx ! 0) (idx ! 1 * 2) (idx ! 2 * 2) (idx ! 3)) (\<lambda>(dims, region).
         ebind (np_max region) (\<lambda>m. upd output [idx ! 0, idx ! 1, idx ! 2, idx ! 3] m))) (zeros ?ds)
       = Inr (tabulate ?ds ?v)"
    by (subst for_each_cong [OF refl body]) (simp_all only: for_each_fill)
  show ?thesis
    using sh loop by (simp add: pool_forward_def shape4_def pool_spec_def for_each_nest4)
qed

subsection \<open>Backward pass\<close>

lemma pool_route_in:
  assumes "shape a = [b, hh, ww, ch]" "idx \<in> set (all_indices [b, hh div 2, ww div 2, ch])"
  shows "in_bounds [b, hh, ww, ch] (pool_route a idx)"
proof -
  from assms(2) obtain i j k l where idx: "idx = [i, j, k, l]" "i < b" "j < hh div 2" "k < ww div 2" "l < ch"
    unfolding in_all_indices4 by blast
  then show ?thesis using window_argmax_lt [of a i j k l] by (simp add: pool_route_def Let_def) linarith
qed

text \<open>The loop of \<^verbatim>\<open>backward\<close> is a sequence of in-range \<^verbatim>\<open>+=\<close>, one per output
  position, at the routed position.\<close>

lemma pool_backward_fold:
  assumes inp: "pool_input layer = Some input"
    and sh: "shape input = [b, hh, ww, ch]" and sg: "shape g = [b, hh div 2, ww div 2, ch]"
  shows "pool_backward layer g lr
       = Inr (layer, fold (\<lambda>idx acc. bump acc (pool_route input idx) (entry g idx)) (all_indices (shape g)) (zeros_like input))"
proof -
  let ?ds = "[b, hh div 2, ww div 2, ch]"
  have body: "ebind (pool_region input (idx ! 0) (idx ! 1 * 2) (idx ! 2 * 2) (idx ! 3)) (\<lambda>(dims, region).
         ebind (np_argmax region) (\<lambda>k. let max_index = unravel_index k dims in
         ebind (get g [idx ! 0, idx ! 1, idx ! 2, idx ! 3]) (\<lambda>gv.
         add_at acc [idx ! 0, idx ! 1 * 2 + fst max_index, idx ! 2 * 2 + snd max_index, idx ! 3] gv)))
       = add_at acc (pool_route input idx) (entry g idx)"
    if "idx \<in> set (all_indices ?ds)" for idx acc
  proof -
    from that obtain i j k l where idx: "idx = [i, j, k, l]" "i < b" "j < hh div 2" "k < ww div 2" "l < ch"
      unfolding in_all_indices4 by blast
    then show ?thesis using pool_region_full [OF sh, of i l j k] sg
      by (simp add: np_argmax_def window_argmax_def pool_route_def Let_def)
  qed
  have loop: "for_each (all_indices ?ds) (\<lambda>idx acc. add_at acc (pool_route input idx) (entry g idx)) (zeros_like input)
      = Inr (fold (\<lambda>idx acc. bump acc (pool_route input idx) (entry g idx)) (all_indices ?ds) (zeros_like input))"
    by (rule for_each_add_at) (simp only: zeros_like_def shape_zeros sh pool_route_in)
  have nest: "for_each [0..<b] (\<lambda>i. for_each [0..<hh div 2] (\<lambda>h.
               for_each [0..<ww div 2] (\<lambda>w. for_each [0..<ch] (\<lambda>oc dL_din.
                 ebind (pool_region input i (h * 2) (w * 2) oc) (\<lambda>(dims, region).
                 ebind (np_argmax region) (\<lambda>k.
                 let max_index = unravel_index k dims in
                 ebind (get g [i, h, w, oc]) (\<lambda>gv.
                 add_at dL_din [i, h * 2 + fst max_index, w * 2 + snd max_index, oc] gv)))))))
               (zeros_like input)
      = Inr (fold (\<lambda>idx acc. bump acc (pool_route input idx) (entry g idx)) (all_indices ?ds) (zeros_like input))"
    unfolding for_each_nest4 by (subst for_each_cong [OF refl body]) (simp_all only: loop)
  show ?thesis
    using inp sh sg nest by (simp add: pool_backward_def shape4_def dim_def)
qed

lemma double_plus_eq: "d < 2 \<Longrightarrow> (h * 2 + d = y) \<longleftrightarrow> h = y div 2 \<and> d = y mod 2" for d h y :: nat
  by auto

text \<open>Summing the routed contributions at one input position: only the window
  containing it can contribute, and only when it is that window's first maximum.\<close>

lemma route_sum:
  fixes b H W C :: nat and d :: "nat \<Rightarrow> nat \<Rightarrow> nat \<Rightarrow> nat \<Rightarrow> nat \<times> nat"
  assumes "\<And>i h w oc. fst (d i h w oc) < 2 \<and> snd (d i h w oc) < 2"
  shows "(\<Sum>i<b. \<Sum>h<H. \<Sum>w<W. \<Sum>oc<C.
            if [i, h * 2 + fst (d i h w oc), w * 2 + snd (d i h w oc), oc] = [i', y, x, l] then g i h w oc else 0)
       = (if i' < b \<and> y div 2 < H \<and> x div 2 < W \<and> l < C \<and> d i' (y div 2) (x div 2) l = (y mod 2, x mod 2)
          then g i' (y div 2) (x div 2) l else (0::real))"
proof -
  have "\<And>i h w oc. (if [i, h * 2 + fst (d i h w oc), w * 2 + snd (d i h w oc), oc] = [i', y, x, l] then g i h w oc else 0)
      = (if [i, h, w, oc] = [i', y div 2, x div 2, l]
         then (if d i h w oc = (y mod 2, x mod 2) then g i h w oc else 0) else (0::real))"
    using assms by (auto simp: double_plus_eq prod_eq_iff)
  then show ?thesis by (simp only: sum4_delta) auto
qed

lemma pool_route_fold_eq:
  assumes sh: "shape input = [b, hh, ww, ch]" and sg: "shape g = [b, hh div 2, ww div 2, ch]"
  shows "fold (\<lambda>idx acc. bump acc (pool_route input idx) (entry g idx)) (all_indices (shape g)) (zeros_like input)
       = pool_grad_spec input g" (is "?F = _")
proof (rule arr_ext)
  let ?ds = "[b, hh div 2, ww div 2, ch]"
  fix j assume j: "in_bounds (shape ?F) j"
  have "in_bounds [b, hh, ww, ch] j" using j by (simp add: zeros_like_def sh)
  then obtain i' y x l where jj: "j = [i', y, x, l]" "i' < b" "y < hh" "x < ww" "l < ch"
    using in_all_indices4 [of j b hh ww ch] unfolding set_all_indices mem_Collect_eq by blast
  have "entry ?F j = sum_list (map (\<lambda>idx. if pool_route input idx = j then entry g idx else 0) (all_indices ?ds))"
    using entry_fold_bump [of "zeros_like input" "all_indices ?ds" "pool_route input" j "entry g"] j
      pool_route_in [OF sh] by (simp add: zeros_like_def sh sg)
  also have "\<dots> = (\<Sum>i<b. \<Sum>h<hh div 2. \<Sum>w<ww div 2. \<Sum>oc<ch.
          if [i, h * 2 + fst (window_argmax input i h w oc), w * 2 + snd (window_argmax input i h w oc), oc] = [i', y, x, l]
          then entry g [i, h, w, oc] else 0)"
    unfolding jj(1) by (simp only: sum_list_all_indices4) (simp add: pool_route_def Let_def cong: if_cong)
  also have "\<dots> = entry (pool_grad_spec input g) j"
    unfolding route_sum [where d = "window_argmax input", OF window_argmax_lt]
    using jj by (simp add: pool_grad_spec_def sh Let_def)
  finally show "entry ?F j = entry (pool_grad_spec input g) j" .
qed (simp_all add: zeros_like_def sh sg pool_grad_spec_def)

lemma pool_backward_eq:
  assumes "pool_input layer = Some input"
    and sh: "shape input = [b, hh, ww, ch]" and sg: "shape g = [b, hh div 2, ww div 2, ch]"
  shows "pool_backward layer g lr = Inr (layer, pool_grad_spec input g)"
  using pool_backward_fold [OF assms] pool_route_fold_eq [OF sh sg] by simp

lemma entry_pool_grad_spec:
  assumes "shape input = [b, hh, ww, ch]" "i < b" "y < hh" "x < ww" "l < ch"
  shows "entry (pool_grad_spec input g) [i, y, x, l]
       = (if y div 2 < hh div 2 \<and> x div 2 < ww div 2 \<and> window_argmax input i (y div 2) (x div 2) l = (y mod 2, x mod 2)
          then entry g [i, y div 2, x div 2, l] else 0)"
  using assms by (simp add: pool_grad_spec_def)

subsection \<open>Properties of \<^verbatim>\<open>MaxPooling2D\<close>\<close>

text \<open>C9: when the input is four-dimensional, \<^verbatim>\<open>MaxPooling2D.forward\<close> stores it and
  returns the array of shape \<open>(B, H div 2, W div 2, C)\<close> whose entry at \<open>(i, j, k, l)\<close>
  is the maximum of the 2x2 window \<open>input[i, 2j:2j+2, 2k:2k+2, l]\<close>; a trailing odd
  row or column is dropped.\<close>

theorem pool_forward_correct:
  assumes "shape input = [b, hh, ww, ch]"
  shows "\<exists>out. pool_forward layer input = Inr (layer\<lparr>pool_input := Some input\<rparr>, out)
           \<and> wf_arr out \<and> shape out = [b, hh div 2, ww div 2, ch]
           \<and> (\<forall>i j k l. i < b \<longrightarrow> j < hh div 2 \<longrightarrow> k < ww div 2 \<longrightarrow> l < ch \<longrightarrow>
                entry out [i, j, k, l] = Max {entry input [i, 2 * j, 2 * k, l], entry input [i, 2 * j, 2 * k + 1, l],
                                              entry input [i, 2 * j + 1, 2 * k, l], entry input [i, 2 * j + 1, 2 * k + 1, l]})"
proof (intro exI conjI allI impI)
  show "pool_forward layer input = Inr (layer\<lparr>pool_input := Some input\<rparr>, pool_spec input)"
    using assms by (rule pool_forward_eq)
  show "wf_arr (pool_spec input)" "shape (pool_spec input) = [b, hh div 2, ww div 2, ch]"
    using assms by (simp_all add: pool_spec_def)
  fix i j k l assume "i < b" "j < hh div 2" "k < ww div 2" "l < ch"
  then show "entry (pool_spec input) [i, j, k, l] = Max {entry input [i, 2 * j, 2 * k, l], entry input [i, 2 * j, 2 * k + 1, l],
                                              entry input [i, 2 * j + 1, 2 * k, l], entry input [i, 2 * j + 1, 2 * k + 1, l]}"
    using assms by (simp add: pool_spec_def list_max_Max) (simp add: window_def)
qed

theorem pool_forward_correct_witness:
  "\<exists>out. pool_forward maxpool_new \<lparr>shape = [1, 2, 2, 1], data = [1, 2, 3, 4]\<rparr>
      = Inr (\<lparr>pool_input = Some \<lparr>shape = [1, 2, 2, 1], data = [1, 2, 3, 4]\<rparr>\<rparr>, out) \<and> entry out [0, 0, 0, 0] = 4"
  using pool_forward_correct [of "\<lparr>shape = [1, 2, 2, 1], data = [1, 2, 3, 4 :: real]\<rparr>" 1 2 2 1 maxpool_new]
  by (auto simp: maxpool_new_def entry_def)

text \<open>C8: after a forward call on a four-dimensional input, \<^verbatim>\<open>MaxPooling2D.backward\<close>
  with an upstream gradient of the forward output's shape leaves the layer unchanged,
  ignores the learning rate and returns the gradient that routes each upstream entry
  to the first maximum of its window, zero elsewhere.\<close>

theorem pool_backward_correct:
  assumes "pool_input layer = Some input"
    and "shape input = [b, hh, ww, ch]" "shape g = [b, hh div 2, ww div 2, ch]"
  shows "pool_backward layer g lr = Inr (layer, pool_grad_spec input g)"
  using assms by (rule pool_backward_eq)

theorem pool_backward_correct_witness:
  "pool_backward \<lparr>pool_input = Some \<lparr>shape = [1, 2, 2, 1], data = [3, 1, 2, 3]\<rparr>\<rparr> \<lparr>shape = [1, 1, 1, 1], data = [5]\<rparr> (1 / 100)
     = Inr (\<lparr>pool_input = Some \<lparr>shape = [1, 2, 2, 1], data = [3, 1, 2, 3]\<rparr>\<rparr>, \<lparr>shape = [1, 2, 2, 1], data = [5, 0, 0, 0]\<rparr>)"
proof -
  let ?x = "\<lparr>shape = [1, 2, 2, 1], data = [3, 1, 2, 3 :: real]\<rparr>"
  let ?g = "\<lparr>shape = [1, 1, 1, 1], data = [5 :: real]\<rparr>"
  have ix: "all_indices [1, 2, 2, 1] = [[0, 0, 0, 0], [0, 0, 1, 0], [0, 1, 0, 0], [0, 1, 1, 0]]"
    by (simp add: upt_rec)
  have am: "window_argmax \<lparr>shape = [Suc 0, 2, 2, Suc 0], data = [3, 1, 2, 3 :: real]\<rparr> 0 0 0 0 = (0, 0)"
    by (simp add: window_argmax_def window_def entry_def unravel_index_def)
  have "pool_grad_spec ?x ?g = \<lparr>shape = [1, 2, 2, 1], data = [5, 0, 0, 0]\<rparr>"
    unfolding pool_grad_spec_def tabulate_def ndarray.select_convs list.case ix list.map
    by (simp only: Let_def nth_Cons_0 nth_Cons_numeral nth_Cons_Suc One_nat_def) (simp add: am entry_def)
  then show ?thesis
    using pool_backward_correct [of "\<lparr>pool_input = Some ?x\<rparr>" ?x 1 2 2 1 ?g "1 / 100"] by simp
qed

text \<open>C10: the routing in terms of the input alone: after a forward call, an input
  position inside the pooled area receives the upstream gradient of its window exactly
  when it holds the window's maximum and no earlier position (row-major) of the window
  does; every other position receives 0.\<close>

theorem pool_backward_first_max:
  assumes "pool_input layer = Some input"
    and "shape input = [b, hh, ww, ch]" "shape g = [b, hh div 2, ww div 2, ch]"
    and "i < b" "y < hh" "x < ww" "l < ch"
  shows "\<exists>din. pool_backward layer g lr = Inr (layer, din) \<and> shape din = shape input \<and>
           entry din [i, y, x, l] =
             (if y div 2 < hh div 2 \<and> x div 2 < ww div 2 \<and>
                 entry input [i, y, x, l] = Max (set (window input i (y div 2) (x div 2) l)) \<and>
                 (\<forall>dy dx. dy < 2 \<longrightarrow> dx < 2 \<longrightarrow> 2 * dy + dx < 2 * (y mod 2) + x mod 2 \<longrightarrow>
                    entry input [i, 2 * (y div 2) + dy, 2 * (x div 2) + dx, l] < Max (set (window input i (y div 2) (x div 2) l)))
              then entry g [i, y div 2, x div 2, l] else 0)"
proof (intro exI conjI)
  show "pool_backward layer g lr = Inr (layer, pool_grad_spec input g)"
    using assms(1-3) by (rule pool_backward_eq)
  show "shape (pool_grad_spec input g) = shape input"
    using assms(2) by (simp add: pool_grad_spec_def)
  have yx: "2 * (y div 2) + y mod 2 = y" "2 * (x div 2) + x mod 2 = x" by simp_all
  show "entry (pool_grad_spec input g) [i, y, x, l] = (if y div 2 < hh div 2 \<and> x div 2 < ww div 2 \<and>
                 entry input [i, y, x, l] = Max (set (window input i (y div 2) (x div 2) l)) \<and>
                 (\<forall>dy dx. dy < 2 \<longrightarrow> dx < 2 \<longrightarrow> 2 * dy + dx < 2 * (y mod 2) + x mod 2 \<longrightarrow>
                    entry input [i, 2 * (y div 2) + dy, 2 * (x div 2) + dx, l] < Max (set (window input i (y div 2) (x div 2) l)))
              then entry g [i, y div 2, x div 2, l] else 0)"
    using entry_pool_grad_spec [OF assms(2,4-7), of g]
      first_max_unique [of "y mod 2" "x mod 2" input i "y div 2" "x div 2" l]
    unfolding yx by simp
qed

theorem pool_backward_first_max_witness:
  "\<exists>din. pool_backward \<lparr>pool_input = Some \<lparr>shape = [1, 2, 2, 1], data = [1, 2, 3, 4]\<rparr>\<rparr> \<lparr>shape = [1, 1, 1, 1], data = [7]\<rparr> 0
     = Inr (\<lparr>pool_input = Some \<lparr>shape = [1, 2, 2, 1], data = [1, 2, 3, 4]\<rparr>\<rparr>, din) \<and> entry din [0, 1, 1, 0] = 7"
  using pool_backward_first_max [of "\<lparr>pool_input = Some \<lparr>shape = [1, 2, 2, 1], data = [1, 2, 3, 4 :: real]\<rparr>\<rparr>"
      "\<lparr>shape = [1, 2, 2, 1], data = [1, 2, 3, 4 :: real]\<rparr>" 1 2 2 1 "\<lparr>shape = [1, 1, 1, 1], data = [7 :: real]\<rparr>" 0 1 1 0 0]
  by (simp add: window_def entry_def All_less_Suc numeral_2_eq_2) blast

text \<open>C11: pooling's backward pass conserves the gradient: after a forward call, the
  entries of the returned gradient sum to the entries of the upstream gradient.\<close>

theorem pool_backward_conserves_gradient:
  assumes "pool_input layer = Some input"
    and "shape input = [b, hh, ww, ch]" "shape g = [b, hh div 2, ww div 2, ch]" "wf_arr g"
  shows "\<exists>din. pool_backward layer g lr = Inr (layer, din) \<and> sum_list (data din) = sum_list (data g)"
proof -
  let ?F = "fold (\<lambda>idx acc. bump acc (pool_route input idx) (entry g idx)) (all_indices (shape g)) (zeros_like input)"
  have "sum_list (data ?F) = sum_list (data (zeros_like input)) + sum_list (map (entry g) (all_indices (shape g)))"
    by (rule sum_data_fold_bump) (use assms(2,3) pool_route_in [OF assms(2)] in \<open>simp_all add: zeros_like_def\<close>)
  also have "\<dots> = sum_list (data g)"
    using sum_data_entries [OF assms(4)] by (simp add: zeros_like_def)
  finally show ?thesis using pool_backward_fold [OF assms(1-3), of lr] by blast
qed

theorem pool_backward_conserves_gradient_witness:
  "\<exists>din. pool_backward \<lparr>pool_input = Some \<lparr>shape = [1, 2, 2, 1], data = [1, 2, 3, 4]\<rparr>\<rparr> \<lparr>shape = [1, 1, 1, 1], data = [7]\<rparr> 0
     = Inr (\<lparr>pool_input = Some \<lparr>shape = [1, 2, 2, 1], data = [1, 2, 3, 4]\<rparr>\<rparr>, din) \<and> sum_list (data din) = 7"
  using pool_backward_conserves_gradient [of "\<lparr>pool_input = Some \<lparr>shape = [1, 2, 2, 1], data = [1, 2, 3, 4 :: real]\<rparr>\<rparr>"
      "\<lparr>shape = [1, 2, 2, 1], data = [1, 2, 3, 4 :: real]\<rparr>" 1 2 2 1 "\<lparr>shape = [1, 1, 1, 1], data = [7 :: real]\<rparr>" 0]
  by simp

text \<open>The specification's example: on the single window \<open>[[1, 2], [3, 4]]\<close> the
  forward pass returns 4, and the backward pass with upstream gradient \<open>g\<close> puts \<open>g\<close>
  at the position of 4 and 0 elsewhere.\<close>

theorem pool_spec_example:
  "pool_forward maxpool_new \<lparr>shape = [1, 2, 2, 1], data = [1, 2, 3, 4]\<rparr>
     = Inr (\<lparr>pool_input = Some \<lparr>shape = [1, 2, 2, 1], data = [1, 2, 3, 4]\<rparr>\<rparr>, \<lparr>shape = [1, 1, 1, 1], data = [4]\<rparr>)
   \<and> pool_backward \<lparr>pool_input = Some \<lparr>shape = [1, 2, 2, 1], data = [1, 2, 3, 4]\<rparr>\<rparr> \<lparr>shape = [1, 1, 1, 1], data = [g]\<rparr> lr
     = Inr (\<lparr>pool_input = Some \<lparr>shape = [1, 2, 2, 1], data = [1, 2, 3, 4]\<rparr>\<rparr>, \<lparr>shape = [1, 2, 2, 1], data = [0, 0, 0, g]\<rparr>)"
proof
  let ?x = "\<lparr>shape = [1, 2, 2, 1], data = [1, 2, 3, 4 :: real]\<rparr>"
  have one: "all_indices [1, 1, 1, 1] = [[0, 0, 0, 0]]" by simp
  have "pool_spec ?x = \<lparr>shape = [1, 1, 1, 1], data = [4]\<rparr>"
    unfolding pool_spec_def tabulate_def ndarray.select_convs list.case
    by (simp add: window_def entry_def)
  then show "pool_forward maxpool_new ?x = Inr (\<lparr>pool_input = Some ?x\<rparr>, \<lparr>shape = [1, 1, 1, 1], data = [4]\<rparr>)"
    using pool_forward_eq [of ?x 1 2 2 1 maxpool_new] by (simp add: maxpool_new_def)
  have ix: "all_indices [1, 2, 2, 1] = [[0, 0, 0, 0], [0, 0, 1, 0], [0, 1, 0, 0], [0, 1, 1, 0]]"
    by (simp add: upt_rec)
  have am: "window_argmax \<lparr>shape = [Suc 0, 2, 2, Suc 0], data = [1, 2, 3, 4 :: real]\<rparr> 0 0 0 0 = (1, 1)"
    by (simp add: window_argmax_def window_def entry_def unravel_index_def)
  have "pool_grad_spec ?x \<lparr>shape = [1, 1, 1, 1], data = [g]\<rparr> = \<lparr>shape = [1, 2, 2, 1], data = [0, 0, 0, g]\<rparr>"
    unfolding pool_grad_spec_def tabulate_def ndarray.select_convs list.case ix list.map
    by (simp only: Let_def nth_Cons_0 nth_Cons_numeral nth_Cons_Suc One_nat_def) (simp add: am entry_def)
  then show "pool_backward \<lparr>pool_input = Some ?x\<rparr> \<lparr>shape = [1, 1, 1, 1], data = [g]\<rparr> lr
     = Inr (\<lparr>pool_input = Some ?x\<rparr>, \<lparr>shape = [1, 2, 2, 1], data = [0, 0, 0, g]\<rparr>)"
    using pool_backward_eq [of "\<lparr>pool_input = Some ?x\<rparr>" ?x 1 2 2 1 "\<lparr>shape = [1, 1, 1, 1], data = [g]\<rparr>" lr] by simp
qed

text \<open>Pooling an input of height or width 1 does not fail: \<^verbatim>\<open>forward\<close> returns an
  empty array of height and width 0, although the specification asks that a topology
  producing non-positive spatial dimensions fail fast.\<close>

theorem pool_forward_zero_size:
  "pool_forward maxpool_new \<lparr>shape = [1, 1, 1, 1], data = [x]\<rparr>
     = Inr (\<lparr>pool_input = Some \<lparr>shape = [1, 1, 1, 1], data = [x]\<rparr>\<rparr>, \<lparr>shape = [1, 0, 0, 1], data = []\<rparr>)"
  by (simp add: pool_forward_def shape4_def maxpool_new_def zeros_def)

text \<open>C12: \<^verbatim>\<open>backward\<close> takes its loop bounds from the upstream gradient and never
  checks them against the forward output: after a forward pass on an input of height
  \<open>H\<close> and width \<open>W\<close>, every gradient of height up to \<open>\<lceil>H / 2\<rceil>\<close> and width up to
  \<open>\<lceil>W / 2\<rceil>\<close> is accepted and routed through windows clipped at the input's edge,
  although the forward output has only \<open>\<lfloor>H / 2\<rfloor>\<close> rows and \<open>\<lfloor>W / 2\<rfloor>\<close> columns.\<close>

theorem pool_backward_accepts_larger_gradient:
  assumes inp: "pool_input layer = Some input" and sh: "shape input = [b, hh, ww, ch]"
    and sg: "shape g = [b, oh, ow, ch]" and fit: "oh \<le> (hh + 1) div 2" "ow \<le> (ww + 1) div 2"
  shows "\<exists>d. pool_backward layer g lr = Inr (layer, d) \<and> shape d = shape input"
proof -
  let ?body = "\<lambda>idx dL_din. ebind (pool_region input (idx ! 0) (idx ! 1 * 2) (idx ! 2 * 2) (idx ! 3)) (\<lambda>(dims, region).
                 ebind (np_argmax region) (\<lambda>k. let max_index = unravel_index k dims in
                 ebind (get g [idx ! 0, idx ! 1, idx ! 2, idx ! 3]) (\<lambda>gv.
                 add_at dL_din [idx ! 0, idx ! 1 * 2 + fst max_index, idx ! 2 * 2 + snd max_index, idx ! 3] gv)))"
  have step: "\<exists>t. ?body idx acc = Inr t \<and> shape t = shape input"
    if idx: "idx \<in> set (all_indices [b, oh, ow, ch])" and acc: "shape acc = shape input" for idx acc
  proof -
    obtain i h w l where ix: "idx = [i, h, w, l]" "i < b" "h < oh" "w < ow" "l < ch"
      using idx unfolding in_all_indices4 by blast
    let ?rows = "[h * 2..<min (h * 2 + 2) hh]" and ?cols = "[w * 2..<min (w * 2 + 2) ww]"
    let ?region = "concat (map (\<lambda>y. map (\<lambda>x. entry input [i, y, x, l]) ?cols) ?rows)"
    have hw: "h * 2 < hh" "w * 2 < ww" using ix(3,4) fit by linarith+
    have reg: "pool_region input i (h * 2) (w * 2) l = Inr ((length ?rows, length ?cols), ?region)"
      using sh ix by (simp add: pool_region_def Let_def)
    have len: "length ?region = length ?rows * length ?cols"
      by (simp add: length_concat comp_def sum_list_triv)
    have pos: "0 < length ?rows" "0 < length ?cols" using hw by simp_all
    then have ne: "?region \<noteq> []" using len by (metis less_numeral_extra(3) list.size(3) mult_is_0)
    let ?k = "first_index (list_max ?region) ?region"
    have k: "?k < length ?rows * length ?cols"
      using first_index_lt [OF list_max_in [OF ne]] len by simp
    have dy: "?k div length ?cols < length ?rows" using k pos(2) by (simp add: less_mult_imp_div_less)
    have dx: "?k mod length ?cols < length ?cols" using pos(2) by simp
    have clip: "y * 2 + q < n" if "q < length [y * 2..<min (y * 2 + 2) n]" for y q n :: nat
      using that by (simp add: min_def split: if_splits)
    have inb: "in_bounds (shape acc) [i, h * 2 + ?k div length ?cols, w * 2 + ?k mod length ?cols, l]"
      using acc sh ix clip [OF dy] clip [OF dx] by simp
    show ?thesis
      using reg ne inb ix sg acc by (simp add: np_argmax_def unravel_index_def Let_def)
  qed
  have "\<exists>t. for_each (all_indices [b, oh, ow, ch]) ?body (zeros_like input) = Inr t \<and> shape t = shape input"
    by (rule for_each_inv) (use step in \<open>simp_all add: zeros_like_def\<close>)
  then obtain t where t: "for_each (all_indices [b, oh, ow, ch]) ?body (zeros_like input) = Inr t"
    "shape t = shape input" by blast
  have nest: "for_each [0..<b] (\<lambda>i. for_each [0..<oh] (\<lambda>h.
               for_each [0..<ow] (\<lambda>w. for_each [0..<ch] (\<lambda>oc dL_din.
                 ebind (pool_region input i (h * 2) (w * 2) oc) (\<lambda>(dims, region).
                 ebind (np_argmax region) (\<lambda>k.
                 let max_index = unravel_index k dims in
                 ebind (get g [i, h, w, oc]) (\<lambda>gv.
                 add_at dL_din [i, h * 2 + fst max_index, w * 2 + snd max_index, oc] gv)))))))
               (zeros_like input) = Inr t"
    unfolding for_each_nest4 by (rule t(1))
  show ?thesis
    using inp sh sg nest t(2) by (simp add: pool_backward_def shape4_def dim_def)
qed

text \<open>\<^verbatim>\<open>backward\<close> before any \<^verbatim>\<open>forward\<close> reads \<^verbatim>\<open>self.input.shape\<close> of
  \<^verbatim>\<open>None\<close> and raises \<open>AttributeError\<close>.\<close>

theorem pool_backward_before_forward:
  "pool_backward maxpool_new g lr = Inl AttributeError"
  by (simp add: pool_backward_def maxpool_new_def)

theorem pool_backward_accepts_larger_gradient_witness:
  "\<exists>d. pool_backward \<lparr>pool_input = Some \<lparr>shape = [1, 3, 3, 1], data = [1, 2, 3, 4, 5, 6, 7, 8, 9]\<rparr>\<rparr>
         \<lparr>shape = [1, 2, 2, 1], data = [1, 1, 1, 1]\<rparr> (1 / 10)
       = Inr (\<lparr>pool_input = Some \<lparr>shape = [1, 3, 3, 1], data = [1, 2, 3, 4, 5, 6, 7, 8, 9]\<rparr>\<rparr>, d)
     \<and> shape d = [1, 3, 3, 1]"
  using pool_backward_accepts_larger_gradient
    [of "\<lparr>pool_input = Some \<lparr>shape = [1, 3, 3, 1], data = [1, 2, 3, 4, 5, 6, 7, 8, 9]\<rparr>\<rparr>"
        "\<lparr>shape = [1, 3, 3, 1], data = [1, 2, 3, 4, 5, 6, 7, 8, 9]\<rparr>" 1 3 3 1
        "\<lparr>shape = [1, 2, 2, 1], data = [1, 1, 1, 1]\<rparr>" 2 2 "1 / 10"]
  by simp

end
