(* ===== verification/Dense.thy ===== *)
theory Dense
  imports NDArray
begin

text \<open>
  The class \<^verbatim>\<open>Dense\<close> of \<^verbatim>\<open>src/main.py\<close> (lines 134--193): a fully connected layer
  with weights of shape \<open>(in, out)\<close>, biases of shape \<open>(out,)\<close>, an activation tag
  (a string, as in the source) and the transient \<^verbatim>\<open>self.input\<close> and \<^verbatim>\<open>self.z\<close>.
  \<^verbatim>\<open>forward\<close> iterates over the rows of a matrix: \<^verbatim>\<open>np.dot(row, W)\<close> raises
  \<open>ValueError\<close> when the lengths disagree, \<^verbatim>\<open>+ self.biases\<close> broadcasts a length-1
  operand, and \<^verbatim>\<open>np.array\<close> of no rows has shape \<open>(0,)\<close>. Inputs of rank other
  than 2 are outside the model (numpy would iterate over sub-arrays or scalars): the
  model reports \<open>ValueError\<close> for them, and \<open>TypeError\<close> for a 0-d array.
  \<^verbatim>\<open>backward\<close> is the triple loop of \<^verbatim>\<open>+=\<close> with every index checked, the
  division by the batch size, and the in-place update loop.
\<close>

record dense =
  dense_z :: "real ndarray option"
  dense_input :: "real ndarray option"
  dense_in_channels :: nat
  dense_out_channels :: nat
  activation :: string
  dense_weights :: "real ndarray"
  dense_biases :: "real ndarray"

definition dense_new :: "nat \<Rightarrow> nat \<Rightarrow> string \<Rightarrow> real ndarray \<Rightarrow> dense" where
  "dense_new in_ch out_ch act weights =
     \<lparr>dense_z = None, dense_input = None, dense_in_channels = in_ch, dense_out_channels = out_ch,
      activation = act, dense_weights = weights, dense_biases = zeros [out_ch]\<rparr>"

text \<open>Row \<open>i\<close> of a matrix, as \<^verbatim>\<open>for row in input\<close> yields it.\<close>

definition mat_row :: "real ndarray \<Rightarrow> nat \<Rightarrow> real list" where
  "mat_row a i = map (\<lambda>k. entry a [i, k]) [0..<shape a ! 1]"

text \<open>\<^verbatim>\<open>np.dot(row, W)\<close> of a vector and a matrix.\<close>

definition np_dot_vec :: "real list \<Rightarrow> real ndarray \<Rightarrow> real list result" where
  "np_dot_vec v w =
     (case shape w of
        [n, m] \<Rightarrow> if length v = n then Inr (map (\<lambda>oc. \<Sum>ic<n. v ! ic * entry w [ic, oc]) [0..<m])
                 else Inl ValueError
      | _ \<Rightarrow> Inl ValueError)"

text \<open>\<^verbatim>\<open>v + b\<close> of two vectors, with numpy's broadcasting of a length-1 operand.\<close>

definition bias_add :: "real list \<Rightarrow> real ndarray \<Rightarrow> real list result" where
  "bias_add v b =
     (case shape b of
        [m] \<Rightarrow> if m = length v then Inr (map (\<lambda>j. v ! j + entry b [j]) [0..<m])
               else if m = 1 then Inr (map (\<lambda>x. x + entry b [0]) v)
               else if length v = 1 then Inr (map (\<lambda>j. v ! 0 + entry b [j]) [0..<m])
               else Inl ValueError
      | _ \<Rightarrow> Inl ValueError)"

text \<open>\<^verbatim>\<open>np.array(output)\<close> of a list of equally long rows.\<close>

definition np_array_rows :: "real list list \<Rightarrow> real ndarray" where
  "np_array_rows rows =
     (case rows of [] \<Rightarrow> \<lparr>shape = [0], data = []\<rparr>
      | r # _ \<Rightarrow> \<lparr>shape = [length rows, length r], data = concat rows\<rparr>)"

text \<open>\<^verbatim>\<open>np.max(values, axis=1)\<close> for one row.\<close>

definition row_max :: "real ndarray \<Rightarrow> nat \<Rightarrow> real" where
  "row_max a i = Max (set (mat_row a i))"

text \<open>The softmax branch of \<^verbatim>\<open>activation_function\<close> (lines 190--191): subtract the row
  maximum, exponentiate, divide by the row sum. A row of length 0 makes \<^verbatim>\<open>np.max\<close>
  raise; an array that is not a matrix has no axis 1.\<close>

definition softmax_rows :: "real ndarray \<Rightarrow> real ndarray result" where
  "softmax_rows values =
     (case shape values of
        [b, m] \<Rightarrow> if 0 < m then
            Inr (tabulate [b, m] (\<lambda>idx. exp (entry values idx - row_max values (idx ! 0)) /
                   (\<Sum>k<m. exp (entry values [idx ! 0, k] - row_max values (idx ! 0)))))
          else Inl ValueError
      | _ \<Rightarrow> Inl ValueError)"

definition activation_function :: "dense \<Rightarrow> real ndarray \<Rightarrow> real ndarray result" where
  "activation_function layer values =
     (if activation layer = ''relu'' then Inr (amap relu values)
      else if activation layer = ''softmax'' then softmax_rows values
      else Inl ValueError)"

definition dense_forward :: "dense \<Rightarrow> real ndarray \<Rightarrow> (dense \<times> real ndarray) result" where
  "dense_forward layer0 input =
     (let layer = layer0\<lparr>dense_input := Some input\<rparr> in
      case shape input of
        [] \<Rightarrow> Inl TypeError
      | [b, f] \<Rightarrow>
          ebind (emap (\<lambda>i. ebind (np_dot_vec (mat_row input i) (dense_weights layer)) (\<lambda>d.
                             bias_add d (dense_biases layer))) [0..<b]) (\<lambda>output.
          let z = np_array_rows output in
          ebind (activation_function layer z) (\<lambda>out.
          Inr (layer\<lparr>dense_z := Some z\<rparr>, out)))
      | _ \<Rightarrow> Inl ValueError)"

text \<open>One \<open>(i, oc)\<close> step of the gradient loop (lines 167--170).\<close>

definition dense_grad_at ::
  "dense \<Rightarrow> real ndarray \<Rightarrow> real ndarray \<Rightarrow> nat \<Rightarrow> nat \<Rightarrow>
   real ndarray \<times> real ndarray \<times> real ndarray \<Rightarrow> (real ndarray \<times> real ndarray \<times> real ndarray) result" where
  "dense_grad_at layer input dL_dout i oc =
     (\<lambda>(dL_dbiases, dL_dweights, dL_din).
      ebind (get dL_dout [i, oc]) (\<lambda>g.
      ebind (add_at dL_dbiases [oc] g) (\<lambda>dL_dbiases.
      ebind (dim input 1) (\<lambda>in_ch.
      ebind (for_each [0..<in_ch] (\<lambda>ic (dL_dweights, dL_din).
               ebind (get input [i, ic]) (\<lambda>x.
               ebind (add_at dL_dweights [ic, oc] (g * x)) (\<lambda>dL_dweights.
               ebind (get (dense_weights layer) [ic, oc]) (\<lambda>w.
               ebind (add_at dL_din [i, ic] (w * g)) (\<lambda>dL_din.
               Inr (dL_dweights, dL_din))))))
               (dL_dweights, dL_din))
        (\<lambda>(dL_dweights, dL_din). Inr (dL_dbiases, dL_dweights, dL_din))))))"

text \<open>\<^verbatim>\<open>a[idx] -= v\<close>.\<close>

definition sub_at :: "real ndarray \<Rightarrow> nat list \<Rightarrow> real \<Rightarrow> real ndarray result" where
  "sub_at a idx v = ebind (get a idx) (\<lambda>x. upd a idx (x - v))"

text \<open>One \<open>oc\<close> step of the update loop (lines 176--178).\<close>

definition dense_update_at ::
  "real ndarray \<Rightarrow> real ndarray \<Rightarrow> real ndarray \<Rightarrow> real \<Rightarrow> nat \<Rightarrow>
   real ndarray \<times> real ndarray \<Rightarrow> (real ndarray \<times> real ndarray) result" where
  "dense_update_at input dL_dbiases dL_dweights learning_rate oc =
     (\<lambda>(biases, weights).
      ebind (get dL_dbiases [oc]) (\<lambda>db.
      ebind (sub_at biases [oc] (learning_rate * db)) (\<lambda>biases.
      ebind (dim input 1) (\<lambda>in_ch.
      ebind (for_each [0..<in_ch] (\<lambda>ic weights.
               ebind (get dL_dweights [ic, oc]) (\<lambda>dw.
               sub_at weights [ic, oc] (learning_rate * dw))) weights)
        (\<lambda>weights. Inr (biases, weights))))))"

definition dense_backward :: "dense \<Rightarrow> real ndarray \<Rightarrow> real \<Rightarrow> (dense \<times> real ndarray) result" where
  "dense_backward layer dL_dout learning_rate =
     (case dense_input layer of None \<Rightarrow> Inl AttributeError | Some input \<Rightarrow>
      ebind (dim input 0) (\<lambda>batch_size.
      ebind (for_each [0..<batch_size] (\<lambda>i. for_each [0..<dense_out_channels layer] (\<lambda>oc.
               dense_grad_at layer input dL_dout i oc))
               (zeros_like (dense_biases layer), zeros_like (dense_weights layer), zeros_like input))
        (\<lambda>(dL_dbiases, dL_dweights, dL_din).
      let dL_dweights = amap (\<lambda>x. x / real batch_size) dL_dweights;
          dL_dbiases = amap (\<lambda>x. x / real batch_size) dL_dbiases in
      ebind (for_each [0..<dense_out_channels layer] (dense_update_at input dL_dbiases dL_dweights learning_rate)
               (dense_biases layer, dense_weights layer))
        (\<lambda>(biases, weights). Inr (layer\<lparr>dense_biases := biases, dense_weights := weights\<rparr>, dL_din)))))"

subsection \<open>Closed forms\<close>

text \<open>The shapes under which \<^verbatim>\<open>forward\<close> cannot raise before the activation: a
  non-empty batch of rows of length \<open>f\<close>, weights \<open>(f, m)\<close>, biases \<open>(m,)\<close>.\<close>

definition dense_shapes_ok :: "dense \<Rightarrow> real ndarray \<Rightarrow> bool" where
  "dense_shapes_ok layer input \<longleftrightarrow>
     (case (shape input, shape (dense_weights layer), shape (dense_biases layer)) of
        ([b, f], [f', m], [m']) \<Rightarrow> 0 < b \<and> f' = f \<and> m' = m \<and>
          wf_arr input \<and> wf_arr (dense_weights layer) \<and> wf_arr (dense_biases layer)
      | _ \<Rightarrow> False)"

text \<open>The pre-activation \<open>z[i, oc] = \<Sum>ic. input[i, ic] * W[ic, oc] + b[oc]\<close>.\<close>

definition dense_preact :: "dense \<Rightarrow> real ndarray \<Rightarrow> real ndarray" where
  "dense_preact layer input =
     (case (shape input, shape (dense_weights layer)) of
        ([b, f], [f', m]) \<Rightarrow> tabulate [b, m] (\<lambda>idx.
          (\<Sum>ic<f. entry input [idx ! 0, ic] * entry (dense_weights layer) [ic, idx ! 1]) + entry (dense_biases layer) [idx ! 1])
      | _ \<Rightarrow> zeros [])"

text \<open>The textbook softmax of each row, without the shift by the row maximum.\<close>

definition softmax_spec :: "real ndarray \<Rightarrow> real ndarray" where
  "softmax_spec z =
     tabulate (shape z) (\<lambda>idx. exp (entry z idx) / (\<Sum>k<shape z ! 1. exp (entry z [idx ! 0, k])))"

text \<open>The raw sums of the backward loop: the bias gradient \<open>\<Sum>i. G[i, oc]\<close>, the
  weight gradient \<open>\<Sum>i. G[i, oc] * input[i, ic]\<close> and the input gradient
  \<open>\<Sum>oc. W[ic, oc] * G[i, oc]\<close>.\<close>

definition dense_grad_bias :: "real ndarray \<Rightarrow> real ndarray" where
  "dense_grad_bias g = tabulate [shape g ! 1] (\<lambda>j. \<Sum>i<shape g ! 0. entry g [i, j ! 0])"

definition dense_grad_weights :: "real ndarray \<Rightarrow> real ndarray \<Rightarrow> real ndarray" where
  "dense_grad_weights input g =
     tabulate [shape input ! 1, shape g ! 1] (\<lambda>j. \<Sum>i<shape g ! 0. entry g [i, j ! 1] * entry input [i, j ! 0])"

definition dense_grad_input :: "dense \<Rightarrow> real ndarray \<Rightarrow> real ndarray" where
  "dense_grad_input layer g =
     tabulate [shape g ! 0, shape (dense_weights layer) ! 0] (\<lambda>j.
       \<Sum>oc<shape g ! 1. entry (dense_weights layer) [j ! 1, oc] * entry g [j ! 0, oc])"

text \<open>The state in which \<^verbatim>\<open>backward\<close> cannot raise: a stored input with fitting shapes
  and an upstream gradient of shape \<open>(B, out)\<close>, \<open>out\<close> being both the declared
  output channels and the weights' second dimension.\<close>

definition dense_backward_ok :: "dense \<Rightarrow> real ndarray \<Rightarrow> bool" where
  "dense_backward_ok layer g \<longleftrightarrow>
     (case dense_input layer of None \<Rightarrow> False | Some input \<Rightarrow>
        dense_shapes_ok layer input \<and> shape (dense_weights layer) ! 1 = dense_out_channels layer \<and>
        shape g = [shape input ! 0, dense_out_channels layer])"

text \<open>A layer with two inputs and one output after a forward call on the batch
  \<open>[[1, 2], [3, 4]]\<close>: a test fixture for the witnesses.\<close>

definition demo_dense :: dense where
  "demo_dense = (dense_new 2 1 ''relu'' \<lparr>shape = [2, 1], data = [3, -1]\<rparr>)
     \<lparr>dense_input := Some \<lparr>shape = [2, 2], data = [1, 2, 3, 4]\<rparr>\<rparr>"

subsection \<open>Forward pass\<close>

lemma dense_shapes_okE:
  assumes "dense_shapes_ok layer input"
  obtains b n m where "shape input = [b, n]" "shape (dense_weights layer) = [n, m]" "shape (dense_biases layer) = [m]"
    "0 < b" "wf_arr input" "wf_arr (dense_weights layer)" "wf_arr (dense_biases layer)"
  using assms by (auto simp: dense_shapes_ok_def split: list.splits)

lemma all_indices2: "all_indices [b, m] = concat (map (\<lambda>i. map (\<lambda>j. [i, j]) [0..<m]) [0..<b])"
  by (simp add: comp_def)

lemma np_array_rows_tabulate:
  "0 < b \<Longrightarrow> np_array_rows (map (\<lambda>i. map (\<lambda>j. f [i, j]) [0..<m]) [0..<b]) = tabulate [b, m] f"
  by (cases b) (simp_all add: np_array_rows_def tabulate_def all_indices2 map_concat comp_def upt_conv_Cons del: upt_Suc)

lemma dense_forward_eq:
  assumes "dense_shapes_ok layer input"
  shows "dense_forward layer input
       = ebind (activation_function layer (dense_preact layer input)) (\<lambda>out.
           Inr (layer\<lparr>dense_input := Some input, dense_z := Some (dense_preact layer input)\<rparr>, out))"
proof -
  obtain b f m where sh: "shape input = [b, f]" "shape (dense_weights layer) = [f, m]" "shape (dense_biases layer) = [m]" "0 < b"
    using assms by (rule dense_shapes_okE)
  let ?L = "layer\<lparr>dense_input := Some input\<rparr>"
  let ?r = "\<lambda>i. map (\<lambda>j. (\<Sum>ic<f. entry input [i, ic] * entry (dense_weights layer) [ic, j]) + entry (dense_biases layer) [j]) [0..<m]"
  have row: "ebind (np_dot_vec (mat_row input i) (dense_weights ?L)) (\<lambda>d. bias_add d (dense_biases ?L)) = Inr (?r i)" for i
    using sh by (simp add: np_dot_vec_def bias_add_def mat_row_def)
  have "emap (\<lambda>i. ebind (np_dot_vec (mat_row input i) (dense_weights ?L)) (\<lambda>d. bias_add d (dense_biases ?L))) [0..<b]
      = Inr (map ?r [0..<b])"
    by (rule emap_Inr) (rule row)
  moreover have "np_array_rows (map ?r [0..<b]) = dense_preact layer input"
    using sh np_array_rows_tabulate [OF sh(4), where m = m and f = "\<lambda>idx. (\<Sum>ic<f. entry input [idx ! 0, ic] * entry (dense_weights layer) [ic, idx ! 1]) + entry (dense_biases layer) [idx ! 1]"]
    by (simp add: dense_preact_def)
  moreover have "activation_function ?L = activation_function layer"
    by (simp add: activation_function_def fun_eq_iff)
  ultimately show ?thesis using sh by (simp add: dense_forward_def Let_def)
qed

lemma softmax_shift:
  fixes c :: real
  shows "exp (x - c) / (\<Sum>k<m. exp (y k - c)) = exp x / (\<Sum>k<m. exp (y k))"
proof -
  have "(\<Sum>k<m. exp (y k - c)) = (\<Sum>k<m. exp (y k)) / exp c"
    by (simp add: exp_diff sum_divide_distrib)
  then show ?thesis by (simp add: exp_diff)
qed

lemma softmax_rows_eq:
  assumes "shape z = [b, m]" "0 < m"
  shows "softmax_rows z = Inr (softmax_spec z)"
proof -
  have "tabulate [b, m] (\<lambda>idx. exp (entry z idx - row_max z (idx ! 0)) /
           (\<Sum>k<m. exp (entry z [idx ! 0, k] - row_max z (idx ! 0))))
      = tabulate [b, m] (\<lambda>idx. exp (entry z idx) / (\<Sum>k<m. exp (entry z [idx ! 0, k])))"
    by (rule tabulate_cong) (rule softmax_shift)
  then show ?thesis using assms by (simp add: softmax_rows_def softmax_spec_def)
qed

lemma softmax_spec_pos:
  "shape z = [b, m] \<Longrightarrow> in_bounds [b, m] idx \<Longrightarrow> 0 < entry (softmax_spec z) idx"
  by (auto simp: softmax_spec_def intro!: divide_pos_pos sum_pos elim!: in_bounds.elims)

lemma softmax_spec_row_sum:
  assumes "shape z = [b, m]" "i < b" "0 < m"
  shows "(\<Sum>k<m. entry (softmax_spec z) [i, k]) = 1"
proof -
  have pos: "0 < (\<Sum>k<m. exp (entry z [i, k]))"
    using assms(3) by (intro sum_pos) auto
  have "(\<Sum>k<m. entry (softmax_spec z) [i, k]) = (\<Sum>k<m. exp (entry z [i, k]) / (\<Sum>k<m. exp (entry z [i, k])))"
    using assms by (simp add: softmax_spec_def)
  also have "\<dots> = 1"
    using pos by (simp add: sum_divide_distrib [symmetric])
  finally show ?thesis .
qed

subsection \<open>Backward pass\<close>

lemma dense_grad_at_eq:
  assumes "shape input = [b, n]" "shape (dense_weights layer) = [n, m]" "shape g = [b, m]" "i < b" "oc < m"
    and "shape db = [m]" "shape dw = [n, m]" "shape din = [b, n]"
  shows "dense_grad_at layer input g i oc (db, dw, din)
       = Inr (bump db [oc] (entry g [i, oc]),
              fold (\<lambda>ic acc. bump acc [ic, oc] (entry g [i, oc] * entry input [i, ic])) [0..<n] dw,
              fold (\<lambda>ic acc. bump acc [i, ic] (entry (dense_weights layer) [ic, oc] * entry g [i, oc])) [0..<n] din)"
proof -
  let ?gv = "entry g [i, oc]"
  let ?F = "\<lambda>ic acc. bump acc [ic, oc] (?gv * entry input [i, ic])"
  let ?H = "\<lambda>ic acc. bump acc [i, ic] (entry (dense_weights layer) [ic, oc] * ?gv)"
  let ?P = "\<lambda>(dw', din'). shape dw' = [n, m] \<and> shape din' = [b, n]"
  have inner: "for_each [0..<n] (\<lambda>ic (dL_dweights, dL_din).
               ebind (get input [i, ic]) (\<lambda>x.
               ebind (add_at dL_dweights [ic, oc] (?gv * x)) (\<lambda>dL_dweights.
               ebind (get (dense_weights layer) [ic, oc]) (\<lambda>w.
               ebind (add_at dL_din [i, ic] (w * ?gv)) (\<lambda>dL_din.
               Inr (dL_dweights, dL_din)))))) (dw, din)
      = Inr (fold (\<lambda>ic (a, d). (?F ic a, ?H ic d)) [0..<n] (dw, din))
        \<and> ?P (fold (\<lambda>ic (a, d). (?F ic a, ?H ic d)) [0..<n] (dw, din))"
    by (rule for_each_fold_inv) (use assms in \<open>auto\<close>)
  show ?thesis
    using assms inner by (simp add: dense_grad_at_def dim_def fold_split2)
qed

lemma dense_grad_loop:
  assumes "shape input = [b, n]" "shape (dense_weights layer) = [n, m]" "shape g = [b, m]"
  shows "for_each [0..<b] (\<lambda>i. for_each [0..<m] (\<lambda>oc. dense_grad_at layer input g i oc))
           (zeros [m], zeros [n, m], zeros [b, n])
       = Inr (fold (\<lambda>idx acc. bump acc [idx ! 1] (entry g idx)) (all_indices [b, m]) (zeros [m]),
              fold (\<lambda>idx. fold (\<lambda>ic acc. bump acc [ic, idx ! 1] (entry g idx * entry input [idx ! 0, ic])) [0..<n])
                (all_indices [b, m]) (zeros [n, m]),
              fold (\<lambda>idx. fold (\<lambda>ic acc. bump acc [idx ! 0, ic] (entry (dense_weights layer) [ic, idx ! 1] * entry g idx)) [0..<n])
                (all_indices [b, m]) (zeros [b, n]))"
proof -
  let ?fb = "\<lambda>idx acc. bump acc [idx ! 1] (entry g idx)"
  let ?fw = "\<lambda>idx. fold (\<lambda>ic acc. bump acc [ic, idx ! 1] (entry g idx * entry input [idx ! 0, ic])) [0..<n]"
  let ?fi = "\<lambda>idx. fold (\<lambda>ic acc. bump acc [idx ! 0, ic] (entry (dense_weights layer) [ic, idx ! 1] * entry g idx)) [0..<n]"
  let ?P = "\<lambda>(db, dw, din). shape db = [m] \<and> shape dw = [n, m] \<and> shape din = [b, n]"
  have "for_each (all_indices [b, m]) (\<lambda>idx. dense_grad_at layer input g (idx ! 0) (idx ! 1))
          (zeros [m], zeros [n, m], zeros [b, n])
      = Inr (fold (\<lambda>idx (db, dw, din). (?fb idx db, ?fw idx dw, ?fi idx din)) (all_indices [b, m])
               (zeros [m], zeros [n, m], zeros [b, n]))
      \<and> ?P (fold (\<lambda>idx (db, dw, din). (?fb idx db, ?fw idx dw, ?fi idx din)) (all_indices [b, m])
               (zeros [m], zeros [n, m], zeros [b, n]))"
  proof (rule for_each_fold_inv)
    fix idx and s :: "real ndarray \<times> real ndarray \<times> real ndarray"
    assume idx: "idx \<in> set (all_indices [b, m])" and P: "?P s"
    obtain i oc where ii: "idx = [i, oc]" "i < b" "oc < m"
      using idx unfolding in_all_indices2 by blast
    obtain db dw din where s: "s = (db, dw, din)" by (cases s) auto
    show "dense_grad_at layer input g (idx ! 0) (idx ! 1) s
        = Inr ((\<lambda>idx (db, dw, din). (?fb idx db, ?fw idx dw, ?fi idx din)) idx s)
          \<and> ?P ((\<lambda>idx (db, dw, din). (?fb idx db, ?fw idx dw, ?fi idx din)) idx s)"
      using dense_grad_at_eq [OF assms ii(2,3), of db dw din] P s ii by simp
  qed simp
  then show ?thesis by (simp add: for_each_nest2 fold_split3)
qed

lemma dense_bias_fold_entry:
  assumes "oc' < m"
  shows "entry (fold (\<lambda>idx acc. bump acc [idx ! 1] (entry g idx)) (all_indices [b, m]) (zeros [m])) [oc']
       = (\<Sum>i<b. entry g [i, oc'])"
proof -
  have "entry (fold (\<lambda>idx acc. bump acc [idx ! 1] (entry g idx)) (all_indices [b, m]) (zeros [m])) [oc']
      = sum_list (map (\<lambda>idx. if [idx ! 1] = [oc'] then entry g idx else 0) (all_indices [b, m]))"
    using assms by (subst entry_fold_bump) (auto simp: in_all_indices2)
  also have "\<dots> = (\<Sum>i<b. \<Sum>oc<m. if oc = oc' then entry g [i, oc] else 0)"
    by (simp only: sum_list_all_indices2) simp
  finally show ?thesis using assms by simp
qed

lemma dense_weights_fold_entry:
  assumes "ic' < n" "oc' < m"
  shows "entry (fold (\<lambda>idx. fold (\<lambda>ic acc. bump acc [ic, idx ! 1] (entry g idx * entry input [idx ! 0, ic])) [0..<n])
                (all_indices [b, m]) (zeros [n, m])) [ic', oc']
       = (\<Sum>i<b. entry g [i, oc'] * entry input [i, ic'])"
proof -
  have "entry (fold (\<lambda>idx. fold (\<lambda>ic acc. bump acc [ic, idx ! 1] (entry g idx * entry input [idx ! 0, ic])) [0..<n])
                (all_indices [b, m]) (zeros [n, m])) [ic', oc']
      = sum_list (map (\<lambda>idx. sum_list (map (\<lambda>ic. if [ic, idx ! 1] = [ic', oc'] then entry g idx * entry input [idx ! 0, ic] else 0)
            [0..<n])) (all_indices [b, m]))"
    using assms by (subst entry_fold_fold_bump) (auto simp: in_all_indices2)
  also have "\<dots> = (\<Sum>i<b. \<Sum>oc<m. \<Sum>ic<n. if oc = oc' \<and> ic = ic' then entry g [i, oc] * entry input [i, ic] else 0)"
    by (simp only: sum_list_all_indices2 sum_list_map_upt_sum) (simp add: conj_commute cong: if_cong)
  finally show ?thesis using assms by (simp only: sum2_delta) simp
qed

lemma dense_input_fold_entry:
  assumes "i' < b" "ic' < n"
  shows "entry (fold (\<lambda>idx. fold (\<lambda>ic acc. bump acc [idx ! 0, ic] (entry W [ic, idx ! 1] * entry g idx)) [0..<n])
                (all_indices [b, m]) (zeros [b, n])) [i', ic']
       = (\<Sum>oc<m. entry W [ic', oc] * entry g [i', oc])"
proof -
  have "entry (fold (\<lambda>idx. fold (\<lambda>ic acc. bump acc [idx ! 0, ic] (entry W [ic, idx ! 1] * entry g idx)) [0..<n])
                (all_indices [b, m]) (zeros [b, n])) [i', ic']
      = sum_list (map (\<lambda>idx. sum_list (map (\<lambda>ic. if [idx ! 0, ic] = [i', ic'] then entry W [ic, idx ! 1] * entry g idx else 0)
            [0..<n])) (all_indices [b, m]))"
    using assms by (subst entry_fold_fold_bump) (auto simp: in_all_indices2)
  also have "\<dots> = (\<Sum>i<b. \<Sum>oc<m. \<Sum>ic<n. if i = i' \<and> ic = ic' then entry W [ic, oc] * entry g [i, oc] else 0)"
    by (simp only: sum_list_all_indices2 sum_list_map_upt_sum) (simp cong: if_cong)
  also have "\<dots> = (\<Sum>i<b. if i = i' then (\<Sum>oc<m. entry W [ic', oc] * entry g [i', oc]) else 0)"
    using assms by (intro sum.cong refl) (simp add: sum.swap [of _ "{..<m}"])
  finally show ?thesis using assms by simp
qed

lemma sub_at_add_at: "sub_at a idx v = add_at a idx (- v)"
  by (simp add: sub_at_def add_at_def)

lemma dense_update_loop:
  assumes "shape input = [b, n]" "shape B = [m]" "shape W = [n, m]" "shape DB = [m]" "shape DW = [n, m]"
  shows "for_each [0..<m] (dense_update_at input DB DW lr) (B, W)
       = Inr (fold (\<lambda>oc acc. bump acc [oc] (- (lr * entry DB [oc]))) [0..<m] B,
              fold (\<lambda>oc. fold (\<lambda>ic acc. bump acc [ic, oc] (- (lr * entry DW [ic, oc]))) [0..<n]) [0..<m] W)"
proof -
  let ?fb = "\<lambda>oc acc. bump acc [oc] (- (lr * entry DB [oc]))"
  let ?fw = "\<lambda>oc. fold (\<lambda>ic acc. bump acc [ic, oc] (- (lr * entry DW [ic, oc]))) [0..<n]"
  let ?P = "\<lambda>(b', w'). shape b' = [m] \<and> shape w' = [n, m]"
  have "for_each [0..<m] (dense_update_at input DB DW lr) (B, W)
      = Inr (fold (\<lambda>oc (b', w'). (?fb oc b', ?fw oc w')) [0..<m] (B, W))
      \<and> ?P (fold (\<lambda>oc (b', w'). (?fb oc b', ?fw oc w')) [0..<m] (B, W))"
  proof (rule for_each_fold_inv)
    fix oc and s :: "real ndarray \<times> real ndarray"
    assume oc: "oc \<in> set [0..<m]" and P: "?P s"
    obtain b' w' where s: "s = (b', w')" by fastforce
    have inner: "for_each [0..<n] (\<lambda>ic weights. ebind (get DW [ic, oc]) (\<lambda>dw. sub_at weights [ic, oc] (lr * dw))) w'
        = Inr (?fw oc w')"
    proof -
      have "for_each [0..<n] (\<lambda>ic weights. ebind (get DW [ic, oc]) (\<lambda>dw. sub_at weights [ic, oc] (lr * dw))) w'
          = for_each [0..<n] (\<lambda>ic acc. add_at acc [ic, oc] (- (lr * entry DW [ic, oc]))) w'"
        by (rule for_each_cong) (use assms oc in \<open>simp_all add: sub_at_add_at\<close>)
      also have "\<dots> = Inr (?fw oc w')"
        by (rule for_each_add_at) (use P s oc in simp)
      finally show ?thesis .
    qed
    show "dense_update_at input DB DW lr oc s = Inr ((\<lambda>oc (b', w'). (?fb oc b', ?fw oc w')) oc s)
        \<and> ?P ((\<lambda>oc (b', w'). (?fb oc b', ?fw oc w')) oc s)"
      using assms oc P s inner by (simp add: dense_update_at_def dim_def sub_at_add_at)
  qed (use assms in simp)
  then show ?thesis by (simp add: fold_split2)
qed

lemma update_bias_entry:
  assumes "wf_arr B" "shape B = [m]" "oc' < m"
  shows "entry (fold (\<lambda>oc acc. bump acc [oc] (- v oc)) [0..<m] B) [oc'] = entry B [oc'] - v oc'"
  using assms by (subst entry_fold_bump) (simp_all add: sum_list_map_upt_sum)

lemma update_weights_entry:
  assumes "wf_arr W" "shape W = [n, m]" "ic' < n" "oc' < m"
  shows "entry (fold (\<lambda>oc. fold (\<lambda>ic acc. bump acc [ic, oc] (- v ic oc)) [0..<n]) [0..<m] W) [ic', oc']
       = entry W [ic', oc'] - v ic' oc'"
proof -
  have "entry (fold (\<lambda>oc. fold (\<lambda>ic acc. bump acc [ic, oc] (- v ic oc)) [0..<n]) [0..<m] W) [ic', oc']
      = entry W [ic', oc'] + (\<Sum>oc<m. \<Sum>ic<n. if oc = oc' \<and> ic = ic' then - v ic oc else 0)"
    using assms by (subst entry_fold_fold_bump) (auto simp: sum_list_map_upt_sum conj_commute cong: if_cong)
  then show ?thesis using assms by (simp only: sum2_delta) simp
qed

lemma dense_backward_eq:
  assumes "dense_backward_ok layer g" "dense_input layer = Some input"
  shows "dense_backward layer g lr
       = Inr (layer\<lparr>dense_biases := tabulate [dense_out_channels layer] (\<lambda>j.
                  entry (dense_biases layer) j - lr * (entry (dense_grad_bias g) j / real (shape input ! 0))),
                dense_weights := tabulate (shape (dense_weights layer)) (\<lambda>j.
                  entry (dense_weights layer) j - lr * (entry (dense_grad_weights input g) j / real (shape input ! 0)))\<rparr>,
              dense_grad_input layer g)"
proof -
  have ok: "dense_shapes_ok layer input" "shape (dense_weights layer) ! 1 = dense_out_channels layer"
    "shape g = [shape input ! 0, dense_out_channels layer]"
    using assms by (simp_all add: dense_backward_ok_def)
  obtain b n m where sh: "shape input = [b, n]" "shape (dense_weights layer) = [n, m]" "shape (dense_biases layer) = [m]"
    "0 < b" "wf_arr input" "wf_arr (dense_weights layer)" "wf_arr (dense_biases layer)"
    using ok(1) by (rule dense_shapes_okE)
  have m: "dense_out_channels layer = m" and sg: "shape g = [b, m]" using ok sh by simp_all
  let ?W = "dense_weights layer" and ?B = "dense_biases layer"
  let ?DB = "fold (\<lambda>idx acc. bump acc [idx ! 1] (entry g idx)) (all_indices [b, m]) (zeros [m])"
  let ?DW = "fold (\<lambda>idx. fold (\<lambda>ic acc. bump acc [ic, idx ! 1] (entry g idx * entry input [idx ! 0, ic])) [0..<n])
                (all_indices [b, m]) (zeros [n, m])"
  let ?DI = "fold (\<lambda>idx. fold (\<lambda>ic acc. bump acc [idx ! 0, ic] (entry ?W [ic, idx ! 1] * entry g idx)) [0..<n])
                (all_indices [b, m]) (zeros [b, n])"
  let ?DB' = "amap (\<lambda>x. x / real b) ?DB" and ?DW' = "amap (\<lambda>x. x / real b) ?DW"
  have loop: "for_each [0..<b] (\<lambda>i. for_each [0..<dense_out_channels layer] (\<lambda>oc. dense_grad_at layer input g i oc))
      (zeros_like ?B, zeros_like ?W, zeros_like input) = Inr (?DB, ?DW, ?DI)"
    using dense_grad_loop [OF sh(1,2) sg] sh m by (simp add: zeros_like_def)
  have upd: "for_each [0..<dense_out_channels layer] (dense_update_at input ?DB' ?DW' lr) (?B, ?W)
      = Inr (fold (\<lambda>oc acc. bump acc [oc] (- (lr * entry ?DB' [oc]))) [0..<m] ?B,
             fold (\<lambda>oc. fold (\<lambda>ic acc. bump acc [ic, oc] (- (lr * entry ?DW' [ic, oc]))) [0..<n]) [0..<m] ?W)"
    unfolding m by (rule dense_update_loop) (use sh in simp_all)
  have fb: "fold (\<lambda>oc acc. bump acc [oc] (- (lr * entry ?DB' [oc]))) [0..<m] ?B
      = tabulate [m] (\<lambda>j. entry ?B j - lr * (entry (dense_grad_bias g) j / real b))"
  proof (rule arr_ext)
    fix j assume "in_bounds (shape (fold (\<lambda>oc acc. bump acc [oc] (- (lr * entry ?DB' [oc]))) [0..<m] ?B)) j"
    then obtain oc' where j: "j = [oc']" "oc' < m" using sh by (auto elim!: in_bounds.elims)
    show "entry (fold (\<lambda>oc acc. bump acc [oc] (- (lr * entry ?DB' [oc]))) [0..<m] ?B) j
        = entry (tabulate [m] (\<lambda>j. entry ?B j - lr * (entry (dense_grad_bias g) j / real b))) j"
      using update_bias_entry [OF sh(7,3) j(2)] dense_bias_fold_entry [OF j(2), of g b] j sg
      by (simp add: dense_grad_bias_def)
  qed (use sh in simp_all)
  have fw: "fold (\<lambda>oc. fold (\<lambda>ic acc. bump acc [ic, oc] (- (lr * entry ?DW' [ic, oc]))) [0..<n]) [0..<m] ?W
      = tabulate [n, m] (\<lambda>j. entry ?W j - lr * (entry (dense_grad_weights input g) j / real b))"
  proof (rule arr_ext)
    fix j assume "in_bounds (shape (fold (\<lambda>oc. fold (\<lambda>ic acc. bump acc [ic, oc] (- (lr * entry ?DW' [ic, oc]))) [0..<n]) [0..<m] ?W)) j"
    then obtain ic' oc' where j: "j = [ic', oc']" "ic' < n" "oc' < m" using sh by (auto elim!: in_bounds.elims)
    show "entry (fold (\<lambda>oc. fold (\<lambda>ic acc. bump acc [ic, oc] (- (lr * entry ?DW' [ic, oc]))) [0..<n]) [0..<m] ?W) j
        = entry (tabulate [n, m] (\<lambda>j. entry ?W j - lr * (entry (dense_grad_weights input g) j / real b))) j"
      using update_weights_entry [OF sh(6,2) j(2,3)] dense_weights_fold_entry [OF j(2,3), of g input b] j sg sh
      by (simp add: dense_grad_weights_def)
  qed (use sh in simp_all)
  have di: "?DI = dense_grad_input layer g"
  proof (rule arr_ext)
    fix j assume "in_bounds (shape ?DI) j"
    then obtain i' ic' where j: "j = [i', ic']" "i' < b" "ic' < n" by (auto elim!: in_bounds.elims)
    show "entry ?DI j = entry (dense_grad_input layer g) j"
      using dense_input_fold_entry [OF j(2,3), where W = ?W and m = m and g = g] j sg sh by (simp add: dense_grad_input_def)
  qed (use sh sg in \<open>simp_all add: dense_grad_input_def\<close>)
  show ?thesis
    using assms(2) sh sg m loop upd fb fw di by (simp add: dense_backward_def dim_def Let_def)
qed

subsection \<open>Properties of \<^verbatim>\<open>Dense\<close>\<close>

text \<open>C13: after a forward call with fitting shapes and an upstream gradient of shape
  \<open>(B, out)\<close>, \<^verbatim>\<open>Dense.backward\<close> returns \<open>G W\<^sup>T\<close> computed with the old weights, and
  updates \<open>b := b - lr * (\<Sum>i. G[i]) / B\<close> and
  \<open>W := W - lr * (\<Sum>i. input[i] \<otimes> G[i]) / B\<close> in place, leaving the rest of the layer
  unchanged.\<close>

theorem dense_backward_correct:
  assumes "dense_backward_ok layer g" "dense_input layer = Some input"
  shows "dense_backward layer g lr
       = Inr (layer\<lparr>dense_biases := tabulate [dense_out_channels layer] (\<lambda>j.
                  entry (dense_biases layer) j - lr * (entry (dense_grad_bias g) j / real (shape input ! 0))),
                dense_weights := tabulate (shape (dense_weights layer)) (\<lambda>j.
                  entry (dense_weights layer) j - lr * (entry (dense_grad_weights input g) j / real (shape input ! 0)))\<rparr>,
              dense_grad_input layer g)"
  using assms by (rule dense_backward_eq)

theorem dense_backward_correct_witness: "dense_backward demo_dense \<lparr>shape = [2, 1], data = [1, 2]\<rparr> (1 / 10)
   = Inr (demo_dense\<lparr>dense_biases := \<lparr>shape = [1], data = [- 3 / 20]\<rparr>, dense_weights := \<lparr>shape = [2, 1], data = [53 / 20, - 3 / 2]\<rparr>\<rparr>,
          \<lparr>shape = [2, 2], data = [3, -1, 6, -2]\<rparr>)"
proof -
  let ?G = "\<lparr>shape = [2, 1], data = [1, 2 :: real]\<rparr>"
  have ok: "dense_backward_ok demo_dense ?G"
    by (simp add: dense_backward_ok_def dense_shapes_ok_def demo_dense_def dense_new_def)
  have inp: "dense_input demo_dense = Some \<lparr>shape = [2, 2], data = [1, 2, 3, 4]\<rparr>"
    by (simp add: demo_dense_def)
  have s2: "\<And>f. (\<Sum>i<2::nat. f i) = f 0 + (f 1 :: real)" by (simp add: numeral_2_eq_2)
  have gb: "dense_grad_bias ?G = \<lparr>shape = [1], data = [3]\<rparr>"
    by (simp add: dense_grad_bias_def tabulate_def s2 entry_def)
  have gw: "dense_grad_weights \<lparr>shape = [2, 2], data = [1, 2, 3, 4]\<rparr> ?G = \<lparr>shape = [2, 1], data = [7, 10]\<rparr>"
    by (simp add: dense_grad_weights_def tabulate_def s2 entry_def upt_rec)
  have gi: "dense_grad_input demo_dense ?G = \<lparr>shape = [2, 2], data = [3, -1, 6, -2]\<rparr>"
    by (simp add: dense_grad_input_def demo_dense_def dense_new_def tabulate_def entry_def upt_rec)
  have l: "demo_dense\<lparr>dense_biases := tabulate [dense_out_channels demo_dense] (\<lambda>j.
                  entry (dense_biases demo_dense) j - 1 / 10 * (entry \<lparr>shape = [1], data = [3]\<rparr> j / real 2)),
                dense_weights := tabulate (shape (dense_weights demo_dense)) (\<lambda>j.
                  entry (dense_weights demo_dense) j - 1 / 10 * (entry \<lparr>shape = [2, 1], data = [7, 10]\<rparr> j / real 2))\<rparr>
      = demo_dense\<lparr>dense_biases := \<lparr>shape = [1], data = [- 3 / 20]\<rparr>, dense_weights := \<lparr>shape = [2, 1], data = [53 / 20, - 3 / 2]\<rparr>\<rparr>"
    by (simp add: demo_dense_def dense_new_def tabulate_def entry_def upt_rec zeros_def)
  show ?thesis
    using dense_backward_correct [OF ok inp, of "1 / 10"] gb gw gi l by simp
qed
lemma dense_grads_zero:
  assumes "shape input = [b, n]" "shape (dense_weights layer) = [n, m]"
  shows "dense_grad_bias (zeros [b, m]) = zeros [m]" "dense_grad_weights input (zeros [b, m]) = zeros [n, m]"
    "dense_grad_input layer (zeros [b, m]) = zeros [b, n]"
proof -
  show "dense_grad_bias (zeros [b, m]) = zeros [m]"
  proof (rule arr_ext)
    fix j assume "in_bounds (shape (dense_grad_bias (zeros [b, m]))) j"
    then obtain oc where "j = [oc]" "oc < m" by (auto simp: dense_grad_bias_def elim!: in_bounds.elims)
    then show "entry (dense_grad_bias (zeros [b, m])) j = entry (zeros [m]) j"
      by (simp add: dense_grad_bias_def)
  qed (simp_all add: dense_grad_bias_def)
  show "dense_grad_weights input (zeros [b, m]) = zeros [n, m]"
  proof (rule arr_ext)
    fix j assume "in_bounds (shape (dense_grad_weights input (zeros [b, m]))) j"
    then obtain ic oc where "j = [ic, oc]" "ic < n" "oc < m"
      using assms by (auto simp: dense_grad_weights_def elim!: in_bounds.elims)
    then show "entry (dense_grad_weights input (zeros [b, m])) j = entry (zeros [n, m]) j"
      using assms by (simp add: dense_grad_weights_def)
  qed (use assms in \<open>simp_all add: dense_grad_weights_def\<close>)
  show "dense_grad_input layer (zeros [b, m]) = zeros [b, n]"
  proof (rule arr_ext)
    fix j assume "in_bounds (shape (dense_grad_input layer (zeros [b, m]))) j"
    then obtain i ic where "j = [i, ic]" "i < b" "ic < n"
      using assms by (auto simp: dense_grad_input_def elim!: in_bounds.elims)
    then show "entry (dense_grad_input layer (zeros [b, m])) j = entry (zeros [b, n]) j"
      using assms by (simp add: dense_grad_input_def)
  qed (use assms in \<open>simp_all add: dense_grad_input_def\<close>)
qed

text \<open>C16: the specification's zero-gradient property for \<^verbatim>\<open>Dense\<close>: after a forward
  call, a zero upstream gradient leaves weights and biases unchanged and returns a zero
  input gradient.\<close>

theorem dense_backward_zero_grad:
  assumes "dense_backward_ok layer (zeros ds)" "dense_input layer = Some input"
  shows "dense_backward layer (zeros ds) lr = Inr (layer, zeros (shape input))"
proof -
  have ok: "dense_shapes_ok layer input" "shape (dense_weights layer) ! 1 = dense_out_channels layer"
    "ds = [shape input ! 0, dense_out_channels layer]"
    using assms by (simp_all add: dense_backward_ok_def)
  obtain b n m where sh: "shape input = [b, n]" "shape (dense_weights layer) = [n, m]" "shape (dense_biases layer) = [m]"
    "0 < b" "wf_arr input" "wf_arr (dense_weights layer)" "wf_arr (dense_biases layer)"
    using ok(1) by (rule dense_shapes_okE)
  have ds: "ds = [b, m]" "dense_out_channels layer = m" using ok sh by simp_all
  note z = dense_grads_zero [OF sh(1,2)]
  have W: "tabulate (shape (dense_weights layer)) (\<lambda>j. entry (dense_weights layer) j - lr * (entry (zeros [n, m]) j / real b))
      = dense_weights layer"
    by (rule arr_ext) (use sh in simp_all)
  have B: "tabulate [m] (\<lambda>j. entry (dense_biases layer) j - lr * (entry (zeros [m]) j / real b)) = dense_biases layer"
    by (rule arr_ext) (use sh in simp_all)
  show ?thesis
    using dense_backward_eq [OF assms, of lr] z W B sh ds by simp
qed

theorem dense_backward_zero_grad_witness:
  "dense_backward demo_dense (zeros [2, 1]) (1 / 10) = Inr (demo_dense, zeros [2, 2])"
proof -
  have ok: "dense_backward_ok demo_dense (zeros [2, 1])"
    by (simp add: dense_backward_ok_def dense_shapes_ok_def demo_dense_def dense_new_def)
  have inp: "dense_input demo_dense = Some \<lparr>shape = [2, 2], data = [1, 2, 3, 4]\<rparr>"
    by (simp add: demo_dense_def)
  show ?thesis using dense_backward_zero_grad [OF ok inp, of "1 / 10"] by (simp add: inp)
qed

text \<open>C15: with fitting shapes and the tag \<open>relu\<close>, \<^verbatim>\<open>Dense.forward\<close> stores the input
  and the pre-activation \<open>z = input W + b\<close> and returns \<open>max(0, z)\<close>.\<close>

theorem dense_forward_relu:
  assumes "dense_shapes_ok layer input" "activation layer = ''relu''"
  shows "dense_forward layer input
       = Inr (layer\<lparr>dense_input := Some input, dense_z := Some (dense_preact layer input)\<rparr>, amap relu (dense_preact layer input))"
  using dense_forward_eq [OF assms(1)] assms(2) by (simp add: activation_function_def)

theorem dense_forward_relu_witness:
  "dense_forward (dense_new 2 1 ''relu'' \<lparr>shape = [2, 1], data = [3, -1]\<rparr>) \<lparr>shape = [2, 2], data = [1, 2, 3, 4]\<rparr>
     = Inr (demo_dense\<lparr>dense_z := Some \<lparr>shape = [2, 1], data = [1, 5]\<rparr>\<rparr>, \<lparr>shape = [2, 1], data = [1, 5]\<rparr>)"
proof -
  let ?L = "dense_new 2 1 ''relu'' \<lparr>shape = [2, 1], data = [3, -1 :: real]\<rparr>"
  let ?x = "\<lparr>shape = [2, 2], data = [1, 2, 3, 4 :: real]\<rparr>"
  have ok: "dense_shapes_ok ?L ?x" by (simp add: dense_shapes_ok_def dense_new_def)
  have act: "activation ?L = ''relu''" by (simp add: dense_new_def)
  have s2: "\<And>f. (\<Sum>i<2::nat. f i) = f 0 + (f 1 :: real)" by (simp add: numeral_2_eq_2)
  have z: "dense_preact ?L ?x = \<lparr>shape = [2, 1], data = [1, 5]\<rparr>"
    by (simp add: dense_preact_def dense_new_def tabulate_def entry_def s2 upt_rec zeros_def)
  show ?thesis
    using dense_forward_relu [OF ok act] z by (simp add: demo_dense_def amap_def relu_def)
qed

text \<open>C14: with fitting shapes, the tag \<open>softmax\<close> and at least one output, the
  numerically stable softmax of \<^verbatim>\<open>activation_function\<close> (shift by the row maximum)
  equals the textbook softmax \<open>exp z / \<Sum> exp z\<close> of the pre-activation, and every
  output row is a probability distribution with positive entries.\<close>

theorem dense_forward_softmax:
  assumes "dense_shapes_ok layer input" "activation layer = ''softmax''" "0 < shape (dense_weights layer) ! 1"
  shows "dense_forward layer input
           = Inr (layer\<lparr>dense_input := Some input, dense_z := Some (dense_preact layer input)\<rparr>,
                  softmax_spec (dense_preact layer input))
         \<and> (\<forall>i < shape input ! 0. (\<Sum>k<shape (dense_weights layer) ! 1. entry (softmax_spec (dense_preact layer input)) [i, k]) = 1)
         \<and> (\<forall>idx. in_bounds (shape (dense_preact layer input)) idx \<longrightarrow> 0 < entry (softmax_spec (dense_preact layer input)) idx)"
proof -
  obtain b n m where sh: "shape input = [b, n]" "shape (dense_weights layer) = [n, m]" "shape (dense_biases layer) = [m]"
    using assms(1) by (rule dense_shapes_okE)
  have z: "shape (dense_preact layer input) = [b, m]" using sh by (simp add: dense_preact_def)
  have m: "0 < m" using assms(3) sh by simp
  show ?thesis
    using dense_forward_eq [OF assms(1)] assms(2) softmax_rows_eq [OF z m] softmax_spec_row_sum [OF z _ m]
      softmax_spec_pos [OF z] sh z by (simp add: activation_function_def)
qed

theorem dense_forward_softmax_witness:
  "\<exists>L out. dense_forward (dense_new 1 1 ''softmax'' \<lparr>shape = [1, 1], data = [2]\<rparr>) \<lparr>shape = [1, 1], data = [3]\<rparr> = Inr (L, out)
     \<and> entry out [0, 0] = 1"
proof -
  let ?L = "dense_new 1 1 ''softmax'' \<lparr>shape = [1, 1], data = [2 :: real]\<rparr>"
  let ?x = "\<lparr>shape = [1, 1], data = [3 :: real]\<rparr>"
  have ok: "dense_shapes_ok ?L ?x" by (simp add: dense_shapes_ok_def dense_new_def)
  have act: "activation ?L = ''softmax''" by (simp add: dense_new_def)
  have m: "0 < shape (dense_weights ?L) ! 1" by (simp add: dense_new_def)
  have "shape (dense_preact ?L ?x) = [1, 1]" by (simp add: dense_preact_def dense_new_def)
  then show ?thesis
    using dense_forward_softmax [OF ok act m] by (auto simp: dense_new_def)
qed

text \<open>C18: an activation tag other than \<open>relu\<close> and \<open>softmax\<close> is only rejected when
  \<^verbatim>\<open>forward\<close> applies it: the constructor accepts it, and \<^verbatim>\<open>forward\<close> raises
  \<open>ValueError\<close> after the affine map.\<close>

theorem dense_forward_unsupported_activation:
  assumes "dense_shapes_ok layer input" "activation layer \<noteq> ''relu''" "activation layer \<noteq> ''softmax''"
  shows "dense_forward layer input = Inl ValueError"
  using dense_forward_eq [OF assms(1)] assms(2,3) by (simp add: activation_function_def)

theorem dense_forward_unsupported_activation_witness:
  "activation (dense_new 1 1 ''tanh'' \<lparr>shape = [1, 1], data = [2]\<rparr>) = ''tanh''
   \<and> dense_forward (dense_new 1 1 ''tanh'' \<lparr>shape = [1, 1], data = [2]\<rparr>) \<lparr>shape = [1, 1], data = [3]\<rparr> = Inl ValueError"
proof -
  let ?L = "dense_new 1 1 ''tanh'' \<lparr>shape = [1, 1], data = [2 :: real]\<rparr>"
  have ok: "dense_shapes_ok ?L \<lparr>shape = [1, 1], data = [3 :: real]\<rparr>" by (simp add: dense_shapes_ok_def dense_new_def)
  have a: "activation ?L \<noteq> ''relu''" "activation ?L \<noteq> ''softmax''" by (simp_all add: dense_new_def)
  show ?thesis using dense_forward_unsupported_activation [OF ok a] by (simp add: dense_new_def)
qed

text \<open>\<^verbatim>\<open>Dense.backward\<close> never applies the derivative of the ReLU activation:
  a one-unit ReLU layer with weight 1 maps the input -1 to \<open>relu(-1) = 0\<close>, whose
  derivative with respect to the input is 0, yet the backward pass with upstream
  gradient 1 returns the input gradient 1 (the stored \<^verbatim>\<open>self.z\<close> is never read).\<close>

theorem dense_backward_ignores_relu:
  "\<exists>L L'. dense_forward (dense_new 1 1 ''relu'' \<lparr>shape = [1, 1], data = [1]\<rparr>) \<lparr>shape = [1, 1], data = [-1]\<rparr>
            = Inr (L, \<lparr>shape = [1, 1], data = [0]\<rparr>)
        \<and> dense_backward L \<lparr>shape = [1, 1], data = [1]\<rparr> lr = Inr (L', \<lparr>shape = [1, 1], data = [1]\<rparr>)"
proof -
  let ?L = "dense_new 1 1 ''relu'' \<lparr>shape = [1, 1], data = [1 :: real]\<rparr>"
  let ?x = "\<lparr>shape = [1, 1], data = [-1 :: real]\<rparr>"
  let ?L1 = "?L\<lparr>dense_input := Some ?x, dense_z := Some (dense_preact ?L ?x)\<rparr>"
  have ok: "dense_shapes_ok ?L ?x" by (simp add: dense_shapes_ok_def dense_new_def)
  have act: "activation ?L = ''relu''" by (simp add: dense_new_def)
  have z: "dense_preact ?L ?x = \<lparr>shape = [1, 1], data = [-1]\<rparr>"
    by (simp add: dense_preact_def dense_new_def tabulate_def entry_def zeros_def)
  have fwd: "dense_forward ?L ?x = Inr (?L1, \<lparr>shape = [1, 1], data = [0]\<rparr>)"
    using dense_forward_relu [OF ok act] z by (simp add: amap_def relu_def)
  have bok: "dense_backward_ok ?L1 \<lparr>shape = [1, 1], data = [1]\<rparr>"
    by (simp add: dense_backward_ok_def dense_shapes_ok_def dense_new_def)
  have gi: "dense_grad_input ?L1 \<lparr>shape = [1, 1], data = [1]\<rparr> = \<lparr>shape = [1, 1], data = [1]\<rparr>"
    by (simp add: dense_grad_input_def dense_new_def tabulate_def entry_def)
  show ?thesis
    using fwd dense_backward_eq [OF bok, of ?x lr] gi by auto
qed

text \<open>\<^verbatim>\<open>Dense.backward\<close> before any \<^verbatim>\<open>forward\<close> reads \<^verbatim>\<open>self.input.shape\<close> of
  \<^verbatim>\<open>None\<close> and raises \<open>AttributeError\<close>.\<close>

theorem dense_backward_before_forward:
  "dense_backward (dense_new n m act weights) g lr = Inl AttributeError"
  by (simp add: dense_backward_def dense_new_def)

text \<open>C17: an update keeps the layer's types: after \<^verbatim>\<open>Dense.backward\<close> succeeds, the
  weights and biases keep their shapes and buffer sizes, the stored input still fits them,
  the returned gradient has the shape of that input, and a further \<^verbatim>\<open>backward\<close> with an
  upstream gradient of the same shape is again in the state where it cannot raise.\<close>

theorem dense_backward_preserves_shapes:
  assumes ok: "dense_backward_ok layer g" and inp: "dense_input layer = Some input"
  shows "\<exists>L' d. dense_backward layer g lr = Inr (L', d) \<and> dense_shapes_ok L' input
     \<and> shape (dense_weights L') = shape (dense_weights layer) \<and> shape (dense_biases L') = shape (dense_biases layer)
     \<and> shape d = shape input \<and> wf_arr d \<and> dense_backward_ok L' g"
proof -
  have sok: "dense_shapes_ok layer input" and m: "shape (dense_weights layer) ! 1 = dense_out_channels layer"
    and sg: "shape g = [shape input ! 0, dense_out_channels layer]"
    using ok inp by (simp_all add: dense_backward_ok_def)
  obtain b n k where sh: "shape input = [b, n]" "shape (dense_weights layer) = [n, k]" "shape (dense_biases layer) = [k]"
    using sok by (rule dense_shapes_okE)
  have k: "k = dense_out_channels layer" using m sh by simp
  let ?L' = "layer\<lparr>dense_biases := tabulate [dense_out_channels layer] (\<lambda>j.
                  entry (dense_biases layer) j - lr * (entry (dense_grad_bias g) j / real (shape input ! 0))),
                dense_weights := tabulate (shape (dense_weights layer)) (\<lambda>j.
                  entry (dense_weights layer) j - lr * (entry (dense_grad_weights input g) j / real (shape input ! 0)))\<rparr>"
  have "dense_shapes_ok ?L' input"
    using sok sh k by (simp add: dense_shapes_ok_def)
  moreover have "dense_backward_ok ?L' g"
    using calculation inp sh k sg by (simp add: dense_backward_ok_def)
  ultimately show ?thesis
    using dense_backward_eq [OF ok inp, of lr] sh sg k by (simp add: dense_grad_input_def)
qed

theorem dense_backward_preserves_shapes_witness:
  "\<exists>L' d. dense_backward demo_dense \<lparr>shape = [2, 1], data = [1, 2]\<rparr> (1 / 10) = Inr (L', d)
     \<and> shape (dense_weights L') = [2, 1] \<and> shape d = [2, 2] \<and> dense_backward_ok L' \<lparr>shape = [2, 1], data = [1, 2]\<rparr>"
proof -
  have ok: "dense_backward_ok demo_dense \<lparr>shape = [2, 1], data = [1, 2]\<rparr>"
    by (simp add: dense_backward_ok_def dense_shapes_ok_def demo_dense_def dense_new_def)
  have inp: "dense_input demo_dense = Some \<lparr>shape = [2, 2], data = [1, 2, 3, 4]\<rparr>"
    by (simp add: demo_dense_def)
  show ?thesis
    using dense_backward_preserves_shapes [OF ok inp, of "1 / 10"] by (auto simp: demo_dense_def dense_new_def)
qed

end
