(* ===== verification/Loss.thy ===== *)
theory Loss
  imports NDArray
begin

text \<open>
  \<^verbatim>\<open>cross_entropy_loss\<close> and \<^verbatim>\<open>cross_entropy_gradient\<close> of \<^verbatim>\<open>src/main.py\<close>
  (lines 17--40). Both index the prediction matrix with the numpy fancy index
  \<^verbatim>\<open>[np.arange(batch_size), labels]\<close>: \<open>fancy_pairs\<close> is numpy's broadcasting of
  the two index arrays (equal lengths, or one of length 1; otherwise \<open>IndexError\<close>),
  and each label is a Python index into the class axis (\<open>py_idx\<close>: negative labels
  count from the end). The in-place \<^verbatim>\<open>gradient[...] -= 1\<close> reads the old values and
  writes them back decremented once per selected position, as numpy's buffered fancy
  assignment does.
\<close>

definition ce_epsilon :: real where
  "ce_epsilon = 1 / 10 ^ 15"

definition fancy_pairs :: "nat \<Rightarrow> int list \<Rightarrow> (nat \<times> int) list result" where
  "fancy_pairs b labels =
     (if length labels = b then Inr (zip [0..<b] labels)
      else if b = 1 then Inr (map (Pair 0) labels)
      else if length labels = 1 then Inr (map (\<lambda>i. (i, hd labels)) [0..<b])
      else Inl IndexError)"

definition cross_entropy_loss :: "real ndarray \<Rightarrow> int list \<Rightarrow> real result" where
  "cross_entropy_loss predictions labels =
     (case shape predictions of
       [batch_size, c] \<Rightarrow>
         ebind (fancy_pairs batch_size labels) (\<lambda>ps.
         ebind (emap (\<lambda>(i, l). ebind (py_idx c l) (\<lambda>j. get predictions [i, j])) ps) (\<lambda>correct_probs.
         Inr (- sum_list (map (\<lambda>p. ln (p + ce_epsilon)) correct_probs) / real batch_size)))
     | _ \<Rightarrow> Inl IndexError)"

definition cross_entropy_gradient :: "real ndarray \<Rightarrow> int list \<Rightarrow> real ndarray result" where
  "cross_entropy_gradient predictions labels =
     (case shape predictions of
       [batch_size, c] \<Rightarrow>
         ebind (fancy_pairs batch_size labels) (\<lambda>ps.
         ebind (emap (\<lambda>(i, l). ebind (py_idx c l) (\<lambda>j. Inr [i, j])) ps) (\<lambda>idxs.
         ebind (for_each idxs (\<lambda>idx gradient. upd gradient idx (entry predictions idx - 1)) predictions)
           (\<lambda>gradient. Inr (amap (\<lambda>x. x / real batch_size) gradient))))
     | _ \<Rightarrow> Inl IndexError)"

text \<open>
  The closed forms: the mean negative log-likelihood of the labelled classes, and
  \<open>(p - onehot) / B\<close>, for a batch of \<open>B\<close> rows and one label in \<open>[0, C)\<close> per row.
\<close>

definition labels_ok :: "nat \<Rightarrow> nat \<Rightarrow> int list \<Rightarrow> bool" where
  "labels_ok b c labels \<longleftrightarrow> length labels = b \<and> list_all (\<lambda>l. 0 \<le> l \<and> l < int c) labels"

definition ce_loss_spec :: "real ndarray \<Rightarrow> int list \<Rightarrow> real" where
  "ce_loss_spec p labels =
     - (\<Sum>i<length labels. ln (entry p [i, nat (labels ! i)] + ce_epsilon)) / real (length labels)"

definition ce_grad_spec :: "real ndarray \<Rightarrow> int list \<Rightarrow> real ndarray" where
  "ce_grad_spec p labels =
     tabulate (shape p) (\<lambda>idx. case idx of
        [i, j] \<Rightarrow> (entry p [i, j] - (if int j = labels ! i then 1 else 0)) / real (length labels)
      | _ \<Rightarrow> 0)"

subsection \<open>Lemmas\<close>

text \<open>How numpy reads a class index in \<open>[-C, C)\<close>: a negative label counts from the end
  of the class axis.\<close>

definition wrap_label :: "nat \<Rightarrow> int \<Rightarrow> int" where
  "wrap_label c l = (if l < 0 then l + int c else l)"

lemma labels_ok_nth:
  "labels_ok b c labels \<Longrightarrow> i < b \<Longrightarrow> 0 \<le> labels ! i \<and> labels ! i < int c"
  by (auto simp: labels_ok_def list_all_length)

lemma fancy_pairs_same_length [simp]:
  "length labels = b \<Longrightarrow> fancy_pairs b labels = Inr (zip [0..<b] labels)"
  by (simp add: fancy_pairs_def)

lemma ce_gradient_indices:
  assumes "labels_ok b c labels"
  shows "emap (\<lambda>(i, l). ebind (py_idx c l) (\<lambda>j. Inr [i, j])) (zip [0..<b] labels)
       = Inr (map (\<lambda>i. [i, nat (labels ! i)]) [0..<b])"
proof -
  have "emap (\<lambda>(i, l). ebind (py_idx c l) (\<lambda>j. Inr [i, j])) (zip [0..<b] labels)
      = Inr (map (\<lambda>(i, l). [i, nat l]) (zip [0..<b] labels))"
    by (rule emap_Inr) (use assms in \<open>auto simp: labels_ok_def list_all_iff set_zip\<close>)
  also have "map (\<lambda>(i, l). [i, nat l]) (zip [0..<b] labels) = map (\<lambda>i. [i, nat (labels ! i)]) [0..<b]"
    using assms by (auto simp: labels_ok_def intro: nth_equalityI)
  finally show ?thesis .
qed

lemma ce_gradient_loop:
  assumes "wf_arr p" "shape p = [b, c]" "labels_ok b c labels"
  shows "cross_entropy_gradient p labels
       = Inr (amap (\<lambda>x. x / real b)
           (fold (\<lambda>idx g. setv g idx (entry p idx - 1)) (map (\<lambda>i. [i, nat (labels ! i)]) [0..<b]) p))"
proof -
  have len: "length labels = b" using assms(3) by (simp add: labels_ok_def)
  have "for_each (map (\<lambda>i. [i, nat (labels ! i)]) [0..<b]) (\<lambda>idx g. upd g idx (entry p idx - 1)) p
      = Inr (fold (\<lambda>idx g. setv g idx (entry p idx - 1)) (map (\<lambda>i. [i, nat (labels ! i)]) [0..<b]) p)"
    by (rule for_each_upd) (use assms(2,3) labels_ok_nth in fastforce)
  then show ?thesis
    using assms len by (simp add: cross_entropy_gradient_def ce_gradient_indices)
qed

lemma ce_loss_probs:
  assumes "shape p = [b, c]" "labels_ok b c labels"
  shows "emap (\<lambda>(i, l). ebind (py_idx c l) (\<lambda>j. get p [i, j])) (zip [0..<b] labels)
       = Inr (map (\<lambda>i. entry p [i, nat (labels ! i)]) [0..<b])"
proof -
  have "emap (\<lambda>(i, l). ebind (py_idx c l) (\<lambda>j. get p [i, j])) (zip [0..<b] labels)
      = Inr (map (\<lambda>(i, l). entry p [i, nat l]) (zip [0..<b] labels))"
    by (rule emap_Inr) (use assms labels_ok_nth in \<open>fastforce simp: labels_ok_def set_zip\<close>)
  also have "map (\<lambda>(i, l). entry p [i, nat l]) (zip [0..<b] labels) = map (\<lambda>i. entry p [i, nat (labels ! i)]) [0..<b]"
    using assms by (auto simp: labels_ok_def intro: nth_equalityI)
  finally show ?thesis .
qed

lemma py_idx_wrap_label:
  "- int c \<le> l \<Longrightarrow> l < int c \<Longrightarrow> py_idx c (wrap_label c l) = py_idx c l"
  by (simp add: py_idx_def wrap_label_def add.commute)

lemma labels_ok_wrap:
  assumes "length labels = b" "list_all (\<lambda>l. - int c \<le> l \<and> l < int c) labels"
  shows "labels_ok b c (map (wrap_label c) labels)"
  using assms by (auto simp: labels_ok_def list_all_iff wrap_label_def)

text \<open>Replacing each label by its wrapped form changes no index the fancy indexing
  computes, for any body that reads the label only through \<open>py_idx\<close>.\<close>

lemma emap_zip_wrap:
  assumes "list_all (\<lambda>l. - int c \<le> l \<and> l < int c) labels"
  shows "emap (\<lambda>(i, l). ebind (py_idx c l) (f i)) (zip xs (map (wrap_label c) labels))
       = emap (\<lambda>(i, l). ebind (py_idx c l) (f i)) (zip xs labels)"
proof -
  let ?F = "\<lambda>(i, l). ebind (py_idx c l) (f i)"
  have z: "zip xs (map (wrap_label c) labels) = map (\<lambda>(i, l). (i, wrap_label c l)) (zip xs labels)"
    by (simp add: zip_map2)
  have "emap ?F (zip xs (map (wrap_label c) labels)) = emap (\<lambda>x. ?F ((\<lambda>(i, l). (i, wrap_label c l)) x)) (zip xs labels)"
    by (simp only: z emap_map)
  also have "\<dots> = emap ?F (zip xs labels)"
    by (rule emap_cong) (use assms in \<open>auto simp: list_all_iff py_idx_wrap_label dest: set_zip_rightD\<close>)
  finally show ?thesis .
qed

lemma ce_loss_eq_spec:
  assumes "shape p = [b, c]" "labels_ok b c labels"
  shows "cross_entropy_loss p labels = Inr (ce_loss_spec p labels)"
proof -
  have len: "length labels = b" using assms(2) by (simp add: labels_ok_def)
  then show ?thesis
    using assms ce_loss_probs [OF assms]
    by (simp add: cross_entropy_loss_def ce_loss_spec_def sum_list_map_upt_sum comp_def)
qed

lemma ce_gradient_eq_spec:
  assumes "wf_arr p" "shape p = [b, c]" "labels_ok b c labels"
  shows "cross_entropy_gradient p labels = Inr (ce_grad_spec p labels)"
proof -
  let ?xs = "map (\<lambda>i. [i, nat (labels ! i)]) [0..<b]"
  have len: "length labels = b" using assms(3) by (simp add: labels_ok_def)
  have inb: "\<And>x. x \<in> set ?xs \<Longrightarrow> in_bounds (shape p) x"
    using assms(2,3) labels_ok_nth by fastforce
  have "amap (\<lambda>x. x / real b) (fold (\<lambda>idx g. setv g idx (entry p idx - 1)) ?xs p) = ce_grad_spec p labels"
  proof (rule arr_ext)
    fix idx assume idx: "in_bounds (shape (amap (\<lambda>x. x / real b) (fold (\<lambda>idx g. setv g idx (entry p idx - 1)) ?xs p))) idx"
    then obtain i j where ij: "idx = [i, j]" "i < b" "j < c"
      using assms(2) by (auto elim!: in_bounds.elims)
    have mem: "[i, j] \<in> set ?xs \<longleftrightarrow> int j = labels ! i"
      using ij labels_ok_nth [OF assms(3) ij(2)] by auto
    have e: "entry (fold (\<lambda>idx g. setv g idx (entry p idx - 1)) ?xs p) [i, j]
           = (if int j = labels ! i then entry p [i, j] - 1 else entry p [i, j])"
      unfolding mem [symmetric] by (rule entry_fold_setv) (use assms inb ij in auto)
    show "entry (amap (\<lambda>x. x / real b) (fold (\<lambda>idx g. setv g idx (entry p idx - 1)) ?xs p)) idx
             = entry (ce_grad_spec p labels) idx"
      using ij assms len e by (simp add: ce_grad_spec_def)
  qed (use assms len in \<open>simp_all add: ce_grad_spec_def\<close>)
  then show ?thesis using ce_gradient_loop [OF assms] by simp
qed

subsection \<open>Correctness of the loss and of its gradient\<close>

text \<open>C19: on a well-formed \<open>B \<times> C\<close> prediction matrix and one label in \<open>[0, C)\<close> per row,
  \<^verbatim>\<open>cross_entropy_gradient\<close> returns \<open>(p - onehot(labels)) / B\<close>.\<close>

theorem cross_entropy_gradient_correct:
  assumes "wf_arr p" "shape p = [b, c]" "labels_ok b c labels"
  shows "cross_entropy_gradient p labels = Inr (ce_grad_spec p labels)"
  using assms by (rule ce_gradient_eq_spec)

theorem cross_entropy_gradient_correct_witness:
  "wf_arr \<lparr>shape = [2, 2], data = [0.25, 0.75, 0.5, 0.5 :: real]\<rparr> \<and> labels_ok 2 2 [1, 0]
   \<and> cross_entropy_gradient \<lparr>shape = [2, 2], data = [0.25, 0.75, 0.5, 0.5]\<rparr> [1, 0]
       = Inr (ce_grad_spec \<lparr>shape = [2, 2], data = [0.25, 0.75, 0.5, 0.5]\<rparr> [1, 0])"
proof -
  let ?p = "\<lparr>shape = [2, 2], data = [0.25, 0.75, 0.5, 0.5 :: real]\<rparr>"
  have h1: "wf_arr ?p" by (simp add: wf_arr_def)
  have h2: "shape ?p = [2, 2]" by simp
  have h3: "labels_ok 2 2 [1, 0]" by (simp add: labels_ok_def)
  show ?thesis using h1 h3 cross_entropy_gradient_correct [OF h1 h2 h3] by blast
qed

text \<open>C20: under the same conditions \<^verbatim>\<open>cross_entropy_loss\<close> is the mean over the batch of
  \<open>-log(p[i, label i] + 1e-15)\<close>.\<close>

theorem cross_entropy_loss_correct:
  assumes "shape p = [b, c]" "labels_ok b c labels"
  shows "cross_entropy_loss p labels = Inr (ce_loss_spec p labels)"
  using assms by (rule ce_loss_eq_spec)

theorem cross_entropy_loss_correct_witness:
  "shape \<lparr>shape = [2, 2], data = [0.25, 0.75, 0.5, 0.5 :: real]\<rparr> = [2, 2] \<and> labels_ok 2 2 [1, 0]
   \<and> cross_entropy_loss \<lparr>shape = [2, 2], data = [0.25, 0.75, 0.5, 0.5]\<rparr> [1, 0]
       = Inr (ce_loss_spec \<lparr>shape = [2, 2], data = [0.25, 0.75, 0.5, 0.5]\<rparr> [1, 0])"
proof -
  let ?p = "\<lparr>shape = [2, 2], data = [0.25, 0.75, 0.5, 0.5 :: real]\<rparr>"
  have h1: "shape ?p = [2, 2]" by simp
  have h2: "labels_ok 2 2 [1, 0]" by (simp add: labels_ok_def)
  show ?thesis using h1 h2 cross_entropy_loss_correct [OF h1 h2] by blast
qed

text \<open>C21: for each row of the batch, the gradient row sums to \<open>(\<Sum> p - 1) / B\<close>; for the
  softmax rows the program feeds it (rows summing to 1) every gradient row sums to 0.\<close>

theorem cross_entropy_gradient_row_sum:
  assumes "wf_arr p" "shape p = [b, c]" "labels_ok b c labels" "i < b"
    and "cross_entropy_gradient p labels = Inr g"
  shows "(\<Sum>j<c. entry g [i, j]) = ((\<Sum>j<c. entry p [i, j]) - 1) / real b"
proof -
  have g: "g = ce_grad_spec p labels"
    using assms(5) ce_gradient_eq_spec [OF assms(1-3)] by simp
  have lab: "0 \<le> labels ! i" "labels ! i < int c" "length labels = b"
    using labels_ok_nth [OF assms(3,4)] assms(3) by (simp_all add: labels_ok_def)
  have "(\<Sum>j<c. entry g [i, j]) = (\<Sum>j<c. (entry p [i, j] - (if j = nat (labels ! i) then 1 else 0)) / real b)"
    using assms(2,4) lab by (intro sum.cong) (auto simp: g ce_grad_spec_def)
  also have "\<dots> = ((\<Sum>j<c. entry p [i, j]) - (\<Sum>j<c. if j = nat (labels ! i) then 1 else 0)) / real b"
    by (simp add: sum_divide_distrib [symmetric] sum_subtractf)
  also have "(\<Sum>j<c. if j = nat (labels ! i) then 1 else (0::real)) = 1"
    using lab by (simp add: sum.delta)
  finally show ?thesis .
qed

theorem cross_entropy_gradient_row_sum_witness:
  "wf_arr \<lparr>shape = [1, 3], data = [0.7, 0.1, 0.2 :: real]\<rparr> \<and> labels_ok 1 3 [0]
   \<and> cross_entropy_gradient \<lparr>shape = [1, 3], data = [0.7, 0.1, 0.2]\<rparr> [0]
       = Inr \<lparr>shape = [1, 3], data = [-0.3, 0.1, 0.2]\<rparr>
   \<and> (\<Sum>j<3. entry \<lparr>shape = [1, 3], data = [-0.3, 0.1, 0.2 :: real]\<rparr> [0, j])
       = ((\<Sum>j<3. entry \<lparr>shape = [1, 3], data = [0.7, 0.1, 0.2 :: real]\<rparr> [0, j]) - 1) / real (1::nat)"
proof -
  let ?p = "\<lparr>shape = [1, 3], data = [0.7, 0.1, 0.2 :: real]\<rparr>"
  let ?g = "\<lparr>shape = [1, 3], data = [-0.3, 0.1, 0.2 :: real]\<rparr>"
  have h1: "wf_arr ?p" by (simp add: wf_arr_def)
  have h2: "shape ?p = [1, 3]" by simp
  have h3: "labels_ok 1 3 [0]" by (simp add: labels_ok_def)
  have h5: "cross_entropy_gradient ?p [0] = Inr ?g"
    by (simp add: cross_entropy_gradient_def upd_def setv_def entry_def amap_def)
  show ?thesis
    using h1 h3 h5 cross_entropy_gradient_row_sum [OF h1 h2 h3 _ h5, of 0] by simp
qed

text \<open>The specification's example: predictions \<open>[[0.7, 0.1, 0.2]]\<close>, label \<open>[0]\<close> give the
  gradient \<open>[[-0.3, 0.1, 0.2]]\<close>.\<close>

theorem cross_entropy_gradient_example:
  "cross_entropy_gradient \<lparr>shape = [1, 3], data = [0.7, 0.1, 0.2]\<rparr> [0]
     = Inr \<lparr>shape = [1, 3], data = [-0.3, 0.1, 0.2]\<rparr>"
  by (simp add: cross_entropy_gradient_def upd_def setv_def entry_def amap_def)

text \<open>The specification's example: the loss of predictions \<open>[[0.7, 0.1, 0.2]]\<close> with label \<open>[0]\<close>
  is \<open>-log(0.7 + 1e-15)\<close> (about 0.3567).\<close>

theorem cross_entropy_loss_example:
  "cross_entropy_loss \<lparr>shape = [1, 3], data = [0.7, 0.1, 0.2]\<rparr> [0] = Inr (- ln (0.7 + ce_epsilon))"
  by (simp add: cross_entropy_loss_def get_def entry_def)

text \<open>C22: a label at or beyond the number of classes raises \<open>IndexError\<close> in both
  functions.\<close>

theorem cross_entropy_label_out_of_range:
  assumes "shape p = [b, c]" "length labels = b" "i < b" "int c \<le> labels ! i"
  shows "cross_entropy_gradient p labels = Inl IndexError \<and> cross_entropy_loss p labels = Inl IndexError"
proof -
  have mem: "(i, labels ! i) \<in> set (zip [0..<b] labels)"
    using assms(2,3) by (auto simp: in_set_zip intro!: exI [of _ i])
  have err: "py_idx c (labels ! i) = Inl IndexError"
    using assms(4) by (simp add: py_idx_def)
  have only: "\<And>l. py_idx c l = Inl IndexError \<or> (\<exists>j. py_idx c l = Inr j)"
    by (simp add: py_idx_def)
  have "emap (\<lambda>(i, l). ebind (py_idx c l) (\<lambda>j. Inr [i, j])) (zip [0..<b] labels) = Inl IndexError"
  proof (rule emap_Inl [OF mem])
    fix y :: "nat \<times> int"
    obtain k l where "y = (k, l)" by fastforce
    then show "(case y of (i, l) \<Rightarrow> ebind (py_idx c l) (\<lambda>j. Inr [i, j])) = Inl IndexError
        \<or> (\<exists>z. (case y of (i, l) \<Rightarrow> ebind (py_idx c l) (\<lambda>j. Inr [i, j])) = Inr z)"
      using only [of l] by auto
  qed (use err in simp)
  moreover have "emap (\<lambda>(i, l). ebind (py_idx c l) (\<lambda>j. get p [i, j])) (zip [0..<b] labels) = Inl IndexError"
  proof (rule emap_Inl [OF mem])
    fix y assume "y \<in> set (zip [0..<b] labels)"
    then obtain k l where "y = (k, l)" "k < b" by (auto simp: set_zip)
    then show "(case y of (i, l) \<Rightarrow> ebind (py_idx c l) (\<lambda>j. get p [i, j])) = Inl IndexError
        \<or> (\<exists>z. (case y of (i, l) \<Rightarrow> ebind (py_idx c l) (\<lambda>j. get p [i, j])) = Inr z)"
      using only [of l] assms(1) by (auto simp: get_def)
  qed (use err in simp)
  ultimately show ?thesis
    using assms(1,2) by (simp add: cross_entropy_gradient_def cross_entropy_loss_def)
qed

theorem cross_entropy_label_out_of_range_witness:
  "shape \<lparr>shape = [1, 3], data = [0.7, 0.1, 0.2 :: real]\<rparr> = [1, 3] \<and> length [3::int] = 1
   \<and> (0::nat) < 1 \<and> int 3 \<le> [3::int] ! 0
   \<and> cross_entropy_gradient \<lparr>shape = [1, 3], data = [0.7, 0.1, 0.2]\<rparr> [3] = Inl IndexError
   \<and> cross_entropy_loss \<lparr>shape = [1, 3], data = [0.7, 0.1, 0.2]\<rparr> [3] = Inl IndexError"
  using cross_entropy_label_out_of_range [of "\<lparr>shape = [1, 3], data = [0.7, 0.1, 0.2 :: real]\<rparr>" 1 3 "[3]" 0]
  by simp

text \<open>C23: a negative label is not rejected: numpy reads a label \<open>l\<close> in \<open>[-C, 0)\<close> from the
  end of the class axis, so both functions raise nothing and behave exactly as if the
  label were \<open>C + l\<close>: for labels in \<open>[-C, C)\<close> they return the closed forms of the
  wrapped labels, and a label \<open>-1\<close> trains towards the last class.\<close>

theorem cross_entropy_negative_labels_wrap:
  assumes "wf_arr p" "shape p = [b, c]" "length labels = b" "list_all (\<lambda>l. - int c \<le> l \<and> l < int c) labels"
  shows "cross_entropy_gradient p labels = Inr (ce_grad_spec p (map (wrap_label c) labels))
       \<and> cross_entropy_loss p labels = Inr (ce_loss_spec p (map (wrap_label c) labels))"
proof -
  have ok: "labels_ok b c (map (wrap_label c) labels)" using assms(3,4) by (rule labels_ok_wrap)
  have g: "cross_entropy_gradient p labels = cross_entropy_gradient p (map (wrap_label c) labels)"
    using assms(2,3) emap_zip_wrap [OF assms(4), of "\<lambda>i j. Inr [i, j]" "[0..<b]"]
    by (simp add: cross_entropy_gradient_def fancy_pairs_def)
  have l: "cross_entropy_loss p labels = cross_entropy_loss p (map (wrap_label c) labels)"
    using assms(2,3) emap_zip_wrap [OF assms(4), of "\<lambda>i j. get p [i, j]" "[0..<b]"]
    by (simp add: cross_entropy_loss_def fancy_pairs_def)
  show ?thesis
    using g l ce_gradient_eq_spec [OF assms(1,2) ok] ce_loss_eq_spec [OF assms(2) ok] by simp
qed

text \<open>C24: the loss is bounded by the epsilon: when every labelled probability lies in
  \<open>[0, 1]\<close>, the loss lies in \<open>[-ln (1 + 1e-15), -ln 1e-15]\<close>; the lower bound, which is
  negative, is reached exactly when every labelled probability is 1, so the reported loss
  of a perfect prediction is slightly below 0.\<close>

theorem cross_entropy_loss_bounds:
  assumes sh: "shape p = [b, c]" and lab: "labels_ok b c labels" and b: "0 < b"
    and pr: "\<forall>i<b. 0 \<le> entry p [i, nat (labels ! i)] \<and> entry p [i, nat (labels ! i)] \<le> 1"
  shows "\<exists>L. cross_entropy_loss p labels = Inr L \<and> - ln (1 + ce_epsilon) \<le> L \<and> L \<le> - ln ce_epsilon
           \<and> (L = - ln (1 + ce_epsilon) \<longleftrightarrow> (\<forall>i<b. entry p [i, nat (labels ! i)] = 1))
           \<and> - ln (1 + ce_epsilon) < 0"
proof -
  let ?q = "\<lambda>i. entry p [i, nat (labels ! i)]" and ?e = ce_epsilon
  have e: "0 < ?e" by (simp add: ce_epsilon_def)
  have len: "length labels = b" using lab by (simp add: labels_ok_def)
  let ?L = "- (\<Sum>i<b. ln (?q i + ?e)) / real b"
  have L: "cross_entropy_loss p labels = Inr ?L" using ce_loss_eq_spec [OF sh lab] len by (simp add: ce_loss_spec_def)
  have lo: "ln ?e \<le> ln (?q i + ?e)" if "i < b" for i
    using pr that e by (subst ln_le_cancel_iff) auto
  have hi: "ln (?q i + ?e) \<le> ln (1 + ?e)" if "i < b" for i
    using pr that e by (subst ln_le_cancel_iff) auto
  have s_hi: "(\<Sum>i<b. ln (?q i + ?e)) \<le> real b * ln (1 + ?e)"
    using sum_mono [of "{..<b}" "\<lambda>i. ln (?q i + ?e)" "\<lambda>_. ln (1 + ?e)"] hi by simp
  have s_lo: "real b * ln ?e \<le> (\<Sum>i<b. ln (?q i + ?e))"
    using sum_mono [of "{..<b}" "\<lambda>_. ln ?e" "\<lambda>i. ln (?q i + ?e)"] lo by simp
  have "- ln (1 + ?e) \<le> ?L" using s_hi b by (simp add: field_simps)
  moreover have "?L \<le> - ln ?e" using s_lo b by (simp add: field_simps)
  moreover have "?L = - ln (1 + ?e) \<longleftrightarrow> (\<forall>i<b. ?q i = 1)"
  proof -
    have "?L = - ln (1 + ?e) \<longleftrightarrow> (\<Sum>i<b. ln (1 + ?e) - ln (?q i + ?e)) = 0"
      using b by (simp add: sum_subtractf field_simps) (rule eq_commute)
    also have "\<dots> \<longleftrightarrow> (\<forall>i<b. ln (1 + ?e) - ln (?q i + ?e) = 0)"
      using hi by (subst sum_nonneg_eq_0_iff) auto
    also have "\<dots> \<longleftrightarrow> (\<forall>i<b. ?q i = 1)"
    proof -
      have "ln (1 + ?e) - ln (?q i + ?e) = 0 \<longleftrightarrow> ?q i = 1" if "i < b" for i
      proof -
        have "0 < ?q i + ?e" using pr that e by (simp add: add_nonneg_pos)
        then have "ln (?q i + ?e) = ln (1 + ?e) \<longleftrightarrow> ?q i + ?e = 1 + ?e" using e by (intro ln_inj_iff) simp_all
        then show ?thesis by auto
      qed
      then show ?thesis by auto
    qed
    finally show ?thesis .
  qed
  moreover have "- ln (1 + ?e) < 0" using e by simp
  ultimately show ?thesis using L by blast
qed

theorem cross_entropy_negative_labels_wrap_witness:
  "cross_entropy_gradient \<lparr>shape = [1, 3], data = [0.7, 0.1, 0.2]\<rparr> [-1]
     = Inr (ce_grad_spec \<lparr>shape = [1, 3], data = [0.7, 0.1, 0.2]\<rparr> [2])
   \<and> cross_entropy_loss \<lparr>shape = [1, 3], data = [0.7, 0.1, 0.2]\<rparr> [-1]
     = Inr (ce_loss_spec \<lparr>shape = [1, 3], data = [0.7, 0.1, 0.2]\<rparr> [2])"
  using cross_entropy_negative_labels_wrap [of "\<lparr>shape = [1, 3], data = [0.7, 0.1, 0.2 :: real]\<rparr>" 1 3 "[-1]"]
  by (simp add: wrap_label_def)

theorem cross_entropy_loss_bounds_witness:
  "\<exists>L. cross_entropy_loss \<lparr>shape = [1, 2], data = [1, 0]\<rparr> [0] = Inr L \<and> L = - ln (1 + ce_epsilon) \<and> L < 0"
proof -
  have sh: "shape \<lparr>shape = [1, 2], data = [1, 0 :: real]\<rparr> = [1, 2]" by simp
  have lab: "labels_ok 1 2 [0]" by (simp add: labels_ok_def)
  have pr: "\<forall>i<1. 0 \<le> entry \<lparr>shape = [1, 2], data = [1, 0 :: real]\<rparr> [i, nat ([0] ! i)]
      \<and> entry \<lparr>shape = [1, 2], data = [1, 0 :: real]\<rparr> [i, nat ([0] ! i)] \<le> 1"
    by (simp add: entry_def)
  have one: "\<forall>i<1. entry \<lparr>shape = [1, 2], data = [1, 0 :: real]\<rparr> [i, nat ([0] ! i)] = 1"
    by (simp add: entry_def)
  show ?thesis using cross_entropy_loss_bounds [OF sh lab _ pr] one by auto
qed

end
