(* ===== verification/Sequential.thy ===== *)
theory Sequential
  imports Conv2d MaxPool Dense Loss
begin

text \<open>
  The class \<^verbatim>\<open>Sequential\<close> of \<^verbatim>\<open>src/main.py\<close> (lines 255--354). The spatial
  layers (convolution or pooling) meet the orchestrator through one interface, the
  datatype \<open>spatial_layer\<close> with \<open>spatial_forward\<close> and \<open>spatial_backward\<close>, which
  dispatch to the layer theories. A layer object mutated in place by its own
  \<^verbatim>\<open>forward\<close> or \<^verbatim>\<open>backward\<close> is modelled by replacing it in the orchestrator's
  list with the layer the operation returns. \<^verbatim>\<open>forward\<close> runs the spatial layers in
  order, records the last spatial shape, flattens each sample row-major, stacks the rows
  and runs the dense layers in order; \<^verbatim>\<open>backward\<close> runs the dense layers from the
  last to the first, unflattens with the recorded shape, and runs the spatial layers
  from the last to the first. \<^verbatim>\<open>fit\<close> loops over epochs and over contiguous batches
  (with the \<^verbatim>\<open>break\<close> of the source), and returns the final network, the final
  predictions and the loss values it prints.
\<close>

datatype spatial_layer = ConvLayer conv2d | PoolLayer maxpool

definition spatial_forward :: "spatial_layer \<Rightarrow> real ndarray \<Rightarrow> (spatial_layer \<times> real ndarray) result" where
  "spatial_forward l x =
     (case l of
        ConvLayer c \<Rightarrow> ebind (conv_forward c x) (\<lambda>(c', y). Inr (ConvLayer c', y))
      | PoolLayer p \<Rightarrow> ebind (pool_forward p x) (\<lambda>(p', y). Inr (PoolLayer p', y)))"

definition spatial_backward :: "spatial_layer \<Rightarrow> real ndarray \<Rightarrow> real \<Rightarrow> (spatial_layer \<times> real ndarray) result" where
  "spatial_backward l g lr =
     (case l of
        ConvLayer c \<Rightarrow> ebind (conv_backward c g lr) (\<lambda>(c', d). Inr (ConvLayer c', d))
      | PoolLayer p \<Rightarrow> ebind (pool_backward p g lr) (\<lambda>(p', d). Inr (PoolLayer p', d)))"

text \<open>The transient input a spatial layer stored in its last \<^verbatim>\<open>forward\<close>.\<close>

definition spatial_input :: "spatial_layer \<Rightarrow> real ndarray option" where
  "spatial_input l = (case l of ConvLayer c \<Rightarrow> conv_input c | PoolLayer p \<Rightarrow> pool_input p)"

record sequential =
  conv_pool_layers :: "spatial_layer list"
  dense_layers :: "dense list"
  conv_pool_outputs :: "real ndarray list"
  dense_outputs :: "real ndarray list"
  last_conv_output_shape :: "nat list option"

definition sequential_new :: sequential where
  "sequential_new = \<lparr>conv_pool_layers = [], dense_layers = [], conv_pool_outputs = [], dense_outputs = [],
                     last_conv_output_shape = None\<rparr>"

definition add_conv_pool_layer :: "sequential \<Rightarrow> spatial_layer \<Rightarrow> sequential" where
  "add_conv_pool_layer s l = s\<lparr>conv_pool_layers := conv_pool_layers s @ [l]\<rparr>"

definition add_dense_layer :: "sequential \<Rightarrow> dense \<Rightarrow> sequential" where
  "add_dense_layer s l = s\<lparr>dense_layers := dense_layers s @ [l]\<rparr>"

text \<open>The forward loops (lines 306--308 and 317--319): each layer's output is the next
  layer's input and is appended to the list of outputs.\<close>

fun spatial_forward_all ::
  "spatial_layer list \<Rightarrow> real ndarray \<Rightarrow> (spatial_layer list \<times> real ndarray list \<times> real ndarray) result" where
  "spatial_forward_all [] x = Inr ([], [], x)"
| "spatial_forward_all (l # ls) x =
     ebind (spatial_forward l x) (\<lambda>(l', y).
     ebind (spatial_forward_all ls y) (\<lambda>(ls', outs, z). Inr (l' # ls', y # outs, z)))"

fun dense_forward_all :: "dense list \<Rightarrow> real ndarray \<Rightarrow> (dense list \<times> real ndarray list \<times> real ndarray) result" where
  "dense_forward_all [] x = Inr ([], [], x)"
| "dense_forward_all (l # ls) x =
     ebind (dense_forward l x) (\<lambda>(l', y).
     ebind (dense_forward_all ls y) (\<lambda>(ls', outs, z). Inr (l' # ls', y # outs, z)))"

text \<open>\<^verbatim>\<open>flatten(tensor)\<close> of sample \<open>i\<close> (lines 336--337): the values in the order
  height, width, channel.\<close>

definition seq_flatten :: "real ndarray \<Rightarrow> nat \<Rightarrow> real list" where
  "seq_flatten a i = map (\<lambda>idx. entry a (i # idx)) (all_indices (tl (shape a)))"

text \<open>\<^verbatim>\<open>[self.flatten(tensor) for tensor in current_input]\<close>: three nested iterations
  below the batch axis, so an array of rank below 4 makes Python iterate over a scalar
  (\<open>TypeError\<close>); ranks above 4 are outside the model.\<close>

definition flatten_batch :: "real ndarray \<Rightarrow> real list list result" where
  "flatten_batch a =
     (case shape a of
        [b, h, w, c] \<Rightarrow> Inr (map (seq_flatten a) [0..<b])
      | ds \<Rightarrow> if length ds < 4 then Inl TypeError else Inl ValueError)"

text \<open>The rows of numpy's \<^verbatim>\<open>a.reshape(b, k)\<close> for a row-major buffer of \<open>b * k\<close>
  values: row \<open>i\<close> is the \<open>i\<close>-th block of \<open>k\<close> consecutive values.\<close>

definition reshape_rows :: "nat \<Rightarrow> nat \<Rightarrow> 'a list \<Rightarrow> 'a list list" where
  "reshape_rows b k xs = map (\<lambda>i. take k (drop (i * k) xs)) [0..<b]"

definition seq_forward :: "sequential \<Rightarrow> real ndarray \<Rightarrow> (sequential \<times> real ndarray) result" where
  "seq_forward s0 input =
     (let s = s0\<lparr>conv_pool_outputs := [], dense_outputs := []\<rparr> in
      ebind (spatial_forward_all (conv_pool_layers s) input) (\<lambda>(cls, couts, current_input).
      let s = s\<lparr>conv_pool_layers := cls, conv_pool_outputs := couts,
                last_conv_output_shape := Some (shape current_input)\<rparr> in
      ebind (flatten_batch current_input) (\<lambda>flat_input.
      ebind (dense_forward_all (dense_layers s) (np_array_rows flat_input)) (\<lambda>(dls, douts, out).
      Inr (s\<lparr>dense_layers := dls, dense_outputs := douts\<rparr>, out)))))"

text \<open>The backward loops (lines 327--328 and 333--334) run from the last layer to the
  first.\<close>

fun dense_backward_all :: "dense list \<Rightarrow> real ndarray \<Rightarrow> real \<Rightarrow> (dense list \<times> real ndarray) result" where
  "dense_backward_all [] g lr = Inr ([], g)"
| "dense_backward_all (l # ls) g lr =
     ebind (dense_backward_all ls g lr) (\<lambda>(ls', g').
     ebind (dense_backward l g' lr) (\<lambda>(l', g''). Inr (l' # ls', g'')))"

fun spatial_backward_all :: "spatial_layer list \<Rightarrow> real ndarray \<Rightarrow> real \<Rightarrow> (spatial_layer list \<times> real ndarray) result" where
  "spatial_backward_all [] g lr = Inr ([], g)"
| "spatial_backward_all (l # ls) g lr =
     ebind (spatial_backward_all ls g lr) (\<lambda>(ls', g').
     ebind (spatial_backward l g' lr) (\<lambda>(l', g''). Inr (l' # ls', g'')))"

text \<open>\<^verbatim>\<open>unflatten\<close> (lines 339--354): \<^verbatim>\<open>np.zeros(None)\<close> raises \<open>TypeError\<close> before
  any forward call; the counter \<^verbatim>\<open>index\<close> restarts at 0 for every sample. A recorded
  shape of rank other than 4 (which \<^verbatim>\<open>forward\<close> never leaves behind) is reported as
  \<open>IndexError\<close>.\<close>

definition unflatten :: "sequential \<Rightarrow> real ndarray \<Rightarrow> real ndarray result" where
  "unflatten s flat =
     (case last_conv_output_shape s of
        None \<Rightarrow> Inl TypeError
      | Some [b, h, w, c] \<Rightarrow>
          for_each [0..<b] (\<lambda>i tensor.
            ebind (for_each [0..<h] (\<lambda>j. for_each [0..<w] (\<lambda>k. for_each [0..<c] (\<lambda>l (tensor, index).
                     ebind (get flat [i, index]) (\<lambda>v.
                     ebind (upd tensor [i, j, k, l] v) (\<lambda>tensor. Inr (tensor, index + 1))))))
                     (tensor, 0))
              (\<lambda>(tensor, index). Inr tensor))
            (zeros [b, h, w, c])
      | Some _ \<Rightarrow> Inl IndexError)"

definition seq_backward :: "sequential \<Rightarrow> real ndarray \<Rightarrow> real \<Rightarrow> sequential result" where
  "seq_backward s dL_dout learning_rate =
     ebind (dense_backward_all (dense_layers s) dL_dout learning_rate) (\<lambda>(dls, current_dL_dout).
     let s = s\<lparr>dense_layers := dls\<rparr> in
     ebind (unflatten s current_dL_dout) (\<lambda>current_dL_dout_conv.
     ebind (spatial_backward_all (conv_pool_layers s) current_dL_dout_conv learning_rate) (\<lambda>(cls, _).
     Inr (s\<lparr>conv_pool_layers := cls\<rparr>))))"

subsection \<open>Training\<close>

text \<open>\<^verbatim>\<open>len(a)\<close> of an array, and the slices \<^verbatim>\<open>a[s:e]\<close> of an array along its first
  axis and of a list, clipped as Python clips them.\<close>

definition py_len :: "'a ndarray \<Rightarrow> nat result" where
  "py_len a = (case shape a of [] \<Rightarrow> Inl TypeError | d # _ \<Rightarrow> Inr d)"

definition slice_batch :: "real ndarray \<Rightarrow> nat \<Rightarrow> nat \<Rightarrow> real ndarray result" where
  "slice_batch a s e =
     (case shape a of
        [] \<Rightarrow> Inl IndexError
      | d # ds \<Rightarrow>
          (let e' = min e d; s' = min s e' in
           Inr \<lparr>shape = (e' - s') # ds, data = take ((e' - s') * prod_list ds) (drop (s' * prod_list ds) (data a))\<rparr>))"

definition list_slice :: "'a list \<Rightarrow> nat \<Rightarrow> nat \<Rightarrow> 'a list" where
  "list_slice xs s e = take (e - s) (drop s xs)"

text \<open>One batch of \<^verbatim>\<open>fit\<close> (lines 277--285): forward, gradient, backward, and the
  loss weighted by \<^verbatim>\<open>end_index - start_index + 1\<close>.\<close>

definition fit_step ::
  "real ndarray \<Rightarrow> int list \<Rightarrow> nat \<Rightarrow> real \<Rightarrow> nat \<Rightarrow> nat \<Rightarrow> sequential \<times> real \<Rightarrow> (sequential \<times> real) result" where
  "fit_step input_images labels batch_size learning_rate n i =
     (\<lambda>(s, total_loss).
      let start_index = i * batch_size; end_index = min (start_index + batch_size) n in
      ebind (slice_batch input_images start_index end_index) (\<lambda>batch.
      ebind (seq_forward s batch) (\<lambda>(s, batch_predictions).
      ebind (cross_entropy_gradient batch_predictions (list_slice labels start_index end_index)) (\<lambda>dL_dout.
      ebind (seq_backward s dL_dout learning_rate) (\<lambda>s.
      ebind (cross_entropy_loss batch_predictions (list_slice labels start_index end_index)) (\<lambda>loss.
      Inr (s, total_loss + loss * real (end_index - start_index + 1))))))))"

text \<open>The batch loop \<^verbatim>\<open>for i in range(len(input_images))\<close> with its \<^verbatim>\<open>break\<close> once
  \<^verbatim>\<open>start_index >= len(input_images)\<close>, for any step function.\<close>

fun fit_batches :: "nat \<Rightarrow> nat \<Rightarrow> (nat \<Rightarrow> 's \<Rightarrow> 's result) \<Rightarrow> nat list \<Rightarrow> 's \<Rightarrow> 's result" where
  "fit_batches n batch_size step [] st = Inr st"
| "fit_batches n batch_size step (i # is) st =
     (if n \<le> i * batch_size then Inr st else ebind (step i st) (fit_batches n batch_size step is))"

text \<open>The epoch loop (lines 271--290). The printed value \<^verbatim>\<open>total_loss / len(input_images)\<close>
  is computed at the first epoch, every tenth epoch after it and the last one; on an empty
  dataset \<^verbatim>\<open>total_loss\<close> is still the integer 0 and the division raises.\<close>

fun fit_epochs ::
  "real ndarray \<Rightarrow> int list \<Rightarrow> nat \<Rightarrow> real \<Rightarrow> nat \<Rightarrow> nat list \<Rightarrow> sequential \<times> real list \<Rightarrow> (sequential \<times> real list) result" where
  "fit_epochs input_images labels batch_size learning_rate epochs [] st = Inr st"
| "fit_epochs input_images labels batch_size learning_rate epochs (epoch # es) (s, printed) =
     ebind (py_len input_images) (\<lambda>n.
     ebind (fit_batches n batch_size (fit_step input_images labels batch_size learning_rate n) [0..<n] (s, 0))
       (\<lambda>(s, total_loss).
     ebind (if epoch mod 10 = 1 \<or> epoch = epochs then
              (if n = 0 then Inl ZeroDivisionError else Inr (printed @ [total_loss / real n]))
            else Inr printed) (\<lambda>printed.
     fit_epochs input_images labels batch_size learning_rate epochs es (s, printed))))"

definition fit :: "sequential \<Rightarrow> nat \<Rightarrow> real ndarray \<Rightarrow> int list \<Rightarrow> nat \<Rightarrow> real \<Rightarrow>
    (sequential \<times> real ndarray \<times> real list) result" where
  "fit s epochs input_images labels batch_size learning_rate =
     ebind (fit_epochs input_images labels batch_size learning_rate epochs [1..<epochs + 1] (s, [])) (\<lambda>(s, printed).
     ebind (seq_forward s input_images) (\<lambda>(s, predictions).
     Inr (s, predictions, printed)))"

subsection \<open>Flattening\<close>

lemma length_seq_flatten: "length (seq_flatten a i) = prod_list (tl (shape a))"
  by (simp add: seq_flatten_def)

lemma unflatten_inner:
  assumes "shape t = [b, h, w, c]" "i < b" "shape flat = [b, n]" "j0 + length xs \<le> n"
    and "\<And>k. k \<in> set xs \<Longrightarrow> in_bounds [h, w, c] k"
    and "\<And>p. p < length xs \<Longrightarrow> entry flat [i, j0 + p] = f (xs ! p)"
  shows "for_each xs (\<lambda>k (tensor, index). ebind (get flat [i, index]) (\<lambda>v.
            ebind (upd tensor (i # k) v) (\<lambda>tensor. Inr (tensor, index + 1)))) (t, j0)
       = Inr (fold (\<lambda>k t. setv t (i # k) (f k)) xs t, j0 + length xs)"
  using assms
proof (induction xs arbitrary: t j0)
  case Nil then show ?case by simp
next
  case (Cons x xs)
  have x: "in_bounds [h, w, c] x" using Cons.prems(5) by simp
  have fx: "entry flat [i, j0] = f x" using Cons.prems(6) [of 0] by simp
  have rest: "\<And>p. p < length xs \<Longrightarrow> entry flat [i, Suc j0 + p] = f (xs ! p)"
    using Cons.prems(6) by (metis Suc_less_eq add_Suc_shift length_Cons nth_Cons_Suc)
  have ih: "for_each xs (\<lambda>k (tensor, index). ebind (get flat [i, index]) (\<lambda>v.
            ebind (upd tensor (i # k) v) (\<lambda>tensor. Inr (tensor, index + 1)))) (setv t (i # x) (f x), Suc j0)
       = Inr (fold (\<lambda>k t. setv t (i # k) (f k)) xs (setv t (i # x) (f x)), Suc j0 + length xs)"
    by (rule Cons.IH) (use Cons.prems rest in simp_all)
  show ?case using Cons.prems x fx ih by simp
qed

lemma unflatten_eq:
  assumes sh: "last_conv_output_shape s = Some [b, h, w, c]" and sf: "shape flat = [b, h * w * c]"
  shows "unflatten s flat = Inr (tabulate [b, h, w, c] (\<lambda>idx. entry flat [idx ! 0, offset [h, w, c] (tl idx)]))"
proof -
  let ?ks = "all_indices [h, w, c]"
  let ?f = "\<lambda>i k. entry flat [i, offset [h, w, c] k]"
  let ?body = "\<lambda>i k (tensor, index). ebind (get flat [i, index]) (\<lambda>v.
            ebind (upd tensor (i # k) v) (\<lambda>tensor. Inr (tensor, index + 1)))"
  have inner: "for_each [0..<h] (\<lambda>j. for_each [0..<w] (\<lambda>k. for_each [0..<c] (\<lambda>l (tensor, index).
                     ebind (get flat [i, index]) (\<lambda>v.
                     ebind (upd tensor [i, j, k, l] v) (\<lambda>tensor. Inr (tensor, index + 1))))))
                     (t, 0)
      = Inr (fold (\<lambda>k t. setv t (i # k) (?f i k)) ?ks t, length ?ks)"
    if "shape t = [b, h, w, c]" "i < b" for i t
  proof -
    have "for_each [0..<h] (\<lambda>j. for_each [0..<w] (\<lambda>k. for_each [0..<c] (\<lambda>l (tensor, index).
                     ebind (get flat [i, index]) (\<lambda>v.
                     ebind (upd tensor [i, j, k, l] v) (\<lambda>tensor. Inr (tensor, index + 1))))))
                     (t, 0)
        = for_each ?ks (?body i) (t, 0)"
      unfolding for_each_nest3
      by (rule for_each_cong) (auto simp: in_all_indices3)
    also have "\<dots> = Inr (fold (\<lambda>k t. setv t (i # k) (?f i k)) ?ks t, 0 + length ?ks)"
      by (rule unflatten_inner [where n = "h * w * c"]) (use that sf in \<open>simp_all del: all_indices.simps add: offset_nth_all_indices mult.assoc\<close>)
    finally show ?thesis by simp
  qed
  let ?P = "\<lambda>t. shape t = [b, h, w, c]"
  have "for_each [0..<b] (\<lambda>i tensor.
            ebind (for_each [0..<h] (\<lambda>j. for_each [0..<w] (\<lambda>k. for_each [0..<c] (\<lambda>l (tensor, index).
                     ebind (get flat [i, index]) (\<lambda>v.
                     ebind (upd tensor [i, j, k, l] v) (\<lambda>tensor. Inr (tensor, index + 1))))))
                     (tensor, 0))
              (\<lambda>(tensor, index). Inr tensor))
            (zeros [b, h, w, c])
      = Inr (fold (\<lambda>i. fold (\<lambda>k t. setv t (i # k) (?f i k)) ?ks) [0..<b] (zeros [b, h, w, c]))
      \<and> ?P (fold (\<lambda>i. fold (\<lambda>k t. setv t (i # k) (?f i k)) ?ks) [0..<b] (zeros [b, h, w, c]))"
  proof (rule for_each_fold_inv)
    fix i and t :: "real ndarray" assume "i \<in> set [0..<b]" "?P t"
    then show "ebind (for_each [0..<h] (\<lambda>j. for_each [0..<w] (\<lambda>k. for_each [0..<c] (\<lambda>l (tensor, index).
                     ebind (get flat [i, index]) (\<lambda>v.
                     ebind (upd tensor [i, j, k, l] v) (\<lambda>tensor. Inr (tensor, index + 1))))))
                     (t, 0))
              (\<lambda>(tensor, index). Inr tensor)
        = Inr (fold (\<lambda>k t. setv t (i # k) (?f i k)) ?ks t) \<and> ?P (fold (\<lambda>k t. setv t (i # k) (?f i k)) ?ks t)"
      using inner [of t i] by (simp del: all_indices.simps)
  qed simp
  moreover have "fold (\<lambda>i. fold (\<lambda>k t. setv t (i # k) (?f i k)) ?ks) [0..<b] (zeros [b, h, w, c])
      = tabulate [b, h, w, c] (\<lambda>idx. entry flat [idx ! 0, offset [h, w, c] (tl idx)])"
  proof -
    have "fold (\<lambda>i. fold (\<lambda>k t. setv t (i # k) (?f i k)) ?ks) [0..<b]
        = fold (\<lambda>idx t. setv t idx (entry flat [idx ! 0, offset [h, w, c] (tl idx)])) (all_indices [b, h, w, c])"
      by (simp only: all_indices.simps(2) [of b] fold_concat fold_map) (simp del: all_indices.simps add: fold_map comp_def)
    then show ?thesis by (simp only: fold_setv_zeros)
  qed
  ultimately show ?thesis using sh by (simp add: unflatten_def)
qed

lemma flatten_rows_entry:
  assumes "shape a = [b, h, w, c]" "0 < b" "i < b" "k \<in> set (all_indices [h, w, c])"
  shows "entry (np_array_rows (map (seq_flatten a) [0..<b])) [i, offset [h, w, c] k] = entry a (i # k)"
proof -
  have len: "\<And>j. length (seq_flatten a j) = h * w * c" using assms(1) by (simp add: length_seq_flatten)
  have off: "offset [h, w, c] k < h * w * c"
    using offset_lt [of "[h, w, c]" k] assms(4) by (simp del: all_indices.simps add: mult.assoc)
  have sh: "shape (np_array_rows (map (seq_flatten a) [0..<b])) = [b, h * w * c]"
    using assms(2) len by (cases b) (simp_all add: np_array_rows_def upt_conv_Cons del: upt_Suc)
  have "entry (np_array_rows (map (seq_flatten a) [0..<b])) [i, offset [h, w, c] k]
      = concat (map (seq_flatten a) [0..<b]) ! (i * (h * w * c) + offset [h, w, c] k)"
    using assms(2) len by (cases b) (simp_all add: np_array_rows_def entry_def upt_conv_Cons del: upt_Suc)
  also have "\<dots> = seq_flatten a i ! offset [h, w, c] k"
    by (rule nth_concat_rows) (use len assms(3) off in simp_all)
  also have "\<dots> = entry a (i # k)"
    using assms(1,4) off by (simp del: all_indices.simps add: seq_flatten_def nth_all_indices_offset mult.assoc)
  finally show ?thesis .
qed

text \<open>C25: the specification's round trip: for every well-formed four-dimensional array, the
  flattening of \<^verbatim>\<open>forward\<close> succeeds and \<^verbatim>\<open>unflatten\<close> with the recorded shape
  rebuilds exactly the original array, for any batch size including 0.\<close>

theorem seq_flatten_roundtrip:
  assumes "wf_arr a" "shape a = [b, h, w, c]"
  shows "flatten_batch a = Inr (map (seq_flatten a) [0..<b])
       \<and> unflatten (s\<lparr>last_conv_output_shape := Some (shape a)\<rparr>) (np_array_rows (map (seq_flatten a) [0..<b])) = Inr a"
proof (cases b)
  case 0
  have "zeros [0, h, w, c] = a"
    by (rule arr_ext) (use assms 0 in \<open>auto elim!: in_bounds.elims\<close>)
  then show ?thesis using assms 0 by (simp add: flatten_batch_def unflatten_def np_array_rows_def)
next
  case (Suc b')
  let ?flat = "np_array_rows (map (seq_flatten a) [0..<b])"
  have len: "\<And>j. length (seq_flatten a j) = h * w * c" using assms(2) by (simp add: length_seq_flatten)
  have sf: "shape ?flat = [b, h * w * c]" using Suc len by (simp add: np_array_rows_def upt_conv_Cons del: upt_Suc)
  have "tabulate [b, h, w, c] (\<lambda>idx. entry ?flat [idx ! 0, offset [h, w, c] (tl idx)]) = a"
  proof (rule arr_ext)
    fix j assume "in_bounds (shape (tabulate [b, h, w, c] (\<lambda>idx. entry ?flat [idx ! 0, offset [h, w, c] (tl idx)]))) j"
    then obtain i k where j: "j = i # k" "i < b" "k \<in> set (all_indices [h, w, c])"
      by (cases j) (simp_all del: all_indices.simps)
    show "entry (tabulate [b, h, w, c] (\<lambda>idx. entry ?flat [idx ! 0, offset [h, w, c] (tl idx)])) j = entry a j"
      using flatten_rows_entry [OF assms(2) _ j(2,3)] j Suc by (simp del: all_indices.simps)
  qed (use assms in simp_all)
  then show ?thesis
    using unflatten_eq [of "s\<lparr>last_conv_output_shape := Some (shape a)\<rparr>" b h w c ?flat] assms sf
    by (simp add: flatten_batch_def)
qed

lemma seq_flatten_block:
  assumes wf: "wf_arr a" and sh: "shape a = [b, h, w, c]" and i: "i < b"
  shows "seq_flatten a i = take (h * w * c) (drop (i * (h * w * c)) (data a))"
proof (rule nth_equalityI)
  have len: "length (data a) = b * (h * w * c)" using wf sh by (simp add: wf_arr_def)
  have "(i + 1) * (h * w * c) \<le> b * (h * w * c)" using i by (intro mult_le_mono1) simp
  then have room: "h * w * c \<le> length (data a) - i * (h * w * c)" using len by (simp add: algebra_simps)
  show "length (seq_flatten a i) = length (take (h * w * c) (drop (i * (h * w * c)) (data a)))"
    using sh room by (simp add: length_seq_flatten min_absorb1)
  fix j assume "j < length (seq_flatten a i)"
  then have j: "j < h * w * c" using sh by (simp add: length_seq_flatten)
  have "offset [h, w, c] (all_indices [h, w, c] ! j) = j"
    using j by (intro offset_nth_all_indices) (simp add: mult.assoc)
  then show "seq_flatten a i ! j = take (h * w * c) (drop (i * (h * w * c)) (data a)) ! j"
    using sh j room by (simp del: all_indices.simps add: seq_flatten_def entry_def mult.assoc)
qed

subsection \<open>The batch loop of \<^verbatim>\<open>fit\<close>\<close>

lemma fit_batches_append:
  "(\<And>i. i \<in> set xs \<Longrightarrow> i * bs < n) \<Longrightarrow>
   fit_batches n bs step (xs @ ys) st = ebind (for_each xs step st) (fit_batches n bs step ys)"
proof (induction xs arbitrary: st)
  case Nil then show ?case by simp
next
  case (Cons a xs)
  have "\<not> n \<le> a * bs" using Cons.prems [of a] by simp
  then show ?case using Cons by (simp add: ebind_def split: sum.split)
qed

lemma less_batch_count: "0 < bs \<Longrightarrow> i < (n + bs - 1) div bs \<longleftrightarrow> i * bs < n" for bs n i :: nat
proof -
  assume bs: "0 < bs"
  have "i < (n + bs - 1) div bs \<longleftrightarrow> Suc i * bs \<le> n + bs - 1"
    using bs by (simp add: Suc_le_eq [symmetric] less_eq_div_iff_mult_less_eq)
  also have "\<dots> \<longleftrightarrow> i * bs < n" using bs by auto
  finally show ?thesis .
qed

lemma batch_count_le: "0 < bs \<Longrightarrow> (n + bs - 1) div bs \<le> n" for bs n :: nat
proof -
  assume bs: "0 < bs"
  show ?thesis
  proof (cases n)
    case 0 then show ?thesis using bs by simp
  next
    case (Suc m)
    have "(n + bs - 1) div bs \<le> (n + bs - 1) div 1" using bs by (intro div_le_mono2) simp_all
    then show ?thesis using bs Suc by simp
  qed
qed

lemma concat_batches:
  "0 < bs \<Longrightarrow> concat (map (\<lambda>i. [i * bs..<min (i * bs + bs) n]) [0..<k]) = [0..<min (k * bs) n]"
proof (induction k)
  case 0 then show ?case by simp
next
  case (Suc k)
  show ?case
  proof (cases "k * bs \<le> n")
    case True
    then have "[0..<min (k * bs) n] @ [k * bs..<min (k * bs + bs) n] = [0..<min (Suc k * bs) n]"
      by (simp add: min_def upt_append add.commute)
    then show ?thesis using Suc by simp
  next
    case False
    then show ?thesis using Suc by (simp add: min_def)
  qed
qed

lemma fit_batches_eq:
  assumes "0 < bs"
  shows "fit_batches n bs step [0..<n] st = for_each [0..<(n + bs - 1) div bs] step st"
proof -
  let ?q = "(n + bs - 1) div bs"
  have q: "?q \<le> n" using batch_count_le [OF assms] .
  have split: "[0..<n] = [0..<?q] @ [?q..<n]" using q by (simp add: upt_append)
  have pre: "\<And>i. i \<in> set [0..<?q] \<Longrightarrow> i * bs < n" using less_batch_count [OF assms] by simp
  have stop: "fit_batches n bs step [?q..<n] st' = Inr st'" for st'
  proof (cases "?q < n")
    case True
    then have "[?q..<n] = ?q # [Suc ?q..<n]" by (simp add: upt_conv_Cons)
    moreover have "n \<le> ?q * bs" using less_batch_count [OF assms, of ?q n] by simp
    ultimately show ?thesis by simp
  next
    case False then show ?thesis by simp
  qed
  have "fit_batches n bs step [0..<n] st = fit_batches n bs step ([0..<?q] @ [?q..<n]) st"
    by (subst split) (rule refl)
  also have "\<dots> = ebind (for_each [0..<?q] step st) (fit_batches n bs step [?q..<n])"
    by (rule fit_batches_append [OF pre])
  also have "\<dots> = for_each [0..<?q] step st"
    by (simp only: ebind_def stop split: sum.split) simp
  finally show ?thesis .
qed

lemma slice_batch_all:
  "wf_arr a \<Longrightarrow> shape a = n # ds \<Longrightarrow> slice_batch a 0 n = Inr a"
  by (simp add: slice_batch_def wf_arr_def)

lemma single_batch_count: "0 < n \<Longrightarrow> n \<le> bs \<Longrightarrow> (n + bs - 1) div bs = 1" for n bs :: nat
  by (simp add: le_div_geq div_less)

text \<open>C31: one epoch of \<^verbatim>\<open>fit\<close> over a dataset of \<open>n > 0\<close> samples that fits in one batch is
  forward, gradient, backward on the whole dataset, then the final forward; the printed
  loss is the batch loss weighted by \<open>n + 1\<close> samples and divided by \<open>n\<close>, that is
  \<open>(n + 1) / n\<close> times the mean cross-entropy (the off-by-one noted in the specification).\<close>

theorem fit_loss_weighting:
  assumes "shape images = n # ds" "wf_arr images" "0 < n" "n \<le> batch_size"
    and "seq_forward s images = Inr (s1, P)"
    and "cross_entropy_gradient P (take n labels) = Inr G"
    and "seq_backward s1 G lr = Inr s2"
    and "cross_entropy_loss P (take n labels) = Inr L"
    and "seq_forward s2 images = Inr (s3, P')"
  shows "fit s 1 images labels batch_size lr = Inr (s3, P', [L * real (n + 1) / real n])"
proof -
  have bs: "0 < batch_size" using assms(3,4) by simp
  have step: "fit_step images labels batch_size lr n 0 (s, 0) = Inr (s2, L * real (n + 1))"
    using assms slice_batch_all [OF assms(2,1)] by (simp add: fit_step_def list_slice_def min_absorb2)
  have "fit_batches n batch_size (fit_step images labels batch_size lr n) [0..<n] (s, 0)
      = for_each [0..<(n + batch_size - 1) div batch_size] (fit_step images labels batch_size lr n) (s, 0)"
    by (rule fit_batches_eq [OF bs])
  also have "\<dots> = Inr (s2, L * real (n + 1))"
    by (simp only: single_batch_count [OF assms(3,4)]) (simp add: step)
  finally have "fit_batches n batch_size (fit_step images labels batch_size lr n) [0..<n] (s, 0) = Inr (s2, L * real (n + 1))" .
  then show ?thesis using assms(1,3,9) by (simp add: fit_def py_len_def)
qed

text \<open>C33: \<^verbatim>\<open>fit\<close> with at least one epoch on an empty dataset raises
  \<open>ZeroDivisionError\<close>: the batch loop never runs, \<^verbatim>\<open>total_loss\<close> stays the integer
  0, and the first epoch always prints \<^verbatim>\<open>total_loss / len(input_images)\<close>.\<close>

theorem fit_empty_dataset:
  assumes "shape images = 0 # ds" "0 < epochs"
  shows "fit s epochs images labels batch_size lr = Inl ZeroDivisionError"
proof -
  have "[1..<epochs + 1] = 1 # [Suc 1..<epochs + 1]" by (rule upt_conv_Cons) (use assms(2) in simp)
  then show ?thesis using assms(1) by (simp add: fit_def py_len_def)
qed

subsection \<open>Transient state after \<^verbatim>\<open>forward\<close>\<close>

lemma conv_forward_stores_input: "conv_forward c x = Inr (c', y) \<Longrightarrow> conv_input c' = Some x"
  by (cases "kernel_size c") (auto simp: conv_forward_def ebind_eq_Inr Let_def split: prod.splits)

lemma pool_forward_stores_input: "pool_forward p x = Inr (p', y) \<Longrightarrow> pool_input p' = Some x"
  by (auto simp: pool_forward_def ebind_eq_Inr Let_def split: prod.splits)

lemma dense_forward_stores_input: "dense_forward l x = Inr (l', y) \<Longrightarrow> dense_input l' = Some x"
  by (auto simp: dense_forward_def ebind_eq_Inr Let_def split: list.splits prod.splits)

lemma spatial_forward_stores_input: "spatial_forward l x = Inr (l', y) \<Longrightarrow> spatial_input l' = Some x"
  by (auto simp: spatial_forward_def spatial_input_def ebind_eq_Inr conv_forward_stores_input
      pool_forward_stores_input split: spatial_layer.splits)

lemma spatial_forward_all_state:
  "spatial_forward_all ls x = Inr (ls', outs, z) \<Longrightarrow>
   length ls' = length ls \<and> length outs = length ls \<and> z = last (x # outs) \<and>
   (\<forall>i < length ls. spatial_input (ls' ! i) = Some ((x # outs) ! i))"
proof (induction ls arbitrary: x ls' outs z)
  case Nil then show ?case by simp
next
  case (Cons l ls)
  from Cons.prems obtain l' y ls'' outs' where
    f: "spatial_forward l x = Inr (l', y)" and r: "spatial_forward_all ls y = Inr (ls'', outs', z)"
    and e: "ls' = l' # ls''" "outs = y # outs'"
    by (auto simp: ebind_eq_Inr split: prod.splits)
  have ih: "length ls'' = length ls \<and> length outs' = length ls \<and> z = last (y # outs') \<and>
      (\<forall>i < length ls. spatial_input (ls'' ! i) = Some ((y # outs') ! i))"
    using Cons.IH [OF r] .
  show ?case
    using ih e spatial_forward_stores_input [OF f] by (auto simp: nth_Cons split: nat.split)
qed

lemma dense_forward_all_state:
  "dense_forward_all ls x = Inr (ls', outs, z) \<Longrightarrow>
   length ls' = length ls \<and> length outs = length ls \<and> z = last (x # outs) \<and>
   (\<forall>i < length ls. dense_input (ls' ! i) = Some ((x # outs) ! i))"
proof (induction ls arbitrary: x ls' outs z)
  case Nil then show ?case by simp
next
  case (Cons l ls)
  from Cons.prems obtain l' y ls'' outs' where
    f: "dense_forward l x = Inr (l', y)" and r: "dense_forward_all ls y = Inr (ls'', outs', z)"
    and e: "ls' = l' # ls''" "outs = y # outs'"
    by (auto simp: ebind_eq_Inr split: prod.splits)
  have ih: "length ls'' = length ls \<and> length outs' = length ls \<and> z = last (y # outs') \<and>
      (\<forall>i < length ls. dense_input (ls'' ! i) = Some ((y # outs') ! i))"
    using Cons.IH [OF r] .
  show ?case
    using ih e dense_forward_stores_input [OF f] by (auto simp: nth_Cons split: nat.split)
qed

text \<open>C32: after a successful \<^verbatim>\<open>Sequential.forward\<close> the transient state is that of this call:
  one recorded output per layer, every spatial layer stores as its input the output of
  the layer before it (the batch for the first), every dense layer the output before it
  (the stacked flattened rows for the first), the recorded shape is that of the last
  spatial output, and the result is the last dense output.\<close>

theorem seq_forward_transient_state:
  assumes "seq_forward s x = Inr (s', y)"
  shows "length (conv_pool_layers s') = length (conv_pool_layers s)
       \<and> length (conv_pool_outputs s') = length (conv_pool_layers s)
       \<and> (\<forall>i < length (conv_pool_layers s). spatial_input (conv_pool_layers s' ! i) = Some ((x # conv_pool_outputs s') ! i))
       \<and> last_conv_output_shape s' = Some (shape (last (x # conv_pool_outputs s')))
       \<and> length (dense_layers s') = length (dense_layers s)
       \<and> length (dense_outputs s') = length (dense_layers s)
       \<and> (\<exists>rows. flatten_batch (last (x # conv_pool_outputs s')) = Inr rows
           \<and> (\<forall>i < length (dense_layers s). dense_input (dense_layers s' ! i) = Some ((np_array_rows rows # dense_outputs s') ! i))
           \<and> y = last (np_array_rows rows # dense_outputs s'))"
proof -
  from assms obtain cls couts z rows dls douts where
    sp: "spatial_forward_all (conv_pool_layers s) x = Inr (cls, couts, z)"
    and fl: "flatten_batch z = Inr rows"
    and dn: "dense_forward_all (dense_layers s) (np_array_rows rows) = Inr (dls, douts, y)"
    and s': "s' = s\<lparr>conv_pool_outputs := couts, dense_outputs := douts, conv_pool_layers := cls,
                   last_conv_output_shape := Some (shape z), dense_layers := dls\<rparr>"
    by (auto simp: seq_forward_def ebind_eq_Inr Let_def split: prod.splits)
  show ?thesis
    using spatial_forward_all_state [OF sp] dense_forward_all_state [OF dn] fl s' by auto
qed

subsection \<open>Properties of \<^verbatim>\<open>Sequential\<close>\<close>

text \<open>C28: for a positive batch size the batch loop of \<^verbatim>\<open>fit\<close>, with its \<^verbatim>\<open>break\<close>,
  runs exactly the steps \<open>0, ..., \<lceil>n / bs\<rceil> - 1\<close> and then stops, and the batches
  \<open>[i * bs, min (i * bs + bs) n)\<close> of those steps cover the samples \<open>0, ..., n - 1\<close>
  contiguously, in order, each once; the last batch is the partial one.\<close>

theorem fit_batches_partition:
  assumes "0 < batch_size"
  shows "fit_batches n batch_size step [0..<n] st = for_each [0..<(n + batch_size - 1) div batch_size] step st
       \<and> concat (map (\<lambda>i. [i * batch_size..<min (i * batch_size + batch_size) n]) [0..<(n + batch_size - 1) div batch_size])
         = [0..<n]"
proof
  show "fit_batches n batch_size step [0..<n] st = for_each [0..<(n + batch_size - 1) div batch_size] step st"
    using assms by (rule fit_batches_eq)
  have "n \<le> (n + batch_size - 1) div batch_size * batch_size"
    using less_batch_count [OF assms, of "(n + batch_size - 1) div batch_size" n] by simp
  then show "concat (map (\<lambda>i. [i * batch_size..<min (i * batch_size + batch_size) n]) [0..<(n + batch_size - 1) div batch_size])
         = [0..<n]"
    using concat_batches [OF assms] by (simp add: min_absorb2)
qed

text \<open>C26: \<^verbatim>\<open>Sequential.flatten\<close>, applied to each sample as \<^verbatim>\<open>forward\<close> does, agrees
  with numpy's row-major layout: on a well-formed array of shape \<open>(B, H, W, C)\<close> the
  flattened samples are exactly the rows of \<^verbatim>\<open>a.reshape(B, H * W * C)\<close>, the
  consecutive blocks of the array's buffer.\<close>

theorem flatten_batch_reshape:
  assumes "wf_arr a" "shape a = [b, h, w, c]"
  shows "flatten_batch a = Inr (reshape_rows b (h * w * c) (data a))"
  using assms seq_flatten_block [OF assms] by (simp add: flatten_batch_def reshape_rows_def)

theorem fit_batches_partition_witness:
  "fit_batches 5 2 (\<lambda>i s. Inr (s + i)) [0..<5] (0 :: nat) = for_each [0..<3] (\<lambda>i s. Inr (s + i)) 0
   \<and> concat (map (\<lambda>i. [i * 2..<min (i * 2 + 2) 5]) [0..<3]) = [0..<5]"
  using fit_batches_partition [of 2 5 "\<lambda>i s. Inr (s + i)" "0 :: nat"] by simp

theorem seq_flatten_roundtrip_witness:
  "flatten_batch \<lparr>shape = [1, 1, 1, 2], data = [1 / 4, 3 / 4]\<rparr> = Inr [[1 / 4, 3 / 4]]
   \<and> unflatten (sequential_new\<lparr>last_conv_output_shape := Some [1, 1, 1, 2]\<rparr>) (np_array_rows [[1 / 4, 3 / 4]])
     = Inr \<lparr>shape = [1, 1, 1, 2], data = [1 / 4, 3 / 4]\<rparr>"
proof -
  let ?x = "\<lparr>shape = [1, 1, 1, 2], data = [1 / 4, 3 / 4 :: real]\<rparr>"
  have rows: "map (seq_flatten ?x) [0..<1] = [[1 / 4, 3 / 4]]"
    by (simp add: seq_flatten_def entry_def numeral_2_eq_2)
  show ?thesis
    using seq_flatten_roundtrip [of ?x 1 1 1 2 sequential_new] rows by simp
qed

theorem fit_loss_weighting_witness:
  "fit sequential_new 1 \<lparr>shape = [1, 1, 1, 2], data = [1 / 4, 3 / 4]\<rparr> [1] 1 (1 / 10)
     = Inr (sequential_new\<lparr>last_conv_output_shape := Some [1, 1, 1, 2]\<rparr>, \<lparr>shape = [1, 2], data = [1 / 4, 3 / 4]\<rparr>,
            [- ln (3 / 4 + ce_epsilon) * real (1 + 1) / real 1])"
proof -
  let ?x = "\<lparr>shape = [1, 1, 1, 2], data = [1 / 4, 3 / 4 :: real]\<rparr>"
  let ?S = "sequential_new\<lparr>last_conv_output_shape := Some [1, 1, 1, 2]\<rparr>"
  let ?P = "\<lparr>shape = [1, 2], data = [1 / 4, 3 / 4 :: real]\<rparr>"
  let ?G = "\<lparr>shape = [1, 2], data = [1 / 4, - 1 / 4 :: real]\<rparr>"
  have f: "seq_forward sequential_new ?x = Inr (?S, ?P)"
    by (simp add: seq_forward_def sequential_new_def flatten_batch_def seq_flatten_def np_array_rows_def
        entry_def numeral_2_eq_2)
  have f2: "seq_forward ?S ?x = Inr (?S, ?P)"
    by (simp add: seq_forward_def sequential_new_def flatten_batch_def seq_flatten_def np_array_rows_def
        entry_def numeral_2_eq_2)
  have g: "cross_entropy_gradient ?P (take 1 [1]) = Inr ?G"
    by (simp add: cross_entropy_gradient_def fancy_pairs_def py_idx_def entry_def amap_def setv_def)
  have b: "seq_backward ?S ?G (1 / 10) = Inr ?S"
    by (simp add: seq_backward_def sequential_new_def unflatten_def entry_def setv_def zeros_def numeral_2_eq_2)
  have l: "cross_entropy_loss ?P (take 1 [1]) = Inr (- ln (3 / 4 + ce_epsilon))"
    by (simp add: cross_entropy_loss_def fancy_pairs_def py_idx_def entry_def)
  have sh: "shape ?x = 1 # [1, 1, 2]" and wf: "wf_arr ?x" by simp_all
  show ?thesis
    using fit_loss_weighting [OF sh wf _ _ f g b l f2] by simp
qed

theorem fit_empty_dataset_witness:
  "fit sequential_new 3 \<lparr>shape = [0, 2, 2, 1], data = []\<rparr> [] 4 (1 / 10) = Inl ZeroDivisionError"
  using fit_empty_dataset [of "\<lparr>shape = [0, 2, 2, 1], data = []\<rparr>" "[2, 2, 1]" 3 sequential_new "[]" 4 "1 / 10"]
  by simp

theorem seq_forward_transient_state_witness:
  "last_conv_output_shape (sequential_new\<lparr>last_conv_output_shape := Some [1, 1, 1, 2]\<rparr>)
     = Some (shape (last (\<lparr>shape = [1, 1, 1, 2], data = [1 / 4, 3 / 4 :: real]\<rparr>
                          # conv_pool_outputs (sequential_new\<lparr>last_conv_output_shape := Some [1, 1, 1, 2]\<rparr>))))"
proof -
  let ?x = "\<lparr>shape = [1, 1, 1, 2], data = [1 / 4, 3 / 4 :: real]\<rparr>"
  let ?S = "sequential_new\<lparr>last_conv_output_shape := Some [1, 1, 1, 2]\<rparr>"
  have f: "seq_forward sequential_new ?x = Inr (?S, \<lparr>shape = [1, 2], data = [1 / 4, 3 / 4]\<rparr>)"
    by (simp add: seq_forward_def sequential_new_def flatten_batch_def seq_flatten_def np_array_rows_def
        entry_def numeral_2_eq_2)
  show ?thesis using seq_forward_transient_state [OF f] by blast
qed

theorem flatten_batch_reshape_witness:
  "flatten_batch \<lparr>shape = [2, 1, 2, 1], data = [1, 2, 3, 4 :: real]\<rparr> = Inr [[1, 2], [3, 4]]"
  using flatten_batch_reshape [of "\<lparr>shape = [2, 1, 2, 1], data = [1, 2, 3, 4 :: real]\<rparr>" 2 1 2 1]
  by (simp add: reshape_rows_def upt_rec)

end
