(* ===== verification/Network.thy ===== *)
theory Network
  imports Sequential
begin

text \<open>
  Shape consistency of a whole \<^verbatim>\<open>Sequential\<close> network, in the manner of a layer-list
  consistency predicate: \<open>spatial_out\<close> says what image size \<open>(height, width, channels)\<close>
  a convolution or pooling layer turns a given size into, or \<open>None\<close> when its parameters
  do not fit it (\<open>conv_ok\<close>); \<open>dense_ok\<close> says the same of a dense layer and a row
  length; \<open>spatial_chain\<close> and \<open>dense_chain\<close> compose them along the layer lists, and
  \<open>net_ok s d m\<close> says that the network \<open>s\<close> maps images of size \<open>d\<close> to \<open>m\<close> class
  scores. The lemmas show, layer by layer and then for the lists, that on a consistent
  network \<^verbatim>\<open>forward\<close> succeeds with the predicted shapes, \<^verbatim>\<open>backward\<close> with a
  gradient of the output's shape then succeeds too, and both leave the network
  consistent. From these follow two results. \<^verbatim>\<open>fit\<close> returns a result on every
  well-formed dataset. Consistency is an invariant of the training-step relation
  \<open>train_reach\<close>.
\<close>

definition conv_ok :: "conv2d \<Rightarrow> nat \<times> nat \<times> nat \<Rightarrow> bool" where
  "conv_ok c d \<longleftrightarrow>
     (case (d, kernel_size c, shape (conv_weights c)) of
        ((h, w, ch), (kh, kw), [oc, c', kh', kw']) \<Rightarrow>
          kh \<le> h + 1 \<and> kw \<le> w + 1 \<and> ch \<le> c' \<and> oc = conv_out_channels c \<and> kh' = kh \<and> kw' = kw \<and>
          shape (conv_biases c) = [conv_out_channels c] \<and> wf_arr (conv_weights c) \<and> wf_arr (conv_biases c)
      | _ \<Rightarrow> False)"

fun spatial_out :: "spatial_layer \<Rightarrow> nat \<times> nat \<times> nat \<Rightarrow> (nat \<times> nat \<times> nat) option" where
  "spatial_out (ConvLayer c) (h, w, ch) =
     (if conv_ok c (h, w, ch) then Some (h + 1 - fst (kernel_size c), w + 1 - snd (kernel_size c), conv_out_channels c)
      else None)"
| "spatial_out (PoolLayer p) (h, w, ch) = Some (h div 2, w div 2, ch)"

fun spatial_chain :: "spatial_layer list \<Rightarrow> nat \<times> nat \<times> nat \<Rightarrow> (nat \<times> nat \<times> nat) option" where
  "spatial_chain [] d = Some d"
| "spatial_chain (l # ls) d = (case spatial_out l d of None \<Rightarrow> None | Some d' \<Rightarrow> spatial_chain ls d')"

definition dense_ok :: "dense \<Rightarrow> nat \<Rightarrow> bool" where
  "dense_ok l n \<longleftrightarrow>
     shape (dense_weights l) = [n, dense_out_channels l] \<and> shape (dense_biases l) = [dense_out_channels l] \<and>
     wf_arr (dense_weights l) \<and> wf_arr (dense_biases l) \<and>
     (activation l = ''relu'' \<or> activation l = ''softmax'' \<and> 0 < dense_out_channels l)"

fun dense_chain :: "dense list \<Rightarrow> nat \<Rightarrow> nat option" where
  "dense_chain [] n = Some n"
| "dense_chain (l # ls) n = (if dense_ok l n then dense_chain ls (dense_out_channels l) else None)"

definition net_ok :: "sequential \<Rightarrow> nat \<times> nat \<times> nat \<Rightarrow> nat \<Rightarrow> bool" where
  "net_ok s d m \<longleftrightarrow>
     (case spatial_chain (conv_pool_layers s) d of
        None \<Rightarrow> False
      | Some (h, w, c) \<Rightarrow> dense_chain (dense_layers s) (h * w * c) = Some m)"

text \<open>The states a network reaches by training steps on images of size \<open>(h, w, c)\<close>:
  a successful \<^verbatim>\<open>forward\<close> on any non-empty well-formed batch of such images followed
  by a successful \<^verbatim>\<open>backward\<close> with any well-formed gradient of the output's shape, at any
  learning rate, as \<^verbatim>\<open>fit\<close> performs them for each batch.\<close>

inductive train_reach :: "nat \<Rightarrow> nat \<Rightarrow> nat \<Rightarrow> nat \<Rightarrow> sequential \<Rightarrow> sequential \<Rightarrow> bool"
  for h w c m where
  start: "train_reach h w c m s s"
| step: "train_reach h w c m s s1 \<Longrightarrow> wf_arr x \<Longrightarrow> shape x = [b, h, w, c] \<Longrightarrow> 0 < b \<Longrightarrow>
         seq_forward s1 x = Inr (s2, y) \<Longrightarrow> wf_arr G \<Longrightarrow> shape G = [b, m] \<Longrightarrow>
         seq_backward s2 G lr = Inr s3 \<Longrightarrow> train_reach h w c m s s3"

text \<open>A small network used in the examples: a 3x3 convolution to two channels, a pooling
  layer and a softmax layer over three classes, for 4x4 grey images.\<close>

definition demo_net :: sequential where
  "demo_net = add_dense_layer (add_conv_pool_layer (add_conv_pool_layer sequential_new
       (ConvLayer (conv2d_new 1 2 (3, 3) (zeros [2, 1, 3, 3])))) (PoolLayer maxpool_new))
       (dense_new 2 3 ''softmax'' (zeros [2, 3]))"

subsection \<open>One layer\<close>

lemma conv_okE:
  assumes "conv_ok c (h, w, ch)"
  obtains kh kw c' where "kernel_size c = (kh, kw)" "shape (conv_weights c) = [conv_out_channels c, c', kh, kw]"
    "kh \<le> h + 1" "kw \<le> w + 1" "ch \<le> c'" "shape (conv_biases c) = [conv_out_channels c]"
    "wf_arr (conv_weights c)" "wf_arr (conv_biases c)"
  using assms by (auto simp: conv_ok_def split: prod.splits list.splits)

lemma conv_ok_params:
  assumes "kernel_size c' = kernel_size c" "conv_out_channels c' = conv_out_channels c"
    "shape (conv_weights c') = shape (conv_weights c)" "shape (conv_biases c') = shape (conv_biases c)"
    "wf_arr (conv_weights c')" "wf_arr (conv_biases c')" "conv_ok c d"
  shows "spatial_out (ConvLayer c') d = spatial_out (ConvLayer c) d"
  using assms by (cases d) (auto simp: conv_ok_def split: prod.splits list.splits)

lemma conv_ok_shapes:
  assumes "conv_ok c (h, w, ch)" "wf_arr x" "shape x = [b, h, w, ch]"
  shows "conv_shapes_ok c x"
  using assms(1) by (rule conv_okE) (use assms(2,3) in \<open>auto simp: conv_shapes_ok_def\<close>)

lemma conv_layer_ok:
  assumes ok: "conv_ok c (h, w, ch)" and x: "wf_arr x" "shape x = [b, h, w, ch]"
  shows "\<exists>c1 y. conv_forward c x = Inr (c1, y) \<and> wf_arr y
           \<and> shape y = [b, h + 1 - fst (kernel_size c), w + 1 - snd (kernel_size c), conv_out_channels c]
           \<and> spatial_out (ConvLayer c1) (h, w, ch) = spatial_out (ConvLayer c) (h, w, ch)
           \<and> (\<forall>g lr. wf_arr g \<longrightarrow> shape g = shape y \<longrightarrow> (\<exists>c2 d. conv_backward c1 g lr = Inr (c2, d)
                 \<and> wf_arr d \<and> shape d = shape x \<and> spatial_out (ConvLayer c2) (h, w, ch) = spatial_out (ConvLayer c) (h, w, ch)))"
proof -
  obtain kh kw c' where k: "kernel_size c = (kh, kw)" "shape (conv_weights c) = [conv_out_channels c, c', kh, kw]"
    "kh \<le> h + 1" "kw \<le> w + 1" "ch \<le> c'" "shape (conv_biases c) = [conv_out_channels c]"
    "wf_arr (conv_weights c)" "wf_arr (conv_biases c)"
    using ok by (rule conv_okE)
  have sok: "conv_shapes_ok c x" using ok x by (rule conv_ok_shapes)
  let ?c1 = "c\<lparr>conv_input := Some x, relu_mask := Some (amap (\<lambda>x. 0 < x) (conv_preact c x))\<rparr>"
  let ?y = "amap relu (conv_preact c x)"
  have fwd: "conv_forward c x = Inr (?c1, ?y)" using sok by (rule conv_forward_eq)
  have sy: "shape ?y = [b, h + 1 - kh, w + 1 - kw, conv_out_channels c]"
    using x(2) k(1) by (simp add: conv_preact_def)
  have bwd: "\<exists>c2 d. conv_backward ?c1 g lr = Inr (c2, d) \<and> wf_arr d \<and> shape d = shape x
                 \<and> spatial_out (ConvLayer c2) (h, w, ch) = spatial_out (ConvLayer c) (h, w, ch)"
    if g: "wf_arr g" "shape g = shape ?y" for g lr
  proof -
    have bok: "conv_backward_ok ?c1 g" using sok fwd g by (rule conv_forward_backward_ok)
    obtain rmask where rm: "relu_mask ?c1 = Some rmask" by simp
    let ?gr = "conv_grad_out rmask g"
    let ?c2 = "?c1\<lparr>conv_weights := tabulate (shape (conv_weights ?c1)) (\<lambda>j.
                  entry (conv_weights ?c1) j - lr * entry (conv_grad_weights ?c1 x ?gr) j),
                conv_biases := tabulate [conv_out_channels ?c1] (\<lambda>j.
                  entry (conv_biases ?c1) j - lr * entry (conv_grad_bias ?c1 ?gr) j)\<rparr>"
    have "conv_backward ?c1 g lr = Inr (?c2, conv_grad_input ?c1 x ?gr)"
      using bok rm by (intro conv_backward_eq) simp_all
    moreover have "spatial_out (ConvLayer ?c2) (h, w, ch) = spatial_out (ConvLayer c) (h, w, ch)"
      by (rule conv_ok_params [OF _ _ _ _ _ _ ok]) (simp_all add: k)
    moreover have "wf_arr (conv_grad_input ?c1 x ?gr) \<and> shape (conv_grad_input ?c1 x ?gr) = shape x"
      using k(1) by (simp add: conv_grad_input_def)
    ultimately show ?thesis by blast
  qed
  have wy: "wf_arr ?y" using x(2) k(1) by (simp add: conv_preact_def)
  have so: "spatial_out (ConvLayer ?c1) (h, w, ch) = spatial_out (ConvLayer c) (h, w, ch)"
    by (rule conv_ok_params [OF _ _ _ _ _ _ ok]) (simp_all add: k)
  show ?thesis
    using fwd sy wy so bwd k(1) by auto
qed

lemma pool_layer_ok:
  assumes x: "wf_arr x" "shape x = [b, h, w, ch]"
  shows "\<exists>p1 y. pool_forward p x = Inr (p1, y) \<and> wf_arr y \<and> shape y = [b, h div 2, w div 2, ch]
           \<and> (\<forall>g lr. wf_arr g \<longrightarrow> shape g = shape y \<longrightarrow> (\<exists>p2 d. pool_backward p1 g lr = Inr (p2, d)
                 \<and> wf_arr d \<and> shape d = shape x))"
proof -
  have fwd: "pool_forward p x = Inr (p\<lparr>pool_input := Some x\<rparr>, pool_spec x)"
    using x(2) by (rule pool_forward_eq)
  have "pool_backward (p\<lparr>pool_input := Some x\<rparr>) g lr = Inr (p\<lparr>pool_input := Some x\<rparr>, pool_grad_spec x g)"
    if "shape g = [b, h div 2, w div 2, ch]" for g lr
    using x(2) that by (intro pool_backward_eq) simp_all
  then show ?thesis
    using fwd x(2) by (auto simp: pool_spec_def pool_grad_spec_def)
qed

lemma dense_ok_shapes:
  assumes "dense_ok l n" "wf_arr x" "shape x = [b, n]" "0 < b"
  shows "dense_shapes_ok l x"
  using assms by (simp add: dense_ok_def dense_shapes_ok_def)

lemma dense_ok_params:
  assumes "dense_out_channels l' = dense_out_channels l" "activation l' = activation l"
    "shape (dense_weights l') = shape (dense_weights l)" "shape (dense_biases l') = shape (dense_biases l)"
    "wf_arr (dense_weights l')" "wf_arr (dense_biases l')" "dense_ok l n"
  shows "dense_ok l' n"
  using assms by (simp add: dense_ok_def)

lemma activation_ok:
  assumes "dense_ok l n" "shape z = [b, dense_out_channels l]" "wf_arr z"
  shows "\<exists>y. activation_function l z = Inr y \<and> wf_arr y \<and> shape y = [b, dense_out_channels l]"
  using assms by (auto simp: dense_ok_def activation_function_def softmax_rows_def)

lemma dense_layer_ok:
  assumes ok: "dense_ok l n" and x: "wf_arr x" "shape x = [b, n]" "0 < b"
  shows "\<exists>l1 y. dense_forward l x = Inr (l1, y) \<and> wf_arr y \<and> shape y = [b, dense_out_channels l]
           \<and> dense_ok l1 n \<and> dense_out_channels l1 = dense_out_channels l
           \<and> (\<forall>g lr. wf_arr g \<longrightarrow> shape g = shape y \<longrightarrow> (\<exists>l2 d. dense_backward l1 g lr = Inr (l2, d)
                 \<and> wf_arr d \<and> shape d = shape x \<and> dense_ok l2 n \<and> dense_out_channels l2 = dense_out_channels l))"
proof -
  have sok: "dense_shapes_ok l x" using ok x by (rule dense_ok_shapes)
  have sw: "shape (dense_weights l) = [n, dense_out_channels l]" using ok by (simp add: dense_ok_def)
  let ?z = "dense_preact l x"
  have sz: "shape ?z = [b, dense_out_channels l]" "wf_arr ?z"
    using x(2) sw by (simp_all add: dense_preact_def)
  obtain y where act: "activation_function l ?z = Inr y" "wf_arr y" "shape y = [b, dense_out_channels l]"
    using activation_ok [OF ok sz] by blast
  let ?l1 = "l\<lparr>dense_input := Some x, dense_z := Some ?z\<rparr>"
  have fwd: "dense_forward l x = Inr (?l1, y)" using dense_forward_eq [OF sok] act(1) by simp
  have ok1: "dense_ok ?l1 n" by (rule dense_ok_params [OF _ _ _ _ _ _ ok]) (use ok in \<open>simp_all add: dense_ok_def\<close>)
  have bwd: "\<exists>l2 d. dense_backward ?l1 g lr = Inr (l2, d) \<and> wf_arr d \<and> shape d = shape x
               \<and> dense_ok l2 n \<and> dense_out_channels l2 = dense_out_channels l"
    if g: "wf_arr g" "shape g = shape y" for g lr
  proof -
    have bok: "dense_backward_ok ?l1 g"
      using ok g act(3) x by (simp add: dense_backward_ok_def dense_shapes_ok_def dense_ok_def)
    let ?l2 = "?l1\<lparr>dense_biases := tabulate [dense_out_channels ?l1] (\<lambda>j.
                  entry (dense_biases ?l1) j - lr * (entry (dense_grad_bias g) j / real (shape x ! 0))),
                dense_weights := tabulate (shape (dense_weights ?l1)) (\<lambda>j.
                  entry (dense_weights ?l1) j - lr * (entry (dense_grad_weights x g) j / real (shape x ! 0)))\<rparr>"
    have "dense_backward ?l1 g lr = Inr (?l2, dense_grad_input ?l1 g)"
      using bok by (rule dense_backward_eq) simp
    moreover have "dense_ok ?l2 n"
      by (rule dense_ok_params [OF _ _ _ _ _ _ ok]) (use ok in \<open>simp_all add: dense_ok_def\<close>)
    moreover have "wf_arr (dense_grad_input ?l1 g) \<and> shape (dense_grad_input ?l1 g) = shape x"
      using g act(3) sw x(2) by (simp add: dense_grad_input_def)
    ultimately show ?thesis by simp
  qed
  show ?thesis using fwd act(2,3) ok1 bwd by auto
qed

lemma spatial_layer_ok:
  assumes out: "spatial_out l (h, w, ch) = Some (h1, w1, c1)" and x: "wf_arr x" "shape x = [b, h, w, ch]"
  shows "\<exists>l1 y. spatial_forward l x = Inr (l1, y) \<and> wf_arr y \<and> shape y = [b, h1, w1, c1]
           \<and> spatial_out l1 (h, w, ch) = Some (h1, w1, c1)
           \<and> (\<forall>g lr. wf_arr g \<longrightarrow> shape g = [b, h1, w1, c1] \<longrightarrow> (\<exists>l2 d. spatial_backward l1 g lr = Inr (l2, d)
                 \<and> wf_arr d \<and> shape d = [b, h, w, ch] \<and> spatial_out l2 (h, w, ch) = Some (h1, w1, c1)))"
proof (cases l)
  case (ConvLayer c)
  then have ok: "conv_ok c (h, w, ch)"
    and o: "(h1, w1, c1) = (h + 1 - fst (kernel_size c), w + 1 - snd (kernel_size c), conv_out_channels c)"
    using out by (simp_all split: if_splits)
  obtain c' y where F: "conv_forward c x = Inr (c', y)" "wf_arr y"
      "shape y = [b, h + 1 - fst (kernel_size c), w + 1 - snd (kernel_size c), conv_out_channels c]"
      "spatial_out (ConvLayer c') (h, w, ch) = spatial_out (ConvLayer c) (h, w, ch)"
    and B: "\<And>g lr. wf_arr g \<Longrightarrow> shape g = shape y \<Longrightarrow> \<exists>c2 d. conv_backward c' g lr = Inr (c2, d)
                 \<and> wf_arr d \<and> shape d = shape x \<and> spatial_out (ConvLayer c2) (h, w, ch) = spatial_out (ConvLayer c) (h, w, ch)"
    using conv_layer_ok [OF ok x] by blast
  have sy: "shape y = [b, h1, w1, c1]" using F(3) o by simp
  have bwd: "\<exists>l2 d. spatial_backward (ConvLayer c') g lr = Inr (l2, d)
                 \<and> wf_arr d \<and> shape d = [b, h, w, ch] \<and> spatial_out l2 (h, w, ch) = Some (h1, w1, c1)"
    if g: "wf_arr g" "shape g = [b, h1, w1, c1]" for g lr
  proof -
    obtain c2 d where "conv_backward c' g lr = Inr (c2, d)" "wf_arr d" "shape d = shape x"
        "spatial_out (ConvLayer c2) (h, w, ch) = spatial_out (ConvLayer c) (h, w, ch)"
      using B [of g lr] g sy by auto
    then show ?thesis using ConvLayer out x(2) by (simp add: spatial_backward_def)
  qed
  have "spatial_forward l x = Inr (ConvLayer c', y)" using ConvLayer F(1) by (simp add: spatial_forward_def)
  then show ?thesis using F(2,4) sy bwd ConvLayer out by auto
next
  case (PoolLayer p)
  then have o: "(h1, w1, c1) = (h div 2, w div 2, ch)" using out by simp
  obtain p' y where F: "pool_forward p x = Inr (p', y)" "wf_arr y" "shape y = [b, h div 2, w div 2, ch]"
    and B: "\<And>g lr. wf_arr g \<Longrightarrow> shape g = shape y \<Longrightarrow> \<exists>p2 d. pool_backward p' g lr = Inr (p2, d)
                 \<and> wf_arr d \<and> shape d = shape x"
    using pool_layer_ok [OF x, of p] by blast
  have sy: "shape y = [b, h1, w1, c1]" using F(3) o by simp
  have bwd: "\<exists>l2 d. spatial_backward (PoolLayer p') g lr = Inr (l2, d)
                 \<and> wf_arr d \<and> shape d = [b, h, w, ch] \<and> spatial_out l2 (h, w, ch) = Some (h1, w1, c1)"
    if g: "wf_arr g" "shape g = [b, h1, w1, c1]" for g lr
  proof -
    obtain p2 d where "pool_backward p' g lr = Inr (p2, d)" "wf_arr d" "shape d = shape x"
      using B [of g lr] g sy by auto
    then show ?thesis using o x(2) by (simp add: spatial_backward_def)
  qed
  have "spatial_forward l x = Inr (PoolLayer p', y)" using PoolLayer F(1) by (simp add: spatial_forward_def)
  then show ?thesis using F(2) sy bwd o by auto
qed

subsection \<open>The layer lists\<close>

lemma spatial_chain_ok:
  assumes "spatial_chain ls (h, w, ch) = Some (h', w', c')" "wf_arr x" "shape x = [b, h, w, ch]"
  shows "\<exists>ls1 outs z. spatial_forward_all ls x = Inr (ls1, outs, z) \<and> wf_arr z \<and> shape z = [b, h', w', c']
           \<and> spatial_chain ls1 (h, w, ch) = Some (h', w', c')
           \<and> (\<forall>g lr. wf_arr g \<longrightarrow> shape g = [b, h', w', c'] \<longrightarrow> (\<exists>ls2 d. spatial_backward_all ls1 g lr = Inr (ls2, d)
                 \<and> wf_arr d \<and> shape d = [b, h, w, ch] \<and> spatial_chain ls2 (h, w, ch) = Some (h', w', c')))"
  using assms
proof (induction ls arbitrary: h w ch x)
  case Nil
  then show ?case by auto
next
  case (Cons l ls)
  obtain h1 w1 c1 where o: "spatial_out l (h, w, ch) = Some (h1, w1, c1)" and r: "spatial_chain ls (h1, w1, c1) = Some (h', w', c')"
    using Cons.prems(1) by (auto split: option.splits)
  obtain l1 y where f1: "spatial_forward l x = Inr (l1, y)" "wf_arr y" "shape y = [b, h1, w1, c1]"
      "spatial_out l1 (h, w, ch) = Some (h1, w1, c1)"
    and b1: "\<And>g lr. wf_arr g \<Longrightarrow> shape g = [b, h1, w1, c1] \<Longrightarrow> \<exists>l2 d. spatial_backward l1 g lr = Inr (l2, d)
                 \<and> wf_arr d \<and> shape d = [b, h, w, ch] \<and> spatial_out l2 (h, w, ch) = Some (h1, w1, c1)"
    using spatial_layer_ok [OF o Cons.prems(2,3)] by blast
  obtain ls1 outs z where f2: "spatial_forward_all ls y = Inr (ls1, outs, z)" "wf_arr z" "shape z = [b, h', w', c']"
      "spatial_chain ls1 (h1, w1, c1) = Some (h', w', c')"
    and b2: "\<And>g lr. wf_arr g \<Longrightarrow> shape g = [b, h', w', c'] \<Longrightarrow> \<exists>ls2 d. spatial_backward_all ls1 g lr = Inr (ls2, d)
                 \<and> wf_arr d \<and> shape d = [b, h1, w1, c1] \<and> spatial_chain ls2 (h1, w1, c1) = Some (h', w', c')"
    using Cons.IH [OF r f1(2,3)] by blast
  have bwd: "\<exists>ls2 d. spatial_backward_all (l1 # ls1) g lr = Inr (ls2, d) \<and> wf_arr d \<and> shape d = [b, h, w, ch]
               \<and> spatial_chain ls2 (h, w, ch) = Some (h', w', c')"
    if g: "wf_arr g" "shape g = [b, h', w', c']" for g lr
  proof -
    obtain ls2 d where "spatial_backward_all ls1 g lr = Inr (ls2, d)" "wf_arr d" "shape d = [b, h1, w1, c1]"
        "spatial_chain ls2 (h1, w1, c1) = Some (h', w', c')"
      using b2 [OF g] by blast
    moreover obtain l2 d' where "spatial_backward l1 d lr = Inr (l2, d')" "wf_arr d'" "shape d' = [b, h, w, ch]"
        "spatial_out l2 (h, w, ch) = Some (h1, w1, c1)"
      using b1 [of d lr] calculation(2,3) by auto
    ultimately show ?thesis by auto
  qed
  have "spatial_forward_all (l # ls) x = Inr (l1 # ls1, y # outs, z)" using f1(1) f2(1) by simp
  moreover have "spatial_chain (l1 # ls1) (h, w, ch) = Some (h', w', c')" using f1(4) f2(4) by simp
  ultimately show ?case using f2(2,3) bwd by blast
qed

lemma dense_chain_ok:
  assumes "dense_chain ls n = Some m" "wf_arr x" "shape x = [b, n]" "0 < b"
  shows "\<exists>ls1 outs z. dense_forward_all ls x = Inr (ls1, outs, z) \<and> wf_arr z \<and> shape z = [b, m]
           \<and> dense_chain ls1 n = Some m
           \<and> (\<forall>g lr. wf_arr g \<longrightarrow> shape g = [b, m] \<longrightarrow> (\<exists>ls2 d. dense_backward_all ls1 g lr = Inr (ls2, d)
                 \<and> wf_arr d \<and> shape d = [b, n] \<and> dense_chain ls2 n = Some m))"
  using assms
proof (induction ls arbitrary: n x)
  case Nil
  then show ?case by auto
next
  case (Cons l ls)
  have ok: "dense_ok l n" and r: "dense_chain ls (dense_out_channels l) = Some m"
    using Cons.prems(1) by (simp_all split: if_splits)
  obtain l1 y where f1: "dense_forward l x = Inr (l1, y)" "wf_arr y" "shape y = [b, dense_out_channels l]"
      "dense_ok l1 n" "dense_out_channels l1 = dense_out_channels l"
    and b1: "\<And>g lr. wf_arr g \<Longrightarrow> shape g = shape y \<Longrightarrow> \<exists>l2 d. dense_backward l1 g lr = Inr (l2, d)
                 \<and> wf_arr d \<and> shape d = shape x \<and> dense_ok l2 n \<and> dense_out_channels l2 = dense_out_channels l"
    using dense_layer_ok [OF ok Cons.prems(2,3,4)] by blast
  obtain ls1 outs z where f2: "dense_forward_all ls y = Inr (ls1, outs, z)" "wf_arr z" "shape z = [b, m]"
      "dense_chain ls1 (dense_out_channels l) = Some m"
    and b2: "\<And>g lr. wf_arr g \<Longrightarrow> shape g = [b, m] \<Longrightarrow> \<exists>ls2 d. dense_backward_all ls1 g lr = Inr (ls2, d)
                 \<and> wf_arr d \<and> shape d = [b, dense_out_channels l] \<and> dense_chain ls2 (dense_out_channels l) = Some m"
    using Cons.IH [OF r f1(2,3) Cons.prems(4)] by blast
  have bwd: "\<exists>ls2 d. dense_backward_all (l1 # ls1) g lr = Inr (ls2, d) \<and> wf_arr d \<and> shape d = [b, n]
               \<and> dense_chain ls2 n = Some m"
    if g: "wf_arr g" "shape g = [b, m]" for g lr
  proof -
    obtain ls2 d where "dense_backward_all ls1 g lr = Inr (ls2, d)" "wf_arr d" "shape d = [b, dense_out_channels l]"
        "dense_chain ls2 (dense_out_channels l) = Some m"
      using b2 [OF g] by blast
    moreover obtain l2 d' where "dense_backward l1 d lr = Inr (l2, d')" "wf_arr d'" "shape d' = shape x"
        "dense_ok l2 n" "dense_out_channels l2 = dense_out_channels l"
      using b1 [of d lr] calculation(2,3) f1(3) by auto
    ultimately show ?thesis using Cons.prems(3) by auto
  qed
  have "dense_forward_all (l # ls) x = Inr (l1 # ls1, y # outs, z)" using f1(1) f2(1) by simp
  moreover have "dense_chain (l1 # ls1) n = Some m" using f1(4,5) f2(4) by simp
  ultimately show ?case using f2(2,3) bwd by blast
qed

lemma spatial_chain_append:
  "spatial_chain (ls @ [l]) d = (case spatial_chain ls d of None \<Rightarrow> None | Some d' \<Rightarrow> spatial_out l d')"
  by (induction ls arbitrary: d) (simp_all split: option.splits)

lemma flatten_batch_ok:
  assumes "wf_arr z" "shape z = [b, h, w, c]" "0 < b"
  shows "\<exists>rows. flatten_batch z = Inr rows \<and> wf_arr (np_array_rows rows) \<and> shape (np_array_rows rows) = [b, h * w * c]"
proof -
  have len: "\<And>j. length (seq_flatten z j) = h * w * c" using assms(2) by (simp add: length_seq_flatten)
  have "wf_arr (np_array_rows (map (seq_flatten z) [0..<b])) \<and> shape (np_array_rows (map (seq_flatten z) [0..<b])) = [b, h * w * c]"
    using assms(3) len by (cases b) (simp_all add: np_array_rows_def length_concat comp_def sum_list_triv upt_conv_Cons del: upt_Suc)
  then show ?thesis using assms(2) by (simp add: flatten_batch_def)
qed

subsection \<open>Forward and backward through the network\<close>

lemma seq_step_ok:
  assumes ok: "net_ok s (h, w, c) m" and x: "wf_arr x" "shape x = [b, h, w, c]" "0 < b"
  shows "\<exists>s1 y. seq_forward s x = Inr (s1, y) \<and> wf_arr y \<and> shape y = [b, m] \<and> net_ok s1 (h, w, c) m
           \<and> (\<forall>G lr. wf_arr G \<longrightarrow> shape G = [b, m] \<longrightarrow> (\<exists>s2. seq_backward s1 G lr = Inr s2 \<and> net_ok s2 (h, w, c) m))"
proof -
  obtain h' w' c' where sc: "spatial_chain (conv_pool_layers s) (h, w, c) = Some (h', w', c')"
    and dc: "dense_chain (dense_layers s) (h' * w' * c') = Some m"
    using ok by (auto simp: net_ok_def split: option.splits)
  obtain ls1 outs z where f1: "spatial_forward_all (conv_pool_layers s) x = Inr (ls1, outs, z)" "wf_arr z"
      "shape z = [b, h', w', c']" "spatial_chain ls1 (h, w, c) = Some (h', w', c')"
    and b1: "\<And>g lr. wf_arr g \<Longrightarrow> shape g = [b, h', w', c'] \<Longrightarrow> \<exists>ls2 d. spatial_backward_all ls1 g lr = Inr (ls2, d)
                 \<and> wf_arr d \<and> shape d = [b, h, w, c] \<and> spatial_chain ls2 (h, w, c) = Some (h', w', c')"
    using spatial_chain_ok [OF sc x(1,2)] by blast
  obtain rows where fl: "flatten_batch z = Inr rows" "wf_arr (np_array_rows rows)"
      "shape (np_array_rows rows) = [b, h' * w' * c']"
    using flatten_batch_ok [OF f1(2,3) x(3)] by blast
  obtain dls douts y where f2: "dense_forward_all (dense_layers s) (np_array_rows rows) = Inr (dls, douts, y)"
      "wf_arr y" "shape y = [b, m]" "dense_chain dls (h' * w' * c') = Some m"
    and b2: "\<And>g lr. wf_arr g \<Longrightarrow> shape g = [b, m] \<Longrightarrow> \<exists>ls2 d. dense_backward_all dls g lr = Inr (ls2, d)
                 \<and> wf_arr d \<and> shape d = [b, h' * w' * c'] \<and> dense_chain ls2 (h' * w' * c') = Some m"
    using dense_chain_ok [OF dc fl(2,3) x(3)] by blast
  let ?s1 = "s\<lparr>conv_pool_outputs := outs, dense_outputs := douts, conv_pool_layers := ls1,
               last_conv_output_shape := Some (shape z), dense_layers := dls\<rparr>"
  have fwd: "seq_forward s x = Inr (?s1, y)"
    using f1(1) fl(1) f2(1) by (simp add: seq_forward_def Let_def)
  have ok1: "net_ok ?s1 (h, w, c) m" using f1(4) f2(4) by (simp add: net_ok_def)
  have bwd: "\<exists>s2. seq_backward ?s1 G lr = Inr s2 \<and> net_ok s2 (h, w, c) m"
    if G: "wf_arr G" "shape G = [b, m]" for G lr
  proof -
    obtain dls2 d where d: "dense_backward_all dls G lr = Inr (dls2, d)" "wf_arr d" "shape d = [b, h' * w' * c']"
        "dense_chain dls2 (h' * w' * c') = Some m"
      using b2 [OF G] by blast
    let ?s' = "?s1\<lparr>dense_layers := dls2\<rparr>"
    let ?t = "tabulate [b, h', w', c'] (\<lambda>idx. entry d [idx ! 0, offset [h', w', c'] (tl idx)])"
    have u: "unflatten ?s' d = Inr ?t"
      using f1(3) d(3) by (intro unflatten_eq) simp_all
    obtain ls2 d' where "spatial_backward_all ls1 ?t lr = Inr (ls2, d')"
        "spatial_chain ls2 (h, w, c) = Some (h', w', c')"
      using b1 [of ?t lr] by auto
    then show ?thesis using d(1,4) u by (simp add: seq_backward_def net_ok_def)
  qed
  show ?thesis using fwd f2(2,3) ok1 bwd by blast
qed

subsection \<open>Training\<close>

lemma slice_batch_ok:
  assumes "wf_arr a" "shape a = n # ds" "st < en" "en \<le> n"
  shows "\<exists>x. slice_batch a st en = Inr x \<and> wf_arr x \<and> shape x = (en - st) # ds"
proof -
  have "(en - st) * prod_list ds \<le> (n - st) * prod_list ds"
    using assms(4) by (intro mult_le_mono1 diff_le_mono)
  also have "\<dots> = n * prod_list ds - st * prod_list ds" by (rule diff_mult_distrib)
  finally have "(en - st) * prod_list ds \<le> n * prod_list ds - st * prod_list ds" .
  then show ?thesis using assms
    by (auto simp: slice_batch_def wf_arr_def min_absorb1 min_absorb2 intro: diff_le_mono)
qed

lemma labels_slice_ok:
  assumes "labels_ok n m labels" "st \<le> en" "en \<le> n"
  shows "labels_ok (en - st) m (list_slice labels st en)"
  using assms by (auto simp: labels_ok_def list_slice_def list_all_iff dest: in_set_takeD in_set_dropD)

lemma fit_step_ok:
  assumes ok: "net_ok s (h, w, c) m" and im: "wf_arr images" "shape images = [n, h, w, c]"
    and lab: "labels_ok n m labels" and bs: "0 < bs" and i: "i * bs < n"
  shows "\<exists>s' L. fit_step images labels bs lr n i (s, acc) = Inr (s', L) \<and> net_ok s' (h, w, c) m"
proof -
  let ?st = "i * bs" and ?en = "min (i * bs + bs) n"
  have se: "?st < ?en" "?en \<le> n" using i bs by simp_all
  obtain x where x: "slice_batch images ?st ?en = Inr x" "wf_arr x" "shape x = [?en - ?st, h, w, c]"
    using slice_batch_ok [OF im se] by blast
  have b: "0 < ?en - ?st" using se by simp
  obtain s1 P where f: "seq_forward s x = Inr (s1, P)" "wf_arr P" "shape P = [?en - ?st, m]"
    and bw: "\<And>G lr. wf_arr G \<Longrightarrow> shape G = [?en - ?st, m] \<Longrightarrow> \<exists>s2. seq_backward s1 G lr = Inr s2 \<and> net_ok s2 (h, w, c) m"
    using seq_step_ok [OF ok x(2,3) b] by blast
  have lb: "labels_ok (?en - ?st) m (list_slice labels ?st ?en)"
    by (rule labels_slice_ok [OF lab]) (use se in simp_all)
  have g: "cross_entropy_gradient P (list_slice labels ?st ?en) = Inr (ce_grad_spec P (list_slice labels ?st ?en))"
    using f(2,3) lb by (rule ce_gradient_eq_spec)
  obtain s2 where s2: "seq_backward s1 (ce_grad_spec P (list_slice labels ?st ?en)) lr = Inr s2" "net_ok s2 (h, w, c) m"
    using bw [of "ce_grad_spec P (list_slice labels ?st ?en)" lr] f(3) by (auto simp: ce_grad_spec_def)
  have l: "cross_entropy_loss P (list_slice labels ?st ?en) = Inr (ce_loss_spec P (list_slice labels ?st ?en))"
    using f(3) lb by (rule ce_loss_eq_spec)
  show ?thesis using x(1) f(1) g s2 l by (simp add: fit_step_def Let_def)
qed

lemma fit_batches_ok:
  assumes ok: "net_ok s (h, w, c) m" and im: "wf_arr images" "shape images = [n, h, w, c]"
    and lab: "labels_ok n m labels" and bs: "0 < bs"
  shows "\<exists>s' L. fit_batches n bs (fit_step images labels bs lr n) [0..<n] (s, acc) = Inr (s', L) \<and> net_ok s' (h, w, c) m"
proof -
  have "\<exists>t. for_each [0..<(n + bs - 1) div bs] (fit_step images labels bs lr n) (s, acc) = Inr t
          \<and> (case t of (s', L) \<Rightarrow> net_ok s' (h, w, c) m)"
  proof (rule for_each_inv)
    fix i and st :: "sequential \<times> real" assume "i \<in> set [0..<(n + bs - 1) div bs]" "case st of (s', L) \<Rightarrow> net_ok s' (h, w, c) m"
    then show "\<exists>t. fit_step images labels bs lr n i st = Inr t \<and> (case t of (s', L) \<Rightarrow> net_ok s' (h, w, c) m)"
      using fit_step_ok [OF _ im lab bs] less_batch_count [OF bs] by (cases st) fastforce
  qed (use ok in simp)
  then show ?thesis by (simp only: fit_batches_eq [OF bs]) (auto split: prod.splits)
qed

lemma fit_epochs_ok:
  assumes ok: "net_ok s (h, w, c) m" and im: "wf_arr images" "shape images = [n, h, w, c]" "0 < n"
    and lab: "labels_ok n m labels" and bs: "0 < bs"
  shows "\<exists>s' pr. fit_epochs images labels bs lr epochs es (s, printed) = Inr (s', pr) \<and> net_ok s' (h, w, c) m
           \<and> length pr = length printed + length (filter (\<lambda>e. e mod 10 = 1 \<or> e = epochs) es)"
  using ok
proof (induction es arbitrary: s printed)
  case Nil
  then show ?case by simp
next
  case (Cons e es)
  obtain s1 L where b: "fit_batches n bs (fit_step images labels bs lr n) [0..<n] (s, 0) = Inr (s1, L)"
      "net_ok s1 (h, w, c) m"
    using fit_batches_ok [OF Cons.prems im(1,2) lab bs] by blast
  let ?pr = "if e mod 10 = 1 \<or> e = epochs then printed @ [L / real n] else printed"
  have pr: "(if e mod 10 = 1 \<or> e = epochs then (if n = 0 then Inl ZeroDivisionError else Inr (printed @ [L / real n]))
             else Inr printed) = Inr ?pr"
    using im(3) by simp
  obtain s' pr' where r: "fit_epochs images labels bs lr epochs es (s1, ?pr) = Inr (s', pr')" "net_ok s' (h, w, c) m"
      "length pr' = length ?pr + length (filter (\<lambda>e. e mod 10 = 1 \<or> e = epochs) es)"
    using Cons.IH [OF b(2)] by blast
  have "fit_epochs images labels bs lr epochs (e # es) (s, printed) = Inr (s', pr')"
    using im(2) b(1) pr r(1) by (simp add: py_len_def del: fit_batches.simps)
  then show ?case using r(2,3) by simp
qed

lemma fit_ok:
  assumes ok: "net_ok s (h, w, c) m" and im: "wf_arr images" "shape images = [n, h, w, c]" "0 < n"
    and lab: "labels_ok n m labels" and bs: "0 < bs"
  shows "\<exists>s' P pr. fit s epochs images labels bs lr = Inr (s', P, pr) \<and> wf_arr P \<and> shape P = [n, m]
           \<and> net_ok s' (h, w, c) m \<and> length pr = length (filter (\<lambda>e. e mod 10 = 1 \<or> e = epochs) [1..<epochs + 1])"
proof -
  obtain s1 pr where e: "fit_epochs images labels bs lr epochs [1..<epochs + 1] (s, []) = Inr (s1, pr)"
      "net_ok s1 (h, w, c) m" "length pr = length (filter (\<lambda>e. e mod 10 = 1 \<or> e = epochs) [1..<epochs + 1])"
    using fit_epochs_ok [OF ok im lab bs, of lr epochs "[1..<epochs + 1]" "[]"] by auto
  obtain s2 P where "seq_forward s1 images = Inr (s2, P)" "wf_arr P" "shape P = [n, m]" "net_ok s2 (h, w, c) m"
    using seq_step_ok [OF e(2) im(1,2,3)] by blast
  then show ?thesis using e(1,3) by (simp add: fit_def)
qed

lemma train_reach_net_ok:
  "train_reach h w c m s s' \<Longrightarrow> net_ok s (h, w, c) m \<Longrightarrow> net_ok s' (h, w, c) m"
proof (induction rule: train_reach.induct)
  case (start s)
  then show ?case .
next
  case (step s s1 x b s2 y G lr s3)
  obtain s2' y' where f: "seq_forward s1 x = Inr (s2', y')"
    and bw: "\<And>G lr. wf_arr G \<Longrightarrow> shape G = [b, m] \<Longrightarrow> \<exists>s3. seq_backward s2' G lr = Inr s3 \<and> net_ok s3 (h, w, c) m"
    using seq_step_ok [OF step.IH [OF step.prems] step.hyps(2,3,4)] by blast
  have "s2' = s2" using f step.hyps(5) by simp
  then show ?case using bw [OF step.hyps(6,7), of lr] step.hyps(8) by auto
qed

lemma demo_net_ok: "net_ok demo_net (4, 4, 1) 3"
  by (simp add: demo_net_def net_ok_def sequential_new_def add_conv_pool_layer_def add_dense_layer_def conv_ok_def
      conv2d_new_def dense_ok_def dense_new_def)

subsection \<open>Properties of training\<close>

text \<open>C29: \<^verbatim>\<open>fit\<close> always returns on a consistent network: when the layers of \<open>s\<close> fit
  images of size \<open>(h, w, c)\<close> and produce \<open>m\<close> scores, the dataset is a non-empty
  well-formed array of such images, every label lies in \<open>[0, m)\<close> and the batch size is
  positive, then for any number of epochs and any learning rate \<^verbatim>\<open>fit\<close> raises no
  exception: it returns predictions of shape \<open>(n, m)\<close>, a network that is still
  consistent, and one printed loss for each epoch \<open>e\<close> with \<open>e mod 10 = 1\<close> or
  \<open>e = epochs\<close>.\<close>

theorem fit_returns:
  assumes "net_ok s (h, w, c) m" "wf_arr images" "shape images = [n, h, w, c]" "0 < n"
    and "labels_ok n m labels" "0 < batch_size"
  shows "\<exists>s' P printed. fit s epochs images labels batch_size lr = Inr (s', P, printed)
           \<and> wf_arr P \<and> shape P = [n, m] \<and> net_ok s' (h, w, c) m
           \<and> length printed = length (filter (\<lambda>e. e mod 10 = 1 \<or> e = epochs) [1..<epochs + 1])"
  using assms by (rule fit_ok)

text \<open>C30: consistency is an invariant of training: every network reached from a consistent
  one by any sequence of training steps (forward on a non-empty well-formed batch of
  \<open>(h, w, c)\<close> images, then backward with a well-formed gradient of shape \<open>(B, m)\<close>, in any
  order of batch sizes and learning rates) is still consistent, and from it the next
  training step cannot raise: forward returns scores of shape \<open>(B, m)\<close> and backward
  with any such gradient returns.\<close>

theorem training_preserves_consistency:
  assumes "net_ok s (h, w, c) m" and "train_reach h w c m s s'"
  shows "net_ok s' (h, w, c) m
       \<and> (\<forall>x b. wf_arr x \<longrightarrow> shape x = [b, h, w, c] \<longrightarrow> 0 < b \<longrightarrow>
            (\<exists>s2 y. seq_forward s' x = Inr (s2, y) \<and> shape y = [b, m]
               \<and> (\<forall>G lr. wf_arr G \<longrightarrow> shape G = [b, m] \<longrightarrow> (\<exists>s3. seq_backward s2 G lr = Inr s3))))"
proof -
  have ok: "net_ok s' (h, w, c) m" using assms(2,1) by (rule train_reach_net_ok)
  moreover have "\<exists>s2 y. seq_forward s' x = Inr (s2, y) \<and> shape y = [b, m]
               \<and> (\<forall>G lr. wf_arr G \<longrightarrow> shape G = [b, m] \<longrightarrow> (\<exists>s3. seq_backward s2 G lr = Inr s3))"
    if "wf_arr x" "shape x = [b, h, w, c]" "0 < b" for x b
    using seq_step_ok [OF ok that] by blast
  ultimately show ?thesis by blast
qed

theorem fit_returns_witness:
  "\<exists>s' P printed. fit demo_net 12 \<lparr>shape = [2, 4, 4, 1], data = replicate 32 (1 / 2)\<rparr> [0, 2] 1 (1 / 100)
       = Inr (s', P, printed) \<and> shape P = [2, 3] \<and> length printed = 3"
proof -
  have lab: "labels_ok 2 3 [0, 2]" by (simp add: labels_ok_def)
  have ep: "filter (\<lambda>e. e mod 10 = 1 \<or> e = 12) [1..<12 + 1] = [1, 11, 12]"
    by (simp add: upt_rec)
  have wf: "wf_arr \<lparr>shape = [2, 4, 4, 1], data = replicate 32 (1 / 2 :: real)\<rparr>" by simp
  show ?thesis
    using fit_returns [OF demo_net_ok wf _ _ lab, where batch_size = 1 and epochs = 12 and lr = "1 / 100"] ep
    by auto
qed

theorem training_preserves_consistency_witness:
  "\<exists>s'. train_reach 4 4 1 3 demo_net s' \<and> net_ok s' (4, 4, 1) 3
     \<and> (\<exists>s2 y. seq_forward s' \<lparr>shape = [2, 4, 4, 1], data = replicate 32 (1 / 2)\<rparr> = Inr (s2, y) \<and> shape y = [2, 3])"
proof -
  let ?x = "\<lparr>shape = [2, 4, 4, 1], data = replicate 32 (1 / 2 :: real)\<rparr>"
  let ?G = "\<lparr>shape = [2, 3], data = replicate 6 (1 :: real)\<rparr>"
  have ok: "net_ok demo_net (4, 4, 1) 3" by (rule demo_net_ok)
  have x: "wf_arr ?x" "shape ?x = [2, 4, 4, 1]" "(0::nat) < 2" by simp_all
  obtain s2 y where f: "seq_forward demo_net ?x = Inr (s2, y)"
    and bw: "\<And>G lr. wf_arr G \<Longrightarrow> shape G = [2, 3] \<Longrightarrow> \<exists>s3. seq_backward s2 G lr = Inr s3 \<and> net_ok s3 (4, 4, 1) 3"
    using seq_step_ok [OF ok x] by blast
  obtain s3 where b: "seq_backward s2 ?G (1 / 10) = Inr s3" using bw [of ?G "1 / 10"] by auto
  have r: "train_reach 4 4 1 3 demo_net s3"
    by (rule train_reach.step [OF train_reach.start x f _ _ b]) simp_all
  have inv: "net_ok s3 (4, 4, 1) 3" and "\<exists>s2 y. seq_forward s3 ?x = Inr (s2, y) \<and> shape y = [2, 3]"
    using training_preserves_consistency [OF ok r] x by blast+
  then show ?thesis using r by blast
qed

end
