(* ===== verification/Demo.thy ===== *)
theory Demo
  imports Network
begin

text \<open>
  The demonstration script of \<^verbatim>\<open>src/main.py\<close> (lines 357--438). The random draws
  are arguments: \<open>normal k ds\<close> is the array returned by the \<open>k\<close>-th call of
  \<^verbatim>\<open>np.random.normal\<close> with shape \<open>ds\<close> (the state of numpy's generator is the
  counter \<open>rng_draws\<close>), and the images and labels drawn by \<^verbatim>\<open>np.random.randint\<close>
  are arguments of \<open>demo_main\<close>. The loop that assembles the topology from
  \<^verbatim>\<open>conv_output_channels\<close> (lines 389--402) is \<open>build_layer\<close>, one iteration per
  entry, over the record \<open>build_state\<close> of the script's variables; \<open>build_model\<close>
  adds the two dense layers and counts the trainable parameters (lines 378--411);
  \<open>argmax_rows\<close> is \<^verbatim>\<open>np.argmax(predictions, axis=1)\<close> and \<open>count_correct\<close> the
  accuracy loop. Printing and timing are output only: \<open>demo_main\<close> returns the
  values the script prints.
\<close>

text \<open>\<^verbatim>\<open>a.size\<close>: the number of elements of an array.\<close>

definition np_size :: "'a ndarray \<Rightarrow> nat" where
  "np_size a = prod_list (shape a)"

record build_state =
  model :: sequential
  trainable_parameters :: int
  conv :: "conv2d option"
  current_height :: int
  current_width :: int
  rng_draws :: nat

text \<open>One iteration of the topology loop: a positive entry adds a 3x3 convolution whose
  input channels are \<^verbatim>\<open>channels\<close> for the first entry and
  \<^verbatim>\<open>conv.output_channels\<close> of the last convolution otherwise (an
  \<open>AttributeError\<close> while \<^verbatim>\<open>conv\<close> is still \<^verbatim>\<open>None\<close>); any other entry adds a
  pooling layer; then the tracked size must stay positive.\<close>

definition build_layer ::
  "(nat \<Rightarrow> nat list \<Rightarrow> real ndarray) \<Rightarrow> nat \<Rightarrow> int list \<Rightarrow> nat \<Rightarrow> build_state \<Rightarrow> build_state result" where
  "build_layer normal channels conv_output_channels i st =
     ebind (if 0 < conv_output_channels ! i then
              ebind (if i = 0 then Inr channels
                     else (case conv st of None \<Rightarrow> Inl AttributeError | Some c \<Rightarrow> Inr (conv_out_channels c)))
                (\<lambda>input_channels.
                 let output_channels = nat (conv_output_channels ! i);
                     c = conv2d_new input_channels output_channels (3, 3)
                           (normal (rng_draws st) [output_channels, input_channels, 3, 3]) in
                 Inr (st\<lparr>model := add_conv_pool_layer (model st) (ConvLayer c),
                         trainable_parameters := trainable_parameters st + int (np_size (conv_weights c) + np_size (conv_biases c)),
                         conv := Some c, current_height := current_height st - 2,
                         current_width := current_width st - 2, rng_draws := rng_draws st + 1\<rparr>))
            else Inr (st\<lparr>model := add_conv_pool_layer (model st) (PoolLayer maxpool_new),
                        current_height := current_height st div 2, current_width := current_width st div 2\<rparr>))
       (\<lambda>st. if current_height st \<le> 0 \<or> current_width st \<le> 0 then Inl ValueError else Inr st)"

text \<open>Lines 378--411: the topology loop, then \<^verbatim>\<open>dense1\<close> with
  \<^verbatim>\<open>current_height * current_width * conv.output_channels\<close> inputs (positive after the
  loop's check), \<^verbatim>\<open>dense2\<close> with \<^verbatim>\<open>classes\<close> outputs, and the parameter count.\<close>

definition build_model ::
  "(nat \<Rightarrow> nat list \<Rightarrow> real ndarray) \<Rightarrow> nat \<Rightarrow> nat \<Rightarrow> nat \<Rightarrow> nat \<Rightarrow> int list \<Rightarrow> (sequential \<times> int) result" where
  "build_model normal height width channels classes conv_output_channels =
     ebind (for_each [0..<length conv_output_channels] (build_layer normal channels conv_output_channels)
              \<lparr>model = sequential_new, trainable_parameters = 0, conv = None,
               current_height = int height, current_width = int width, rng_draws = 0\<rparr>) (\<lambda>st.
     ebind (case conv st of None \<Rightarrow> Inl AttributeError | Some c \<Rightarrow> Inr (conv_out_channels c)) (\<lambda>conv_out.
     let dense1_in = nat (current_height st * current_width st * int conv_out);
         dense1 = dense_new dense1_in 32 ''relu'' (normal (rng_draws st) [dense1_in, 32]);
         dense2 = dense_new 32 classes ''softmax'' (normal (rng_draws st + 1) [32, classes]);
         m = add_dense_layer (add_dense_layer (model st) dense1) dense2 in
     Inr (m, fold (\<lambda>l tp. tp + int (np_size (dense_weights l) + np_size (dense_biases l)))
               (dense_layers m) (trainable_parameters st))))"

text \<open>\<^verbatim>\<open>np.argmax(predictions, axis=1)\<close>: the first maximal position of each row.\<close>

definition argmax_rows :: "real ndarray \<Rightarrow> nat list result" where
  "argmax_rows p = (case shape p of [b, m] \<Rightarrow> emap (\<lambda>i. np_argmax (mat_row p i)) [0..<b] | _ \<Rightarrow> Inl ValueError)"

text \<open>The accuracy loop over \<^verbatim>\<open>zip(predicted_labels, labels)\<close> (lines 431--435).\<close>

definition count_correct :: "nat list \<Rightarrow> int list \<Rightarrow> nat" where
  "count_correct predicted_labels labels =
     fold (\<lambda>(p, l) n. if int p = l then n + 1 else n) (zip predicted_labels labels) 0"

text \<open>The script with its constants: 20x20 grey images, 10 images, 5 classes, 20
  epochs, batch size 32, learning rate 0.01, topology \<^verbatim>\<open>[16, -1, 32, -1, 64]\<close>.
  It returns the parameter count, the printed losses, the predicted labels and the
  number of correct predictions.\<close>

definition demo_main ::
  "(nat \<Rightarrow> nat list \<Rightarrow> real ndarray) \<Rightarrow> real ndarray \<Rightarrow> int list \<Rightarrow> (int \<times> real list \<times> nat list \<times> nat) result" where
  "demo_main normal raw_images labels =
     (let width = 20; height = 20; channels = 1; classes = 5; epochs = 20; batch_size = 32;
          images = amap (\<lambda>x. x / 255) raw_images in
      ebind (build_model normal height width channels classes [16, -1, 32, -1, 64]) (\<lambda>(model, trainable_parameters).
      ebind (fit model epochs images labels batch_size (1 / 100)) (\<lambda>(model, predictions, printed).
      ebind (argmax_rows predictions) (\<lambda>predicted_labels.
      Inr (trainable_parameters, printed, predicted_labels, count_correct predicted_labels labels)))))"

text \<open>The invariant of the topology loop: no dense layer yet, the tracked size is that of
  the spatial layers added so far, and the tracked channel count is that of the last
  convolution (the input's before the first one).\<close>

definition build_inv :: "nat \<Rightarrow> nat \<Rightarrow> nat \<Rightarrow> build_state \<Rightarrow> bool" where
  "build_inv height width channels st \<longleftrightarrow>
     dense_layers (model st) = [] \<and> 0 \<le> current_height st \<and> 0 \<le> current_width st \<and>
     spatial_chain (conv_pool_layers (model st)) (height, width, channels)
       = Some (nat (current_height st), nat (current_width st),
               case conv st of None \<Rightarrow> channels | Some c \<Rightarrow> conv_out_channels c)"

subsection \<open>The topology loop\<close>

lemma build_layer_inv:
  assumes sh: "\<And>k ds. shape (normal k ds) = ds" and wf: "\<And>k ds. wf_arr (normal k ds)"
    and inv: "build_inv height width channels st" and first: "i = 0 \<Longrightarrow> conv st = None"
    and step: "build_layer normal channels cs i st = Inr st'"
  shows "build_inv height width channels st'"
proof -
  let ?ch = "case conv st of None \<Rightarrow> channels | Some c \<Rightarrow> conv_out_channels c"
  have chain: "spatial_chain (conv_pool_layers (model st)) (height, width, channels)
      = Some (nat (current_height st), nat (current_width st), ?ch)"
    and hw: "0 \<le> current_height st" "0 \<le> current_width st" and nd: "dense_layers (model st) = []"
    using inv by (simp_all add: build_inv_def)
  show ?thesis
  proof (cases "0 < cs ! i")
    case True
    obtain input_channels where ic: "(if i = 0 then Inr channels
        else (case conv st of None \<Rightarrow> Inl AttributeError | Some c \<Rightarrow> Inr (conv_out_channels c))) = Inr input_channels"
      using step True by (auto simp: build_layer_def ebind_eq_Inr)
    have ich: "input_channels = ?ch" using ic first by (auto split: if_splits option.splits)
    let ?oc = "nat (cs ! i)"
    let ?c = "conv2d_new input_channels ?oc (3, 3) (normal (rng_draws st) [?oc, input_channels, 3, 3])"
    have st': "st' = st\<lparr>model := add_conv_pool_layer (model st) (ConvLayer ?c),
                 trainable_parameters := trainable_parameters st + int (np_size (conv_weights ?c) + np_size (conv_biases ?c)),
                 conv := Some ?c, current_height := current_height st - 2,
                 current_width := current_width st - 2, rng_draws := rng_draws st + 1\<rparr>"
      and pos: "0 < current_height st - 2" "0 < current_width st - 2"
      using step True ic by (auto simp: build_layer_def Let_def split: if_splits)
    have n2: "2 \<le> nat (current_height st)" "2 \<le> nat (current_width st)"
      using pos by (simp_all add: le_nat_iff)
    have ok: "conv_ok ?c (nat (current_height st), nat (current_width st), ?ch)"
      using n2 ich sh wf by (simp add: conv_ok_def conv2d_new_def)
    have "spatial_out (ConvLayer ?c) (nat (current_height st), nat (current_width st), ?ch)
        = Some (nat (current_height st - 2), nat (current_width st - 2), ?oc)"
      using ok pos by (simp add: conv2d_new_def nat_diff_distrib)
    then show ?thesis
      using chain nd pos st' by (simp add: build_inv_def add_conv_pool_layer_def spatial_chain_append conv2d_new_def del: spatial_out.simps)
  next
    case False
    have st': "st' = st\<lparr>model := add_conv_pool_layer (model st) (PoolLayer maxpool_new),
                 current_height := current_height st div 2, current_width := current_width st div 2\<rparr>"
      and pos: "0 < current_height st div 2" "0 < current_width st div 2"
      using step False by (auto simp: build_layer_def split: if_splits)
    have "nat (current_height st div 2) = nat (current_height st) div 2"
      "nat (current_width st div 2) = nat (current_width st) div 2"
      using hw by (simp_all add: nat_div_distrib)
    then show ?thesis
      using chain nd pos hw st' by (simp add: build_inv_def add_conv_pool_layer_def spatial_chain_append)
  qed
qed

lemma build_loop_inv:
  assumes sh: "\<And>k ds. shape (normal k ds) = ds" and wf: "\<And>k ds. wf_arr (normal k ds)"
  shows "for_each [0..<k] (build_layer normal channels cs)
           \<lparr>model = sequential_new, trainable_parameters = 0, conv = None,
            current_height = int height, current_width = int width, rng_draws = 0\<rparr> = Inr st
         \<Longrightarrow> build_inv height width channels st"
proof (induction k arbitrary: st)
  case 0
  then show ?case by (auto simp: build_inv_def sequential_new_def)
next
  case (Suc k)
  obtain t where t: "for_each [0..<k] (build_layer normal channels cs)
           \<lparr>model = sequential_new, trainable_parameters = 0, conv = None,
            current_height = int height, current_width = int width, rng_draws = 0\<rparr> = Inr t"
    and step: "build_layer normal channels cs k t = Inr st"
    using Suc.prems by (auto simp: for_each_snoc ebind_eq_Inr)
  have "k = 0 \<Longrightarrow> conv t = None" using t by auto
  then show ?case using build_layer_inv [OF sh wf Suc.IH [OF t] _ step] by blast
qed

lemma build_model_net_ok:
  assumes sh: "\<And>k ds. shape (normal k ds) = ds" and wf: "\<And>k ds. wf_arr (normal k ds)"
    and cl: "0 < classes" and b: "build_model normal height width channels classes cs = Inr (s, tp)"
  shows "net_ok s (height, width, channels) classes"
proof -
  obtain st c where loop: "for_each [0..<length cs] (build_layer normal channels cs)
           \<lparr>model = sequential_new, trainable_parameters = 0, conv = None,
            current_height = int height, current_width = int width, rng_draws = 0\<rparr> = Inr st"
    and c: "conv st = Some c"
    using b by (auto simp: build_model_def ebind_eq_Inr split: option.splits)
  have inv: "build_inv height width channels st" using loop by (rule build_loop_inv [OF sh wf])
  let ?n = "nat (current_height st * current_width st * int (conv_out_channels c))"
  have n: "?n = nat (current_height st) * nat (current_width st) * conv_out_channels c"
    using inv by (simp add: build_inv_def nat_mult_distrib)
  let ?d1 = "dense_new ?n 32 ''relu'' (normal (rng_draws st) [?n, 32])"
  let ?d2 = "dense_new 32 classes ''softmax'' (normal (rng_draws st + 1) [32, classes])"
  have s: "s = add_dense_layer (add_dense_layer (model st) ?d1) ?d2"
    using b loop c by (simp add: build_model_def Let_def)
  have "dense_chain [?d1, ?d2] ?n = Some classes"
    using sh wf cl by (simp add: dense_ok_def dense_new_def)
  then show ?thesis
    using inv c n s by (simp add: net_ok_def build_inv_def add_dense_layer_def)
qed

subsection \<open>The script\<close>

lemma build_demo:
  assumes sh: "\<And>k ds. shape (normal k ds) = ds"
  shows "\<exists>s. build_model normal 20 20 1 5 [16, -1, 32, -1, 64] = Inr (s, 25541)"
  by (simp add: build_model_def build_layer_def numeral_eq_Suc upt_rec np_size_def conv2d_new_def dense_new_def
      add_conv_pool_layer_def add_dense_layer_def sequential_new_def Let_def sh)

lemma argmax_rows_ok:
  assumes "shape p = [b, m]" "0 < m"
  shows "\<exists>ps. argmax_rows p = Inr ps \<and> length ps = b \<and> (\<forall>q \<in> set ps. q < m)"
proof -
  have ne: "mat_row p i \<noteq> []" for i using assms by (simp add: mat_row_def)
  let ?g = "\<lambda>i. first_index (list_max (mat_row p i)) (mat_row p i)"
  have "emap (\<lambda>i. np_argmax (mat_row p i)) [0..<b] = Inr (map ?g [0..<b])"
    by (rule emap_Inr) (simp add: np_argmax_def ne)
  moreover have "?g i < m" for i
    using first_index_lt [OF list_max_in [OF ne [of i]]] assms(1) by (simp add: mat_row_def)
  ultimately show ?thesis using assms(1) by (auto simp: argmax_rows_def)
qed

lemma fold_count_le: "fold (\<lambda>(p, l) n. if int p = l then n + 1 else n) xs n0 \<le> n0 + length xs"
proof (induction xs arbitrary: n0)
  case Nil then show ?case by simp
next
  case (Cons x xs)
  show ?case using Cons.IH [of "n0 + 1"] Cons.IH [of n0] by (cases x) auto
qed

lemma count_correct_le: "count_correct ps ls \<le> length ps"
  using fold_count_le [of "zip ps ls" 0] by (simp add: count_correct_def)

lemma demo_main_ok:
  assumes sh: "\<And>k ds. shape (normal k ds) = ds" and wf: "\<And>k ds. wf_arr (normal k ds)"
    and raw: "wf_arr raw_images" "shape raw_images = [10, 20, 20, 1]" and lab: "labels_ok 10 5 labels"
  shows "\<exists>printed predicted correct. demo_main normal raw_images labels = Inr (25541, printed, predicted, correct)
           \<and> length printed = 3 \<and> length predicted = 10 \<and> (\<forall>q \<in> set predicted. q < 5) \<and> correct \<le> 10"
proof -
  obtain s where b: "build_model normal 20 20 1 5 [16, -1, 32, -1, 64] = Inr (s, 25541)"
    using build_demo [of normal, OF sh] by blast
  have ok: "net_ok s (20, 20, 1) 5" using build_model_net_ok [where normal = normal, OF sh wf _ b] by simp
  let ?im = "amap (\<lambda>x. x / 255) raw_images"
  have ep: "filter (\<lambda>e. e mod 10 = 1 \<or> e = 20) [1..<20 + 1] = [1, 11, 20]" by (simp add: upt_rec)
  obtain s' P pr where f: "fit s 20 ?im labels 32 (1 / 100) = Inr (s', P, pr)" "shape P = [10, 5]" "length pr = 3"
    using fit_ok [OF ok, of ?im 10 labels 32 20 "1 / 100"] raw lab ep by auto
  obtain ps where a: "argmax_rows P = Inr ps" "length ps = 10" "\<forall>q \<in> set ps. q < 5"
    using argmax_rows_ok [OF f(2)] by auto
  have "count_correct ps labels \<le> 10" using count_correct_le [of ps labels] a(2) by simp
  then show ?thesis using b f(1,3) a by (simp add: demo_main_def)
qed

subsection \<open>Properties of the script\<close>

text \<open>C34: whatever topology list, image size and class count the script is given, when
  the random draws have the requested shapes, at least one class is asked for and the
  topology loop with its size check and the dense layers are built without an
  exception, the network is shape-consistent for the script's images: every layer fits
  the output of the one before it and the network produces \<^verbatim>\<open>classes\<close> scores, so the
  dimension bookkeeping of the script (\<^verbatim>\<open>current_height -= 2\<close>, \<^verbatim>\<open>//= 2\<close>, and
  \<^verbatim>\<open>dense1\<close>'s input size) agrees with what the layers compute.\<close>

theorem build_model_consistent:
  assumes "\<And>k ds. shape (normal k ds) = ds" "\<And>k ds. wf_arr (normal k ds)" "0 < classes"
    and "build_model normal height width channels classes conv_output_channels = Inr (s, tp)"
  shows "net_ok s (height, width, channels) classes"
  using assms by (rule build_model_net_ok)

text \<open>C35: the demonstration script runs to completion: for any random draws of the
  requested shapes, any 10 images of size 20x20x1 and any labels in \<open>[0, 5)\<close>, it raises
  no exception, reports 25541 trainable parameters, prints the loss at epochs 1, 11 and
  20, predicts a class in \<open>[0, 5)\<close> for each of the 10 images, and counts at most 10
  correct predictions.\<close>

theorem demo_runs_to_completion:
  assumes "\<And>k ds. shape (normal k ds) = ds" "\<And>k ds. wf_arr (normal k ds)"
    and "wf_arr raw_images" "shape raw_images = [10, 20, 20, 1]" "labels_ok 10 5 labels"
  shows "\<exists>printed predicted correct. demo_main normal raw_images labels = Inr (25541, printed, predicted, correct)
           \<and> length printed = 3 \<and> length predicted = 10 \<and> (\<forall>q \<in> set predicted. q < 5) \<and> correct \<le> 10"
  using assms by (rule demo_main_ok)

text \<open>C36: a topology that starts with a pooling layer cannot be built: the convolution
  after it reads \<^verbatim>\<open>conv.output_channels\<close> while \<^verbatim>\<open>conv\<close> is still \<^verbatim>\<open>None\<close> and
  raises \<open>AttributeError\<close>, although the pooling layer leaves the channel count
  \<^verbatim>\<open>channels\<close> unchanged; a topology with no convolution at all raises the same error
  when \<^verbatim>\<open>dense1\<close> is sized.\<close>

theorem build_model_attribute_error:
  assumes "c0 \<le> 0" "0 < k" "2 \<le> height" "2 \<le> width"
  shows "build_model normal height width channels classes [c0, k] = Inl AttributeError
       \<and> build_model normal height width channels classes [] = Inl AttributeError"
proof -
  have "0 < int height div 2" "0 < int width div 2" using assms(3,4) by simp_all
  then show ?thesis using assms(1,2) by (simp add: build_model_def build_layer_def upt_rec)
qed

text \<open>C37: the size check of the topology loop is exact for the script's topology
  \<^verbatim>\<open>[16, -1, 32, -1, 64]\<close>: building raises \<open>ValueError\<close> exactly when the height or
  the width is below 18, and succeeds otherwise (18 shrinks to 16, 8, 6, 3 and 1).\<close>

theorem demo_topology_bounds:
  "(height < 18 \<or> width < 18 \<longrightarrow> build_model normal height width channels classes [16, -1, 32, -1, 64] = Inl ValueError)
   \<and> (18 \<le> height \<and> 18 \<le> width \<longrightarrow> (\<exists>s tp. build_model normal height width channels classes [16, -1, 32, -1, 64] = Inr (s, tp)))"
  by (simp add: build_model_def build_layer_def numeral_eq_Suc upt_rec Let_def split: if_splits; presburger)

theorem build_model_consistent_witness:
  "\<exists>s tp. build_model (\<lambda>k ds. zeros ds) 20 20 1 5 [16, -1, 32, -1, 64] = Inr (s, tp) \<and> net_ok s (20, 20, 1) 5"
proof -
  obtain s where b: "build_model (\<lambda>k ds. zeros ds) 20 20 1 5 [16, -1, 32, -1, 64] = Inr (s, 25541)"
    using build_demo [of "\<lambda>k ds. zeros ds"] by auto
  have "net_ok s (20, 20, 1) 5"
    using build_model_consistent [of "\<lambda>k ds. zeros ds", OF _ _ _ b] by simp
  then show ?thesis using b by blast
qed

theorem demo_runs_to_completion_witness:
  "\<exists>printed predicted correct.
     demo_main (\<lambda>k ds. zeros ds) \<lparr>shape = [10, 20, 20, 1], data = replicate 4000 0\<rparr> [0, 1, 2, 3, 4, 0, 1, 2, 3, 4]
       = Inr (25541, printed, predicted, correct) \<and> length predicted = 10"
proof -
  have lab: "labels_ok 10 5 [0, 1, 2, 3, 4, 0, 1, 2, 3, 4]" by (simp add: labels_ok_def)
  show ?thesis
    using demo_runs_to_completion [of "\<lambda>k ds. zeros ds" "\<lparr>shape = [10, 20, 20, 1], data = replicate 4000 0\<rparr>", OF _ _ _ _ lab]
    by auto
qed

theorem build_model_attribute_error_witness:
  "build_model (\<lambda>k ds. zeros ds) 20 20 1 5 [-1, 16] = Inl AttributeError
   \<and> build_model (\<lambda>k ds. zeros ds) 20 20 1 5 [] = Inl AttributeError"
  using build_model_attribute_error [of "-1" 16 20 20 "\<lambda>k ds. zeros ds" 1 5] by simp

theorem demo_topology_bounds_witness:
  "build_model (\<lambda>k ds. zeros ds) 17 20 1 5 [16, -1, 32, -1, 64] = Inl ValueError
   \<and> (\<exists>s tp. build_model (\<lambda>k ds. zeros ds) 18 18 1 5 [16, -1, 32, -1, 64] = Inr (s, tp))"
  using demo_topology_bounds [of 17 20 "\<lambda>k ds. zeros ds" 1 5] demo_topology_bounds [of 18 18 "\<lambda>k ds. zeros ds" 1 5]
  by simp

end
