(* ===== verification/Spec2Isabelle.thy ===== *)
theory Spec2Isabelle
  imports Demo
begin

text \<open>
  A verification development for \<^verbatim>\<open>src/main.py\<close> of the repository
  Convolutional-Neural-Network: a convolutional network trained by hand-written
  forward and backward passes over numpy arrays.

  \<^bold>\<open>The program.\<close> \<^verbatim>\<open>Conv2d\<close> (valid convolution, bias, ReLU),
  \<^verbatim>\<open>MaxPooling2D\<close> (2x2, stride 2) and \<^verbatim>\<open>Dense\<close> (affine map with ReLU or softmax)
  each keep their parameters and the input of the last forward call, and update the
  parameters in place in \<^verbatim>\<open>backward\<close>. \<^verbatim>\<open>cross_entropy_loss\<close> and
  \<^verbatim>\<open>cross_entropy_gradient\<close> score the softmax output. \<^verbatim>\<open>Sequential\<close> runs the
  spatial layers, flattens each sample, runs the dense layers, and in
  \<^verbatim>\<open>backward\<close> runs the dense layers in reverse, unflattens and runs the spatial
  layers in reverse; \<^verbatim>\<open>fit\<close> loops over epochs and contiguous batches.
  The script at the end of the file assembles a network from a topology list,
  checks that the image size stays positive, counts the parameters, trains on
  random data and counts the correct predictions.

  \<^bold>\<open>The model.\<close> Shallow embedding, one theory per part:
  \<^item> \<open>CNN_Prelude\<close>: Python exceptions as \<open>py_error\<close>, results as
    \<open>py_error + 'a\<close>, a Python \<^verbatim>\<open>for\<close> loop whose body may raise as \<open>for_each\<close>,
    a vectorised operation that may raise as \<open>emap\<close>; loop lemmas (\<open>for_each_fold\<close>,
    \<open>for_each_concat\<close>, \<open>fold_add_sum_list\<close>).
  \<^item> \<open>NDArray\<close>: a numpy array as \<open>'a ndarray\<close> (shape and row-major buffer);
    indexing \<open>get\<close>/\<open>upd\<close>/\<open>add_at\<close> raise \<open>IndexError\<close> out of range as numpy
    does; \<open>np.zeros\<close> with a negative dimension raises \<open>ValueError\<close>. Lemmas:
    row-major numbering of indices (\<open>map_offset_all_indices\<close>), extensionality
    (\<open>arr_ext\<close>), writes and \<^verbatim>\<open>+=\<close> loops (\<open>entry_fold_setv\<close>,
    \<open>entry_fold_bump\<close>).
  \<^item> \<open>Loss\<close>: \<^verbatim>\<open>cross_entropy_loss\<close>, \<^verbatim>\<open>cross_entropy_gradient\<close> (lines
    17--40), with numpy's fancy indexing (broadcast of \<^verbatim>\<open>np.arange\<close> with the
    labels, negative labels counted from the end). Proved: both equal their closed
    forms on well-formed input; gradient rows sum to \<open>(\<Sum>p - 1)/B\<close>; the spec's
    examples; an out-of-range label raises; a label in \<open>[-C, 0)\<close> is silently read as
    \<open>C + l\<close> (\<open>wrap_label\<close>); for probabilities in \<open>[0, 1]\<close> the loss lies in
    \<open>[-ln (1 + 1e-15), -ln 1e-15]\<close>, with the negative lower bound reached exactly when
    every labelled probability is 1.

  \<^item> \<open>Conv2d\<close>: the record \<open>conv2d\<close> (\<^verbatim>\<open>Conv2d\<close>, lines 44--131), its
    constructor \<open>conv2d_new\<close> and the loops \<open>conv_forward\<close>, \<open>conv_backward_at\<close>,
    \<open>conv_backward\<close>, translated loop for loop. Proved: forward equals the valid
    convolution plus bias through ReLU, also for an input with fewer channels than the
    weights; backward returns the transposed convolution and applies the raw-sum bias
    and weight gradients (no division by the batch size); forward then backward never
    raises on fitting shapes; a zero gradient changes nothing; the spec's
    identity-kernel example; the shape errors (kernel too large, zero height).
  \<^item> \<open>MaxPool\<close>: \<open>pool_forward\<close> and \<open>pool_backward\<close> (\<^verbatim>\<open>MaxPooling2D\<close>, lines
    197--252) with numpy's clipped slices, \<^verbatim>\<open>np.max\<close>, \<^verbatim>\<open>np.argmax\<close>,
    \<^verbatim>\<open>np.unravel_index\<close>. Proved: forward is the window maximum; backward sends each
    upstream value to the first maximum of its window, conserving the gradient's sum;
    backward accepts any upstream gradient up to \<open>\<lceil>H / 2\<rceil> x \<lceil>W / 2\<rceil>\<close>, larger
    than the forward output for odd sizes, through windows clipped at the edge.
  \<^item> \<open>Dense\<close>: \<open>dense_forward\<close>, \<open>dense_backward\<close> and \<open>activation_function\<close>
    (\<^verbatim>\<open>Dense\<close>, lines 134--193). Proved: forward is the affine map through ReLU or
    a row-wise softmax (positive, rows summing to 1); backward returns \<open>G W\<^sup>T\<close> and
    applies the averaged gradients; an update keeps the layer's shapes, so backward can be
    repeated; backward's result does not depend on the stored pre-activation, so the
    ReLU derivative is never applied; an unknown activation tag raises.
  \<^item> \<open>Sequential\<close>: the orchestrator (lines 255--354). The spatial layers meet it
    through the datatype \<open>spatial_layer\<close> and the dispatch functions
    \<open>spatial_forward\<close>/\<open>spatial_backward\<close>; \<open>seq_forward\<close>, \<open>seq_backward\<close>,
    \<open>seq_flatten\<close>, \<open>unflatten\<close>, and \<open>fit\<close> built from \<open>fit_epochs\<close>,
    \<open>fit_batches\<close> (the batch loop with its \<^verbatim>\<open>break\<close>) and \<open>fit_step\<close>. Proved:
    the flatten/unflatten round trip; flattening equals numpy's row-major
    \<^verbatim>\<open>reshape(B, H * W * C)\<close> (\<open>reshape_rows\<close>); the batch loop refines a loop over
    \<open>\<lceil>n / bs\<rceil>\<close> steps whose batches partition the samples; the loss \<^verbatim>\<open>fit\<close>
    prints is \<open>(n + 1) / n\<close> times the mean loss for one batch; \<^verbatim>\<open>fit\<close> on an empty
    dataset raises \<open>ZeroDivisionError\<close>; after forward each layer stores the output of
    the layer before it.
  \<^item> \<open>Network\<close>: an abstract specification of a well-shaped network, in the style of
    a layer-list consistency predicate: \<open>spatial_out\<close>, \<open>spatial_chain\<close>,
    \<open>dense_ok\<close>, \<open>dense_chain\<close> and \<open>net_ok s (h, w, c) m\<close>. The lemmas go layer by
    layer (\<open>conv_layer_ok\<close>, \<open>pool_layer_ok\<close>, \<open>dense_layer_ok\<close>), then along the
    lists (\<open>spatial_chain_ok\<close>, \<open>dense_chain_ok\<close>), then through
    \<^verbatim>\<open>Sequential.forward\<close>/\<^verbatim>\<open>backward\<close> (\<open>seq_step_ok\<close>), one batch, the batch loop and
    the epoch loop. Each shows that the operation succeeds with the predicted shapes and
    leaves the network consistent. The inductive relation \<open>train_reach\<close> collects the
    networks reached by training steps, that is a forward pass on a batch followed by a
    backward pass. Proved:
    \<^item> \<^verbatim>\<open>fit\<close> on a consistent network and a well-formed dataset always returns;
    \<^item> consistency is an invariant of every run of training steps, by rule induction,
      and from each reached network the next step cannot raise.
  \<^item> \<open>Demo\<close>: the demonstration script (lines 357--438). It models the topology loop
    \<open>build_layer\<close> with its size check, \<open>build_model\<close> with the two dense layers and the
    parameter count, \<open>argmax_rows\<close>, \<open>count_correct\<close> and \<open>demo_main\<close>. The random
    draws are arguments, and \<open>normal k ds\<close> is the \<open>k\<close>-th \<^verbatim>\<open>np.random.normal\<close>
    array. Proved:
    \<^item> the loop invariant \<open>build_inv\<close>, and that every topology the script accepts gives
      a consistent network;
    \<^item> that the script runs to completion with 25541 parameters;
    \<^item> the \<open>AttributeError\<close> of a topology starting with pooling;
    \<^item> the exact 18x18 lower bound of its size check for \<^verbatim>\<open>[16, -1, 32, -1, 64]\<close>.
  \<^item> This theory: the composition of the loss with the output layer as \<^verbatim>\<open>fit\<close>
    composes them, showing that the batch size divides the last layer's update twice.

  \<^bold>\<open>Loops and termination.\<close> Every loop of the program is a \<^verbatim>\<open>for\<close> over a
  finite \<^verbatim>\<open>range\<close> or list, so every operation is a total function (\<open>fun\<close> on
  lists, or \<open>for_each\<close>), and no fuel is needed. The remaining question is whether a
  call returns a value or raises. The liveness theorems (\<^verbatim>\<open>fit\<close> returns; the script
  runs to completion) state that the result is an \<open>Inr\<close> value, and they state the
  value itself.

  \<^bold>\<open>Numbers.\<close> Python floats are modelled as reals: rounding is not modelled, so
  sums are exact and their order does not matter. The logarithm of a non-positive
  number is not modelled (the program only takes the log of a softmax output plus
  epsilon). Python ints (labels, sizes) are \<open>int\<close> or \<open>nat\<close>.

  \<^bold>\<open>Not modelled.\<close> Every statement of \<^verbatim>\<open>src/main.py\<close> apart from the imports and
  the module docstring is translated. The following parts are left out because no
  faithful model of them exists in HOL; this is why the numpy primitives and the
  demonstration script are marked only partly modelled.
  \<^item> The random generator: every draw of \<^verbatim>\<open>np.random\<close> is an argument. This covers
    the weights of each layer, and the images and labels of the script.
  \<^item> Output and timing: \<^verbatim>\<open>np.set_printoptions\<close>, printing, \<^verbatim>\<open>sys.stdout\<close> and
    \<^verbatim>\<open>time\<close>. The printed values are returned instead.
  \<^item> Floating-point rounding.
  \<^item> The state left behind by a call that raised part-way, since a raising call
    returns only the exception.
  \<^item> Inputs of rank other than 2 for \<^verbatim>\<open>Dense\<close>, and other than 4 for the spatial
    layers.
\<close>

lemma ce_grad_spec_entry:
  "shape p = [b, m] \<Longrightarrow> length labels = b \<Longrightarrow> i < b \<Longrightarrow> j < m \<Longrightarrow>
   entry (ce_grad_spec p labels) [i, j] = (entry p [i, j] - (if int j = labels ! i then 1 else 0)) / real b"
  by (simp add: ce_grad_spec_def)

text \<open>C27: composition of the loss and the output layer, as \<^verbatim>\<open>fit\<close> composes them:
  the gradient \<^verbatim>\<open>cross_entropy_gradient\<close> hands to the last \<^verbatim>\<open>Dense\<close> layer is
  already divided by the batch size \<open>B\<close>, and \<^verbatim>\<open>Dense.backward\<close> divides the weight
  and bias gradients by \<open>B\<close> again, so the update applied is \<open>lr / B\<^sup>2\<close> times the
  summed gradient \<open>\<Sum>i. (p\<^sub>i - onehot\<^sub>i)\<close> (resp. \<open>\<Sum>i. input\<^sub>i (p\<^sub>i - onehot\<^sub>i)\<close>),
  that is \<open>1 / B\<close> times the gradient of the mean loss.\<close>

theorem softmax_head_double_normalisation:
  assumes ok: "dense_backward_ok layer p" and inp: "dense_input layer = Some input"
    and wf: "wf_arr p" and lab: "labels_ok (shape input ! 0) (dense_out_channels layer) labels"
  shows "\<exists>G. cross_entropy_gradient p labels = Inr G
           \<and> dense_backward layer G lr
             = Inr (layer\<lparr>dense_biases := tabulate [dense_out_channels layer] (\<lambda>j.
                        entry (dense_biases layer) j - lr * (\<Sum>i<shape input ! 0.
                          entry p [i, j ! 0] - (if int (j ! 0) = labels ! i then 1 else 0))
                          / (real (shape input ! 0) * real (shape input ! 0))),
                      dense_weights := tabulate (shape (dense_weights layer)) (\<lambda>j.
                        entry (dense_weights layer) j - lr * (\<Sum>i<shape input ! 0.
                          (entry p [i, j ! 1] - (if int (j ! 1) = labels ! i then 1 else 0)) * entry input [i, j ! 0])
                          / (real (shape input ! 0) * real (shape input ! 0)))\<rparr>,
                    dense_grad_input layer (ce_grad_spec p labels))"
proof -
  let ?b = "shape input ! 0" and ?m = "dense_out_channels layer"
  have sp: "shape p = [?b, ?m]" and sh: "dense_shapes_ok layer input"
    and w1: "shape (dense_weights layer) ! 1 = ?m"
    using ok inp by (simp_all add: dense_backward_ok_def)
  obtain b n m where s: "shape input = [b, n]" "shape (dense_weights layer) = [n, m]" "shape (dense_biases layer) = [m]"
    using sh by (rule dense_shapes_okE)
  have len: "length labels = ?b" using lab by (simp add: labels_ok_def)
  let ?G = "ce_grad_spec p labels"
  have G: "cross_entropy_gradient p labels = Inr ?G"
    using wf sp lab by (rule ce_gradient_eq_spec)
  have sG: "shape ?G = [?b, ?m]" using sp by (simp add: ce_grad_spec_def)
  have okG: "dense_backward_ok layer ?G" using ok inp sG by (simp add: dense_backward_ok_def)
  have bias: "tabulate [?m] (\<lambda>j. entry (dense_biases layer) j - lr * (entry (dense_grad_bias ?G) j / real ?b))
      = tabulate [?m] (\<lambda>j. entry (dense_biases layer) j - lr * (\<Sum>i<?b.
           entry p [i, j ! 0] - (if int (j ! 0) = labels ! i then 1 else 0)) / (real ?b * real ?b))"
  proof (rule tabulate_cong)
    fix j assume "in_bounds [?m] j"
    then obtain oc where j: "j = [oc]" "oc < ?m" by (auto elim!: in_bounds.elims)
    have "entry (dense_grad_bias ?G) j = (\<Sum>i<?b. (entry p [i, oc] - (if int oc = labels ! i then 1 else 0)) / real ?b)"
      using j sG sp len by (simp add: dense_grad_bias_def ce_grad_spec_entry)
    then show "entry (dense_biases layer) j - lr * (entry (dense_grad_bias ?G) j / real ?b)
        = entry (dense_biases layer) j - lr * (\<Sum>i<?b.
           entry p [i, j ! 0] - (if int (j ! 0) = labels ! i then 1 else 0)) / (real ?b * real ?b)"
      using j by (simp add: sum_divide_distrib [symmetric])
  qed
  have weights: "tabulate (shape (dense_weights layer)) (\<lambda>j. entry (dense_weights layer) j - lr * (entry (dense_grad_weights input ?G) j / real ?b))
      = tabulate (shape (dense_weights layer)) (\<lambda>j. entry (dense_weights layer) j - lr * (\<Sum>i<?b.
           (entry p [i, j ! 1] - (if int (j ! 1) = labels ! i then 1 else 0)) * entry input [i, j ! 0]) / (real ?b * real ?b))"
  proof (rule tabulate_cong)
    fix j assume jb: "in_bounds (shape (dense_weights layer)) j"
    then obtain ic oc where j: "j = [ic, oc]" "ic < n" "oc < m" using s by (auto elim!: in_bounds.elims)
    have "entry (dense_grad_weights input ?G) j
        = (\<Sum>i<?b. (entry p [i, oc] - (if int oc = labels ! i then 1 else 0)) / real ?b * entry input [i, ic])"
      using j sG sp len s w1 by (simp add: dense_grad_weights_def ce_grad_spec_entry)
    then show "entry (dense_weights layer) j - lr * (entry (dense_grad_weights input ?G) j / real ?b)
        = entry (dense_weights layer) j - lr * (\<Sum>i<?b.
           (entry p [i, j ! 1] - (if int (j ! 1) = labels ! i then 1 else 0)) * entry input [i, j ! 0]) / (real ?b * real ?b)"
      using j by (simp add: sum_divide_distrib [symmetric])
  qed
  show ?thesis
    using G dense_backward_eq [OF okG inp, of lr] bias weights by simp
qed

theorem softmax_head_double_normalisation_witness:
  "\<exists>G L' d. cross_entropy_gradient \<lparr>shape = [2, 1], data = [1 / 2, 1 / 4]\<rparr> [0, 0] = Inr G
     \<and> dense_backward demo_dense G (1 / 10) = Inr (L', d) \<and> entry (dense_biases L') [0] = 1 / 32"
proof -
  let ?p = "\<lparr>shape = [2, 1], data = [1 / 2, 1 / 4 :: real]\<rparr>"
  have ok: "dense_backward_ok demo_dense ?p"
    by (simp add: dense_backward_ok_def dense_shapes_ok_def demo_dense_def dense_new_def)
  have inp: "dense_input demo_dense = Some \<lparr>shape = [2, 2], data = [1, 2, 3, 4]\<rparr>"
    by (simp add: demo_dense_def)
  have wf: "wf_arr ?p" by simp
  have lab: "labels_ok (shape \<lparr>shape = [2, 2], data = [1, 2, 3, 4 :: real]\<rparr> ! 0) (dense_out_channels demo_dense) [0, 0]"
    by (simp add: labels_ok_def demo_dense_def dense_new_def)
  have s2: "\<And>f. (\<Sum>i<2::nat. f i) = f 0 + (f 1 :: real)" by (simp add: numeral_2_eq_2)
  obtain G L' d where G: "cross_entropy_gradient ?p [0, 0] = Inr G"
    and bw: "dense_backward demo_dense G (1 / 10) = Inr (L', d)"
    and b: "dense_biases L' = tabulate [1] (\<lambda>j. entry (dense_biases demo_dense) j - 1 / 10 * (\<Sum>i<2. entry ?p [i, j ! 0]
        - (if int (j ! 0) = [0, 0] ! i then 1 else 0)) / (real 2 * real 2))"
    using softmax_head_double_normalisation [OF ok inp wf lab, of "1 / 10"]
    by (auto simp: demo_dense_def dense_new_def)
  have "entry (tabulate [1] (\<lambda>j. entry (dense_biases demo_dense) j - 1 / 10 * (\<Sum>i<2. entry ?p [i, j ! 0]
        - (if int (j ! 0) = [0, 0] ! i then 1 else 0)) / (real 2 * real 2))) [0] = 1 / 32"
    by (subst entry_tabulate) (simp_all add: s2 demo_dense_def dense_new_def zeros_def entry_def)
  then show ?thesis using G bw b by auto
qed

end
